(* ===== verification/Prelude.thy ===== *)
theory Prelude
  imports Complex_Main "HOL-Library.Word"
begin

text \<open>
  Shared vocabulary of the development.

  \<^item> \<open>go_error\<close> is the Go \<open>error\<close> interface as far as this repository looks into it: the
    sentinels of \<^verbatim>\<open>internal/domain/errors.go\<close>, the pgx sentinel \<open>pgx.ErrNoRows\<close>, a
    \<open>pgconn.PgError\<close> with its SQLSTATE, a plain text error, and the \<open>%w\<close> wrapper of
    \<open>fmt.Errorf\<close>, which \<open>errors.Is\<close> looks through.
  \<^item> \<open>'a res\<close> is the outcome of a Go call: a value, an error, or a panic unwinding the caller.
    A call that touches the outside world takes the world and returns it, so its type is
    \<open>'s \<Rightarrow> 'a res \<times> 's\<close>; \<open>bindR\<close> is the idiom "\<open>x, err := f(); if err != nil { return err }\<close>"
    and \<open>wrapR\<close> the idiom "\<open>return fmt.Errorf("msg: %w", err)\<close>".
  \<^item> byte strings, \<open>strings.Join\<close> and \<open>strconv.FormatInt\<close>, with the facts the audit chain
    needs about them.
\<close>

named_theorems svc_defs "definitions of service operations, unfolded together"
named_theorems repo_defs "definitions of repository operations, unfolded together"
named_theorems frame_simps "fields of the world an operation does not write"

section \<open>Errors and outcomes\<close>

datatype go_error =
    ErrNotFound | ErrConflict | ErrInvalid | ErrInvalidInput
  | ErrUnauthorized | ErrForbidden | ErrTenantRequired
  | ErrNoRows
  | PgError string
  | ErrText string
  | Errorf string go_error

text \<open>\<open>errors.Is\<close>: the error itself or one it wraps. Sentinels carry no payload, so value
  equality is pointer equality on them.\<close>

fun errors_Is :: "go_error \<Rightarrow> go_error \<Rightarrow> bool" where
  "errors_Is (Errorf m e) t = (Errorf m e = t \<or> errors_Is e t)"
| "errors_Is e t = (e = t)"

datatype 'a res = Ok 'a | Err go_error | Panic string

definition bindR :: "'a res \<times> 's \<Rightarrow> ('a \<Rightarrow> 's \<Rightarrow> 'b res \<times> 's) \<Rightarrow> 'b res \<times> 's" where
  "bindR r f = (case r of
      (Ok x, s) \<Rightarrow> f x s
    | (Err e, s) \<Rightarrow> (Err e, s)
    | (Panic p, s) \<Rightarrow> (Panic p, s))"

definition wrapR :: "string \<Rightarrow> 'a res \<times> 's \<Rightarrow> 'a res \<times> 's" where
  "wrapR m r = (case r of
      (Err e, s) \<Rightarrow> (Err (Errorf m e), s)
    | _ \<Rightarrow> r)"

text \<open>The same sequencing where no world is threaded.\<close>

definition bind1 :: "'a res \<Rightarrow> ('a \<Rightarrow> 'b res) \<Rightarrow> 'b res" where
  "bind1 r f = (case r of Ok x \<Rightarrow> f x | Err e \<Rightarrow> Err e | Panic p \<Rightarrow> Panic p)"

lemma bind1_simps [simp]: "bind1 (Ok x) f = f x" "bind1 (Err e) f = Err e" "bind1 (Panic p) f = Panic p"
  by (simp_all add: bind1_def)

lemma bind1_Ok [simp]: "bind1 r f = Ok y \<longleftrightarrow> (\<exists>x. r = Ok x \<and> f x = Ok y)"
  by (cases r) simp_all

lemma bindR_simps [simp]:
  "bindR (Ok x, s) f = f x s"
  "bindR (Err e, s) f = (Err e, s)"
  "bindR (Panic p, s) f = (Panic p, s)"
  by (simp_all add: bindR_def)

lemma wrapR_simps [simp]:
  "wrapR m (Ok x, s) = (Ok x, s)"
  "wrapR m (Err e, s) = (Err (Errorf m e), s)"
  "wrapR m (Panic p, s) = (Panic p, s)"
  by (simp_all add: wrapR_def)

lemma bindR_Ok_iff:
  "bindR r f = (Ok y, s') \<longleftrightarrow> (\<exists>x s. r = (Ok x, s) \<and> f x s = (Ok y, s'))"
  by (cases r; cases "fst r") (auto simp: bindR_def split: res.splits prod.splits)

lemma bindR_OkE:
  assumes "bindR r f = (Ok y, s')"
  obtains x s where "r = (Ok x, s)" "f x s = (Ok y, s')"
  using assms by (auto simp: bindR_Ok_iff)

text \<open>Every way a sequence can end.\<close>

lemma bindR_cases:
  assumes "bindR r f = (x, s')"
  obtains (ok) v s1 where "r = (Ok v, s1)" "f v s1 = (x, s')"
    | (err) e where "r = (Err e, s')" "x = Err e"
    | (panic) p where "r = (Panic p, s')" "x = Panic p"
  using assms by (cases r; cases "fst r") (auto simp: bindR_def)

lemma wrapR_Ok_iff [simp]: "wrapR m r = (Ok x, s) \<longleftrightarrow> r = (Ok x, s)"
  by (cases r) (auto simp: wrapR_def split: res.splits)

lemma snd_wrapR [simp]: "snd (wrapR m r) = snd r"
  by (cases r) (auto simp: wrapR_def split: res.splits)

lemma errors_Is_refl [simp]: "errors_Is e e"
  by (cases e) simp_all

lemma snd_bindR_invariant:
  assumes "P (snd r)" and "\<And>x s. r = (Ok x, s) \<Longrightarrow> P (snd (f x s))"
  shows "P (snd (bindR r f))"
  using assms by (cases r; cases "fst r") (auto simp: bindR_def)

text \<open>\<open>outcome r Q E\<close>: a value satisfies \<open>Q\<close> with the world it was returned in, and after an error or
  a panic the world satisfies \<open>E\<close>. The rules follow a body from its first call to its last.\<close>

definition outcome :: "'a res \<times> 's \<Rightarrow> ('a \<Rightarrow> 's \<Rightarrow> bool) \<Rightarrow> ('s \<Rightarrow> bool) \<Rightarrow> bool" where
  "outcome r Q E \<longleftrightarrow> (case r of (Ok x, s) \<Rightarrow> Q x s | (_, s) \<Rightarrow> E s)"

lemma outcome_simps [simp]:
  "outcome (Ok x, s) Q E = Q x s" "outcome (Err e, s) Q E = E s" "outcome (Panic p, s) Q E = E s"
  by (simp_all add: outcome_def)

lemma outcomeI:
  assumes "\<And>x s. r = (Ok x, s) \<Longrightarrow> Q x s" "\<And>s. snd r = s \<Longrightarrow> \<nexists>x. fst r = Ok x \<Longrightarrow> E s"
  shows "outcome r Q E"
  using assms by (cases r; cases "fst r") (auto simp: outcome_def)

lemma outcome_wrapR [simp]: "outcome (wrapR m r) Q E = outcome r Q E"
  by (cases r; cases "fst r") (auto simp: outcome_def wrapR_def)

lemma outcome_bindR:
  assumes "outcome r Q' E" "\<And>x s. Q' x s \<Longrightarrow> outcome (f x s) Q E"
  shows "outcome (bindR r f) Q E"
  using assms by (cases r; cases "fst r") auto

lemma outcome_mono:
  assumes "outcome r Q E" "\<And>x s. Q x s \<Longrightarrow> Q' x s" "\<And>s. E s \<Longrightarrow> E' s"
  shows "outcome r Q' E'"
  using assms by (cases r; cases "fst r") auto

lemma outcome_Ok: "outcome r Q E \<Longrightarrow> r = (Ok x, s) \<Longrightarrow> Q x s"
  by simp

lemma outcome_any: "outcome r Q E \<Longrightarrow> r = (x, s) \<Longrightarrow> (\<And>y. Q y s \<Longrightarrow> P s) \<Longrightarrow> (E s \<Longrightarrow> P s) \<Longrightarrow> P s"
  by (cases x) auto

text \<open>A call that leaves a part of the world alone.\<close>

lemma outcome_frame:
  assumes "core (snd r) = core s"
  shows "outcome r (\<lambda>x s'. r = (Ok x, s') \<and> core s' = core s) (\<lambda>s'. core s' = core s)"
  using assms by (cases r; cases "fst r") auto

section \<open>Strings\<close>

type_synonym byte = "8 word"

definition bytes_of :: "string \<Rightarrow> byte list" where
  "bytes_of s = map of_char s"

definition string_of :: "byte list \<Rightarrow> string" where
  "string_of bs = map (\<lambda>b. char_of (unat b)) bs"

lemma string_of_bytes_of [simp]: "string_of (bytes_of s) = s"
proof -
  have "char_of (unat (of_char c :: byte)) = c" for c
  proof -
    have "unat (of_nat (of_char c :: nat) :: byte) = of_char c mod 256"
      by (simp add: unat_of_nat)
    then show ?thesis by (simp add: of_nat_of_char)
  qed
  then show ?thesis by (simp add: string_of_def bytes_of_def comp_def)
qed

lemma bytes_of_eq_iff [simp]: "bytes_of s = bytes_of t \<longleftrightarrow> s = t"
  by (metis string_of_bytes_of)

text \<open>\<open>strings.Join\<close>.\<close>

fun strings_Join :: "string list \<Rightarrow> string \<Rightarrow> string" where
  "strings_Join [] sep = []"
| "strings_Join [x] sep = x"
| "strings_Join (x # y # xs) sep = x @ sep @ strings_Join (y # xs) sep"

text \<open>Joining with a one-character separator that no element contains can be undone.\<close>

lemma takeWhile_sep: "c \<notin> set x \<Longrightarrow> takeWhile (\<lambda>d. d \<noteq> c) (x @ c # r) = x"
  by (induction x) auto

lemma sep_append_inject:
  assumes "c \<notin> set x" "c \<notin> set y" "x @ c # r = y @ c # q"
  shows "x = y \<and> r = q"
proof -
  have "x = y" using assms by (metis takeWhile_sep)
  with assms(3) show ?thesis by simp
qed

lemma strings_Join_inject:
  assumes "length xs = length ys"
    and "\<forall>x \<in> set xs. c \<notin> set x" "\<forall>y \<in> set ys. c \<notin> set y"
    and "strings_Join xs [c] = strings_Join ys [c]"
  shows "xs = ys"
  using assms
proof (induction xs ys rule: list_induct2)
  case Nil
  then show ?case by simp
next
  case (Cons x xs y ys)
  show ?case
  proof (cases xs)
    case Nil
    with Cons show ?thesis by simp
  next
    case (Cons x' xs')
    with Cons.hyps obtain y' ys' where ys: "ys = y' # ys'" by (cases ys) auto
    from Cons.prems Cons ys
    have "x @ c # strings_Join xs [c] = y @ c # strings_Join ys [c]" by simp
    then have "x = y \<and> strings_Join xs [c] = strings_Join ys [c]"
      using Cons.prems by (intro sep_append_inject) auto
    with Cons.IH Cons.prems show ?thesis by auto
  qed
qed

section \<open>Decimal numerals\<close>

text \<open>\<open>strconv.FormatInt(n, 10)\<close>; the digits are produced most significant first.\<close>

definition digit_char :: "nat \<Rightarrow> char" where
  "digit_char d = char_of (48 + d)"

fun dec_digits :: "nat \<Rightarrow> string" where
  "dec_digits n = (if n < 10 then [digit_char n] else dec_digits (n div 10) @ [digit_char (n mod 10)])"

declare dec_digits.simps [simp del]

definition FormatInt :: "int \<Rightarrow> string" where
  "FormatInt i = (if i < 0 then CHR ''-'' # dec_digits (nat (- i)) else dec_digits (nat i))"

lemma of_char_digit_char: "d < 10 \<Longrightarrow> (of_char (digit_char d) :: nat) = 48 + d"
  by (simp add: digit_char_def)

lemma digit_char_inject: "d < 10 \<Longrightarrow> e < 10 \<Longrightarrow> digit_char d = digit_char e \<Longrightarrow> d = e"
  by (metis of_char_digit_char add_left_cancel)

lemma dec_digits_chars: "x \<in> set (dec_digits n) \<Longrightarrow> \<exists>d<10. x = digit_char d"
proof (induction n rule: dec_digits.induct)
  case (1 n)
  show ?case
  proof (cases "n < 10")
    case True
    with 1(2) show ?thesis by (auto simp: dec_digits.simps [of n])
  next
    case False
    have "n mod 10 < 10" by simp
    then have "\<exists>d<10. digit_char (n mod 10) = digit_char d" by blast
    with False 1 show ?thesis by (auto simp: dec_digits.simps [of n])
  qed
qed

lemma dec_digits_no:
  assumes "(of_char c :: nat) < 48 \<or> 57 < (of_char c :: nat)"
  shows "c \<notin> set (dec_digits n)"
proof
  assume "c \<in> set (dec_digits n)"
  then obtain d where "d < 10" "c = digit_char d" using dec_digits_chars by blast
  with of_char_digit_char [of d] assms show False by simp
qed

definition dec_value :: "string \<Rightarrow> nat" where
  "dec_value s = foldl (\<lambda>n c. 10 * n + (of_char c - 48)) 0 s"

lemma dec_value_digits: "dec_value (dec_digits n) = n"
proof (induction n rule: dec_digits.induct)
  case (1 n)
  show ?case
  proof (cases "n < 10")
    case True
    then show ?thesis by (simp add: dec_digits.simps [of n] dec_value_def of_char_digit_char)
  next
    case False
    with 1 show ?thesis
      by (simp add: dec_digits.simps [of n] dec_value_def of_char_digit_char)
  qed
qed

lemma dec_digits_inject [simp]: "dec_digits m = dec_digits n \<longleftrightarrow> m = n"
  by (metis dec_value_digits)

lemma FormatInt_no:
  assumes "(of_char c :: nat) < 48 \<or> 57 < (of_char c :: nat)" "c \<noteq> CHR ''-''"
  shows "c \<notin> set (FormatInt i)"
  using assms dec_digits_no [of c] by (simp add: FormatInt_def)

lemma FormatInt_inject [simp]: "FormatInt i = FormatInt j \<longleftrightarrow> i = j"
proof -
  have "CHR ''-'' \<notin> set (dec_digits n)" for n by (rule dec_digits_no) simp
  then have "CHR ''-'' # xs \<noteq> dec_digits n" for n xs by (metis list.set_intros(1))
  moreover from this have "dec_digits n \<noteq> CHR ''-'' # xs" for n xs by metis
  ultimately show ?thesis by (auto simp: FormatInt_def)
qed

section \<open>Lookup by a unique key\<close>

lemma filter_unique:
  assumes "x \<in> set xs" "distinct (map f xs)" "P x" "\<And>y. P y \<Longrightarrow> f y = f x"
  shows "filter P xs = [x]"
  using assms(1,2)
proof (induction xs)
  case (Cons y ys)
  show ?case
  proof (cases "y = x")
    case True
    have "\<not> P z" if "z \<in> set ys" for z
    proof
      assume "P z"
      then have "f z = f y" using assms(4) True by simp
      with that Cons.prems(2) show False by (metis distinct.simps(2) image_eqI list.set_map list.simps(9))
    qed
    with True assms(3) show ?thesis by (simp add: filter_empty_conv)
  next
    case False
    with Cons.prems have x: "x \<in> set ys" by simp
    have "\<not> P y"
    proof
      assume "P y"
      then have "f y = f x" by (rule assms(4))
      with x Cons.prems(2) show False by (metis distinct.simps(2) image_eqI list.set_map list.simps(9))
    qed
    with Cons x show ?thesis by simp
  qed
qed simp

end
