(* ===== verification/Go_Time.thy ===== *)
theory Go_Time
  imports Prelude
begin

text \<open>
  The part of Go's \<open>time\<close> package the source calls. An instant is its distance from the Unix
  epoch in nanoseconds, as an unbounded integer (the wall clock of a \<open>time.Time\<close> spans seconds
  in an \<open>int64\<close>, so no operation here can overflow on an instant the program can meet); a
  \<open>time.Duration\<close> is a number of nanoseconds. Every instant the program formats is in UTC.

  The calendar is the proleptic Gregorian one, computed from the day number the way
  \<open>Time.Date\<close> does; \<open>Format_RFC3339Nano\<close> trims trailing zeros of the fraction and drops an
  empty fraction, \<open>Format_RFC3339\<close> never prints one.
\<close>

type_synonym time = int
type_synonym duration = int

definition Second :: duration where "Second = 1000000000"
definition Microsecond :: duration where "Microsecond = 1000"
definition Millisecond :: duration where "Millisecond = 1000000"
definition Minute :: duration where "Minute = 60 * Second"

text \<open>\<open>time.Time{}\<close> is midnight of 1 January of year 1.\<close>

definition zero_Time :: time where "zero_Time = - (62135596800 * Second)"

definition IsZero :: "time \<Rightarrow> bool" where "IsZero t \<longleftrightarrow> t = zero_Time"
definition Before :: "time \<Rightarrow> time \<Rightarrow> bool" where "Before t u \<longleftrightarrow> t < u"
definition After :: "time \<Rightarrow> time \<Rightarrow> bool" where "After t u \<longleftrightarrow> u < t"
definition Add :: "time \<Rightarrow> duration \<Rightarrow> time" where "Add t d = t + d"
definition Unix :: "time \<Rightarrow> int" where "Unix t = t div Second"

definition Truncate :: "time \<Rightarrow> duration \<Rightarrow> time" where
  "Truncate t d = (if d \<le> 0 then t else t - (t - zero_Time) mod d)"

text \<open>Integer division of Go truncates towards zero.\<close>

definition quot :: "int \<Rightarrow> int \<Rightarrow> int" where
  "quot a b = sgn a * sgn b * (\<bar>a\<bar> div \<bar>b\<bar>)"

lemma quot_nonneg: "0 \<le> a \<Longrightarrow> 0 < b \<Longrightarrow> quot a b = a div b"
  by (cases "a = 0") (auto simp: quot_def)

lemma Truncate_us: "Truncate t Microsecond = t - t mod 1000"
proof -
  have "t - zero_Time = t + 62135596800000000 * 1000" by (simp add: zero_Time_def Second_def)
  then have "(t - zero_Time) mod 1000 = t mod 1000" by (simp only: mod_mult_self1)
  then show ?thesis by (simp add: Truncate_def Microsecond_def)
qed

lemma Truncate_us_idem [simp]: "Truncate (Truncate t Microsecond) Microsecond = Truncate t Microsecond"
  by (simp add: Truncate_us)

section \<open>Calendar and formatting\<close>

definition civil :: "int \<Rightarrow> int \<times> int \<times> int" where
  "civil days = (let z = days + 719468; era = z div 146097; doe = z mod 146097;
      yoe = (doe - doe div 1460 + doe div 36524 - doe div 146096) div 365;
      doy = doe - (365 * yoe + yoe div 4 - yoe div 100);
      mp = (5 * doy + 2) div 153;
      d = doy - (153 * mp + 2) div 5 + 1;
      m = (if mp < 10 then mp + 3 else mp - 9)
    in (yoe + era * 400 + (if m \<le> 2 then 1 else 0), m, d))"

definition pad_int :: "nat \<Rightarrow> int \<Rightarrow> string" where
  "pad_int w i = (let ds = dec_digits (nat \<bar>i\<bar>) in
     (if i < 0 then ''-'' else []) @ replicate (w - length ds) CHR ''0'' @ ds)"

definition fraction :: "int \<Rightarrow> string" where
  "fraction ns = (let ds = rev (dropWhile (\<lambda>c. c = CHR ''0'') (rev (pad_int 9 ns))) in
     if ds = [] then [] else CHR ''.'' # ds)"

definition format_seconds :: "time \<Rightarrow> string" where
  "format_seconds t = (let s = t div Second; (y, m, d) = civil (s div 86400); r = s mod 86400 in
     pad_int 4 y @ ''-'' @ pad_int 2 m @ ''-'' @ pad_int 2 d @ ''T'' @
     pad_int 2 (r div 3600) @ '':'' @ pad_int 2 (r div 60 mod 60) @ '':'' @ pad_int 2 (r mod 60))"

definition Format_RFC3339 :: "time \<Rightarrow> string" where
  "Format_RFC3339 t = format_seconds t @ ''Z''"

definition Format_RFC3339Nano :: "time \<Rightarrow> string" where
  "Format_RFC3339Nano t = format_seconds t @ fraction (t mod Second) @ ''Z''"

text \<open>Formatted instants never contain the field separator of the audit chain.\<close>

lemma pad_int_no: 
  assumes "(of_char c :: nat) < 48 \<or> 57 < (of_char c :: nat)" "c \<noteq> CHR ''-''"
  shows "c \<notin> set (pad_int w i)"
  using assms dec_digits_no [of c] by (auto simp: pad_int_def Let_def)

lemma Format_RFC3339Nano_no:
  assumes "(of_char c :: nat) < 48 \<or> 57 < (of_char c :: nat)"
    and "c \<notin> {CHR ''-'', CHR ''T'', CHR '':'', CHR ''.'', CHR ''Z''}"
  shows "c \<notin> set (Format_RFC3339Nano t)"
proof -
  have p: "c \<notin> set (pad_int w i)" for w i using assms by (intro pad_int_no) auto
  then have "c \<notin> set (fraction (t mod Second))"
    using assms(2) by (auto simp: fraction_def Let_def dest: set_dropWhileD)
  with p assms(2) show ?thesis
    by (auto simp: Format_RFC3339Nano_def format_seconds_def Let_def split: prod.splits)
qed

end
