(* ===== verification/Domain.thy ===== *)
theory Domain
  imports Go_Time
begin

text \<open>
  \<^verbatim>\<open>internal/domain\<close>: the entities as records (one field per struct field, prefixed with the
  entity's initials because field names of HOL records share one name space), the severity and
  role vocabularies, and the \<open>IsValid\<close> checks. \<open>AreaHA\<close> is a finite \<open>float64\<close>, hence a rational:
  JSON has no literal for NaN or an infinity, so no other value reaches the services. The email
  pattern is modelled twice: as the executable matcher the services run and as the language the
  regular expression denotes; \<open>email_MatchString_iff\<close> says they agree.
\<close>

section \<open>Vocabularies\<close>

abbreviation SeverityInfo :: string where "SeverityInfo \<equiv> ''info''"
abbreviation SeverityWarn :: string where "SeverityWarn \<equiv> ''warn''"
abbreviation SeverityCritical :: string where "SeverityCritical \<equiv> ''critical''"

abbreviation RoleAdmin :: string where "RoleAdmin \<equiv> ''admin''"
abbreviation RoleProducer :: string where "RoleProducer \<equiv> ''producer''"
abbreviation RoleAgronomist :: string where "RoleAgronomist \<equiv> ''agronomist''"
abbreviation RoleAuditor :: string where "RoleAuditor \<equiv> ''auditor''"
abbreviation RoleHauler :: string where "RoleHauler \<equiv> ''hauler''"

definition IsValidRoleCode :: "string \<Rightarrow> bool" where
  "IsValidRoleCode code \<longleftrightarrow>
     code \<in> {RoleAdmin, RoleProducer, RoleAgronomist, RoleAuditor, RoleHauler}"

section \<open>Entities\<close>

record Tenant =
  t_ID :: string
  t_Name :: string
  t_CreatedAt :: time
  t_UpdatedAt :: time

record User =
  u_ID :: string
  u_TenantID :: string
  u_Email :: string
  u_PasswordHash :: string
  u_FullName :: string
  u_IsActive :: bool
  u_Role :: string
  u_CreatedAt :: time
  u_UpdatedAt :: time

record UserRole =
  ur_UserID :: string
  ur_RoleCode :: string
  ur_TenantID :: string

record Lot =
  l_ID :: string
  l_TenantID :: string
  l_Name :: string
  l_AreaHA :: rat
  l_Crop :: string
  l_CreatedAt :: time
  l_UpdatedAt :: time

record Campaign =
  c_ID :: string
  c_TenantID :: string
  c_Name :: string
  c_Season :: string
  c_StartedAt :: "time option"
  c_EndedAt :: "time option"
  c_CreatedAt :: time
  c_UpdatedAt :: time

record Application =
  a_ID :: string
  a_TenantID :: string
  a_LotID :: string
  a_CampaignID :: string
  a_ProductName :: string
  a_Dose :: string
  a_AppliedAt :: time
  a_OperatorID :: string
  a_OperatorName :: string
  a_Notes :: string
  a_CreatedAt :: time
  a_UpdatedAt :: time

text \<open>A nil \<open>Payload\<close> slice is \<open>None\<close>; \<open>Some []\<close> is an empty non-nil slice.\<close>

record AuditEntry =
  ae_ID :: int
  ae_TenantID :: string
  ae_ActorUserID :: string
  ae_Action :: string
  ae_EntityType :: string
  ae_EntityID :: string
  ae_Payload :: "string option"
  ae_CreatedAt :: time
  ae_Seq :: int
  ae_PrevHash :: string
  ae_ChainHash :: string
  ae_Severity :: string

section \<open>Validation\<close>

text \<open>\<open>\<^verbatim>\<open>^[^@\s]+@[^@\s]+\.[^@\s]+$\<close>\<close>. RE2's \<open>\s\<close> is tab, newline, form feed, carriage return
  and space. All metacharacters are ASCII, so matching bytes is matching code points.\<close>

definition email_class :: "char \<Rightarrow> bool" where
  "email_class c \<longleftrightarrow>
     c \<notin> {CHR ''@'', CHR 0x09, CHR 0x0A, CHR 0x0C, CHR 0x0D, CHR '' ''}"

definition email_language :: "string set" where
  "email_language = {x @ CHR ''@'' # y @ CHR ''.'' # z | x y z.
     x \<noteq> [] \<and> y \<noteq> [] \<and> z \<noteq> [] \<and> list_all email_class (x @ y @ z)}"

definition email_MatchString :: "string \<Rightarrow> bool" where
  "email_MatchString s =
     (takeWhile email_class s \<noteq> [] \<and>
      (case dropWhile email_class s of
         [] \<Rightarrow> False
       | c # dmn \<Rightarrow> c = CHR ''@'' \<and> list_all email_class dmn \<and>
           (\<exists>i \<in> set [1..<length dmn - 1]. dmn ! i = CHR ''.'')))"

definition Tenant_IsValid :: "Tenant \<Rightarrow> bool" where
  "Tenant_IsValid t \<longleftrightarrow> t_Name t \<noteq> []"

definition User_IsValid :: "User \<Rightarrow> bool" where
  "User_IsValid u \<longleftrightarrow> u_TenantID u \<noteq> [] \<and> email_MatchString (u_Email u) \<and>
     u_PasswordHash u \<noteq> [] \<and> u_FullName u \<noteq> []"

definition Lot_IsValid :: "Lot \<Rightarrow> bool" where
  "Lot_IsValid l \<longleftrightarrow> l_TenantID l \<noteq> [] \<and> l_Name l \<noteq> [] \<and> 0 \<le> l_AreaHA l"

definition Campaign_IsValid :: "Campaign \<Rightarrow> bool" where
  "Campaign_IsValid c =
     (if c_TenantID c = [] \<or> c_Name c = [] then False
      else case (c_StartedAt c, c_EndedAt c) of
          (Some s, Some e) \<Rightarrow> \<not> Before e s
        | _ \<Rightarrow> True)"

definition Application_IsValid :: "Application \<Rightarrow> bool" where
  "Application_IsValid a \<longleftrightarrow> a_TenantID a \<noteq> [] \<and> a_LotID a \<noteq> [] \<and>
     a_CampaignID a \<noteq> [] \<and> a_ProductName a \<noteq> []"

definition AuditEntry_IsValid :: "AuditEntry \<Rightarrow> bool" where
  "AuditEntry_IsValid a \<longleftrightarrow> ae_TenantID a \<noteq> [] \<and> ae_Action a \<noteq> [] \<and> ae_EntityType a \<noteq> []"

lemma email_class_at [simp]: "\<not> email_class CHR ''@''"
  by (simp add: email_class_def)

lemma email_class_dot [simp]: "email_class CHR ''.''"
  by (simp add: email_class_def)

lemma takeWhile_dropWhile_at:
  assumes "list_all email_class x"
  shows "takeWhile email_class (x @ CHR ''@'' # r) = x"
    and "dropWhile email_class (x @ CHR ''@'' # r) = CHR ''@'' # r"
  using assms by (induction x) auto

lemma email_language_matches: "s \<in> email_language \<Longrightarrow> email_MatchString s"
proof -
  assume "s \<in> email_language"
  then obtain x y z where s: "s = x @ CHR ''@'' # y @ CHR ''.'' # z"
    and ne: "x \<noteq> []" "y \<noteq> []" "z \<noteq> []" and cl: "list_all email_class (x @ y @ z)"
    by (auto simp: email_language_def)
  have "length y \<in> set [1..<length (y @ CHR ''.'' # z) - 1]" using ne
    by (simp add: Suc_le_eq)
  moreover have "(y @ CHR ''.'' # z) ! length y = CHR ''.''" by simp
  ultimately have "\<exists>i \<in> set [1..<length (y @ CHR ''.'' # z) - 1]. (y @ CHR ''.'' # z) ! i = CHR ''.''"
    by blast
  with cl ne show ?thesis
    by (simp add: s email_MatchString_def takeWhile_dropWhile_at)
qed

lemma email_matches_language: "email_MatchString s \<Longrightarrow> s \<in> email_language"
proof -
  assume m: "email_MatchString s"
  define x where "x = takeWhile email_class s"
  from m obtain dmn i where x: "x \<noteq> []" and dw: "dropWhile email_class s = CHR ''@'' # dmn"
    and cl: "list_all email_class dmn" and i: "1 \<le> i" "i < length dmn - 1" "dmn ! i = CHR ''.''"
    by (auto simp: email_MatchString_def x_def split: list.splits)
  have dmn: "dmn = take i dmn @ CHR ''.'' # drop (Suc i) dmn"
    using i by (metis id_take_nth_drop less_diff_conv add_lessD1)
  have s: "s = x @ CHR ''@'' # take i dmn @ CHR ''.'' # drop (Suc i) dmn"
    using dw dmn by (metis takeWhile_dropWhile_id x_def)
  have "list_all email_class x" by (auto simp: x_def list_all_iff dest: set_takeWhileD)
  moreover have "list_all email_class (take i dmn)" "list_all email_class (drop (Suc i) dmn)"
    using cl by (auto simp: list_all_iff dest: in_set_takeD in_set_dropD)
  ultimately have c: "list_all email_class (x @ take i dmn @ drop (Suc i) dmn)" by simp
  have ne: "take i dmn \<noteq> []" "drop (Suc i) dmn \<noteq> []" using i by auto
  show ?thesis
    unfolding email_language_def mem_Collect_eq using s x ne c by blast
qed

lemma email_MatchString_iff: "email_MatchString s \<longleftrightarrow> s \<in> email_language"
  by (blast intro: email_language_matches email_matches_language)

end
