(* ===== verification/Encoding.thy ===== *)
theory Encoding
  imports Prelude
begin

text \<open>
  The text encodings of the Go standard library the source calls: \<open>hex.EncodeToString\<close>, the
  \<open>%x\<close> verb on byte slices (the same digits), and the unpadded base64 codecs
  \<open>base64.RawURLEncoding\<close> (refresh tokens) and \<open>base64.RawStdEncoding\<close> (PHC strings). The
  lemmas give the alphabets, the lengths, injectivity of the hex form and the base64 round trip.
\<close>

section \<open>Hexadecimal text\<close>

definition hex_char :: "nat \<Rightarrow> char" where
  "hex_char d = (if d < 10 then char_of (48 + d) else char_of (87 + d))"

definition hex_byte :: "byte \<Rightarrow> string" where
  "hex_byte b = [hex_char (unat b div 16), hex_char (unat b mod 16)]"

definition hex_EncodeToString :: "byte list \<Rightarrow> string" where
  "hex_EncodeToString bs = concat (map hex_byte bs)"

lemma of_char_hex_char: "d < 16 \<Longrightarrow> (of_char (hex_char d) :: nat) = (if d < 10 then 48 + d else 87 + d)"
  by (simp add: hex_char_def)

lemma hex_char_inject:
  assumes "d < 16" "e < 16" "hex_char d = hex_char e"
  shows "d = e"
proof -
  have "(if d < 10 then 48 + d else 87 + d) = (if e < 10 then 48 + e else 87 + e)"
    using assms of_char_hex_char by metis
  with assms(1,2) show ?thesis by (simp split: if_splits)
qed

lemma unat_byte_less: "unat (b :: byte) < 256"
  using unsigned_less [of b, where ?'a = nat] by simp

lemma hex_byte_inject: "hex_byte a = hex_byte b \<Longrightarrow> a = b"
proof -
  assume eq: "hex_byte a = hex_byte b"
  have "unat a div 16 < 16" "unat b div 16 < 16" using unat_byte_less [of a] unat_byte_less [of b] by auto
  with eq have "unat a div 16 = unat b div 16" "unat a mod 16 = unat b mod 16"
    by (auto simp: hex_byte_def intro: hex_char_inject)
  then have "unat a = unat b" by (metis div_mult_mod_eq)
  then show ?thesis by (rule unsigned_word_eqI)
qed

lemma length_hex [simp]: "length (hex_EncodeToString bs) = 2 * length bs"
  by (induction bs) (auto simp: hex_EncodeToString_def hex_byte_def)

lemma hex_EncodeToString_inject [simp]:
  "hex_EncodeToString xs = hex_EncodeToString ys \<longleftrightarrow> xs = ys"
proof
  assume eq: "hex_EncodeToString xs = hex_EncodeToString ys"
  then have "length xs = length ys" by (metis length_hex mult_cancel1 zero_neq_numeral)
  then show "xs = ys" using eq
  proof (induction xs ys rule: list_induct2)
    case Nil
    then show ?case by simp
  next
    case (Cons x xs y ys)
    then have "hex_byte x = hex_byte y" "hex_EncodeToString xs = hex_EncodeToString ys"
      by (auto simp: hex_EncodeToString_def hex_byte_def)
    with Cons.IH show ?case by (auto dest: hex_byte_inject)
  qed
qed simp

lemma hex_chars:
  assumes "c \<in> set (hex_EncodeToString bs)"
  shows "(of_char c :: nat) \<in> {48..57} \<union> {97..102}"
proof -
  from assms obtain b where b: "c \<in> set (hex_byte b)" by (auto simp: hex_EncodeToString_def)
  have "unat b div 16 < 16" "unat b mod 16 < 16" using unat_byte_less [of b] by auto
  moreover from b have "c = hex_char (unat b div 16) \<or> c = hex_char (unat b mod 16)"
    by (auto simp: hex_byte_def)
  ultimately obtain d where "d < 16" "c = hex_char d" by metis
  then show ?thesis by (simp add: of_char_hex_char)
qed

section \<open>Unpadded base64\<close>

definition alpha_url :: string where
  "alpha_url = ''ABCDEFGHIJKLMNOPQRSTUVWXYZabcdefghijklmnopqrstuvwxyz0123456789-_''"

definition alpha_std :: string where
  "alpha_std = ''ABCDEFGHIJKLMNOPQRSTUVWXYZabcdefghijklmnopqrstuvwxyz0123456789+/''"

fun sextets :: "nat list \<Rightarrow> nat list" where
  "sextets (a # b # c # r) =
     [a div 4, a mod 4 * 16 + b div 16, b mod 16 * 4 + c div 64, c mod 64] @ sextets r"
| "sextets [a, b] = [a div 4, a mod 4 * 16 + b div 16, b mod 16 * 4]"
| "sextets [a] = [a div 4, a mod 4 * 16]"
| "sextets [] = []"

definition b64_EncodeToString :: "string \<Rightarrow> byte list \<Rightarrow> string" where
  "b64_EncodeToString alpha bs = map (nth alpha) (sextets (map unat bs))"

text \<open>Decoding drops carriage returns and newlines, rejects any other character outside the
  alphabet (the padding character too) and a last group of one character.\<close>

fun b64_index :: "string \<Rightarrow> char \<Rightarrow> nat option" where
  "b64_index [] c = None"
| "b64_index (a # as) c = (if a = c then Some 0 else map_option Suc (b64_index as c))"

fun octets :: "nat list \<Rightarrow> nat list option" where
  "octets (p # q # r # s # t) =
     map_option (\<lambda>os. [p * 4 + q div 16, q mod 16 * 16 + r div 4, r mod 4 * 64 + s] @ os) (octets t)"
| "octets [p, q, r] = Some [p * 4 + q div 16, q mod 16 * 16 + r div 4]"
| "octets [p, q] = Some [p * 4 + q div 16]"
| "octets [p] = None"
| "octets [] = Some []"

definition b64_DecodeString :: "string \<Rightarrow> string \<Rightarrow> byte list option" where
  "b64_DecodeString alpha s =
     (case those (map (b64_index alpha) (List.filter (\<lambda>c. c \<noteq> CHR 0x0A \<and> c \<noteq> CHR 0x0D) s)) of
        None \<Rightarrow> None
      | Some ds \<Rightarrow> map_option (map of_nat) (octets ds))"

lemma sextets_less: "\<forall>b \<in> set bs. b < 256 \<Longrightarrow> d \<in> set (sextets bs) \<Longrightarrow> d < 64"
  by (induction bs rule: sextets.induct) (auto simp: less_mult_imp_div_less)

lemma octets_sextets: "\<forall>b \<in> set bs. b < 256 \<Longrightarrow> octets (sextets bs) = Some bs"
proof (induction bs rule: sextets.induct)
  case (1 a b c r)
  have "a div 4 * 4 + (a mod 4 * 16 + b div 16) div 16 = a" using 1 by auto
  moreover have "(a mod 4 * 16 + b div 16) mod 16 * 16 + (b mod 16 * 4 + c div 64) div 4 = b" using 1 by auto
  moreover have "(b mod 16 * 4 + c div 64) mod 4 * 64 + c mod 64 = c" using 1 by auto
  ultimately show ?case using 1 by simp
qed auto

lemma b64_index_nth: "distinct alpha \<Longrightarrow> d < length alpha \<Longrightarrow> b64_index alpha (alpha ! d) = Some d"
proof (induction alpha arbitrary: d)
  case Nil
  then show ?case by simp
next
  case (Cons a as)
  then show ?case by (cases d) (auto simp: nth_mem)
qed

lemma those_map_Some: "(\<And>x. x \<in> set xs \<Longrightarrow> f (g x) = Some x) \<Longrightarrow> those (map f (map g xs)) = Some xs"
  by (induction xs) auto

definition b64_alphabet :: "string \<Rightarrow> bool" where
  "b64_alphabet alpha \<longleftrightarrow> length alpha = 64 \<and> distinct alpha \<and> CHR 0x0A \<notin> set alpha \<and> CHR 0x0D \<notin> set alpha"

lemma b64_alphabet_url: "b64_alphabet alpha_url"
  by (simp add: b64_alphabet_def alpha_url_def)

lemma b64_alphabet_std: "b64_alphabet alpha_std"
  by (simp add: b64_alphabet_def alpha_std_def)

lemma b64_encode_chars:
  "b64_alphabet alpha \<Longrightarrow> set (b64_EncodeToString alpha bs) \<subseteq> set alpha"
  using sextets_less [of "map unat bs"]
  by (auto simp: b64_EncodeToString_def b64_alphabet_def unat_byte_less)

lemma b64_roundtrip:
  assumes "b64_alphabet alpha"
  shows "b64_DecodeString alpha (b64_EncodeToString alpha bs) = Some bs"
proof -
  let ?ss = "sextets (map unat bs)"
  have ss: "d < 64" if "d \<in> set ?ss" for d
    using sextets_less [of "map unat bs" d] that by (auto simp: unat_byte_less)
  have "List.filter (\<lambda>c. c \<noteq> CHR 0x0A \<and> c \<noteq> CHR 0x0D) (b64_EncodeToString alpha bs) = b64_EncodeToString alpha bs"
    using b64_encode_chars [OF assms, of bs] assms by (auto simp: b64_alphabet_def filter_id_conv)
  moreover have "those (map (b64_index alpha) (b64_EncodeToString alpha bs)) = Some ?ss"
    unfolding b64_EncodeToString_def
    by (rule those_map_Some) (use assms ss in \<open>auto simp: b64_alphabet_def intro: b64_index_nth\<close>)
  moreover have "octets ?ss = Some (map unat bs)"
    by (rule octets_sextets) (auto simp: unat_byte_less)
  ultimately show ?thesis by (simp add: b64_DecodeString_def comp_def)
qed

lemma b64_encode_inject:
  "b64_alphabet alpha \<Longrightarrow> b64_EncodeToString alpha xs = b64_EncodeToString alpha ys \<longleftrightarrow> xs = ys"
  by (metis b64_roundtrip option.inject)

end
