(* ===== verification/Request_Context.thy ===== *)
theory Request_Context
  imports Encoding
begin

text \<open>
  The request context: \<^verbatim>\<open>internal/http/claims/claims.go\<close> (the authenticated identity under three
  typed keys) and \<^verbatim>\<open>internal/requestid/requestid.go\<close> (the correlation id). A key that was never
  set is \<open>None\<close>; the accessors read an absent key and an empty value alike, as the source says.
\<close>

record Ctx =
  ctx_userID :: "string option"
  ctx_tenantID :: "string option"
  ctx_role :: "string option"
  ctx_requestID :: "string option"

definition Background :: Ctx where
  "Background = \<lparr>ctx_userID = None, ctx_tenantID = None, ctx_role = None, ctx_requestID = None\<rparr>"

definition string_or_empty :: "string option \<Rightarrow> string" where
  "string_or_empty v = (case v of Some s \<Rightarrow> s | None \<Rightarrow> [])"

definition WithIdentity :: "Ctx \<Rightarrow> string \<Rightarrow> string \<Rightarrow> string \<Rightarrow> Ctx" where
  "WithIdentity c userID tenantID role =
     c\<lparr>ctx_userID := Some userID, ctx_tenantID := Some tenantID, ctx_role := Some role\<rparr>"

definition UserIDFrom :: "Ctx \<Rightarrow> string" where "UserIDFrom c = string_or_empty (ctx_userID c)"
definition TenantIDFrom :: "Ctx \<Rightarrow> string" where "TenantIDFrom c = string_or_empty (ctx_tenantID c)"
definition RoleFrom :: "Ctx \<Rightarrow> string" where "RoleFrom c = string_or_empty (ctx_role c)"

text \<open>\<open>NewID\<close> reads sixteen bytes of entropy; a failed read gives the literal \<open>unknown\<close>.\<close>

definition NewID :: "(nat \<Rightarrow> 's \<Rightarrow> byte list option \<times> 's) \<Rightarrow> 's \<Rightarrow> string \<times> 's" where
  "NewID rnd s = (case rnd 16 s of
      (None, s') \<Rightarrow> (''unknown'', s')
    | (Some b, s') \<Rightarrow> (hex_EncodeToString b, s'))"

definition WithRequestID :: "Ctx \<Rightarrow> string \<Rightarrow> Ctx" where
  "WithRequestID c i = c\<lparr>ctx_requestID := Some i\<rparr>"

definition FromRequestID :: "Ctx \<Rightarrow> string" where
  "FromRequestID c = string_or_empty (ctx_requestID c)"

lemma string_or_empty_simps [simp]:
  "string_or_empty (Some s) = s" "string_or_empty None = []"
  by (simp_all add: string_or_empty_def)

lemma identity_accessors [simp]:
  "UserIDFrom (WithIdentity c u t r) = u"
  "TenantIDFrom (WithIdentity c u t r) = t"
  "RoleFrom (WithIdentity c u t r) = r"
  "FromRequestID (WithIdentity c u t r) = FromRequestID c"
  "FromRequestID (WithRequestID c i) = i"
  "UserIDFrom (WithRequestID c i) = UserIDFrom c"
  "TenantIDFrom (WithRequestID c i) = TenantIDFrom c"
  "RoleFrom (WithRequestID c i) = RoleFrom c"
  by (simp_all add: UserIDFrom_def TenantIDFrom_def RoleFrom_def WithIdentity_def
      FromRequestID_def WithRequestID_def)

lemma background_accessors [simp]:
  "UserIDFrom Background = []" "TenantIDFrom Background = []" "RoleFrom Background = []"
  "FromRequestID Background = []"
  by (simp_all add: UserIDFrom_def TenantIDFrom_def RoleFrom_def Background_def FromRequestID_def)

end
