(* ===== verification/Ports.thy ===== *)
theory Ports
  imports Domain Request_Context
begin

text \<open>
  \<^verbatim>\<open>internal/application/ports\<close>: a Go interface value is a record of its methods, each taking
  the world \<open>'s\<close> and returning it. The services are defined over these records for any world, so
  the same definition runs against the PostgreSQL adapters, against a failing or interfering
  repository, and against a test double. The contexts of locales below state what the
  doc comments of the interfaces promise; the adapters' theories interpret them.

  Clock and entropy are interfaces of the same kind: \<open>time.Now\<close> reads a clock of the world,
  \<open>crypto/rand.Read\<close> returns the requested number of bytes or fails.
\<close>

type_synonym 's clock = "'s \<Rightarrow> time \<times> 's"
type_synonym 's entropy = "nat \<Rightarrow> 's \<Rightarrow> byte list option \<times> 's"

section \<open>Repositories (\<^verbatim>\<open>repositories.go\<close>)\<close>

record 's UserRepository =
  usr_FindByEmail :: "string \<Rightarrow> string \<Rightarrow> 's \<Rightarrow> User res \<times> 's"
  usr_FindByID :: "string \<Rightarrow> string \<Rightarrow> 's \<Rightarrow> User res \<times> 's"
  usr_List :: "string \<Rightarrow> 's \<Rightarrow> User list res \<times> 's"
  usr_Create :: "User \<Rightarrow> 's \<Rightarrow> unit res \<times> 's"
  usr_Update :: "User \<Rightarrow> 's \<Rightarrow> unit res \<times> 's"

record 's TenantRepository =
  tnt_FindByID :: "string \<Rightarrow> 's \<Rightarrow> Tenant res \<times> 's"
  tnt_Create :: "Tenant \<Rightarrow> 's \<Rightarrow> unit res \<times> 's"
  tnt_List :: "'s \<Rightarrow> Tenant list res \<times> 's"

record 's LotRepository =
  lot_FindByID :: "string \<Rightarrow> string \<Rightarrow> 's \<Rightarrow> Lot res \<times> 's"
  lot_List :: "string \<Rightarrow> 's \<Rightarrow> Lot list res \<times> 's"
  lot_Create :: "Lot \<Rightarrow> 's \<Rightarrow> unit res \<times> 's"

record 's CampaignRepository =
  cmp_FindByID :: "string \<Rightarrow> string \<Rightarrow> 's \<Rightarrow> Campaign res \<times> 's"
  cmp_List :: "string \<Rightarrow> 's \<Rightarrow> Campaign list res \<times> 's"
  cmp_Create :: "Campaign \<Rightarrow> 's \<Rightarrow> unit res \<times> 's"
  cmp_Update :: "Campaign \<Rightarrow> 's \<Rightarrow> unit res \<times> 's"
  cmp_Delete :: "string \<Rightarrow> string \<Rightarrow> 's \<Rightarrow> unit res \<times> 's"

record 's ApplicationRepository =
  app_FindByID :: "string \<Rightarrow> string \<Rightarrow> 's \<Rightarrow> Application res \<times> 's"
  app_List :: "string \<Rightarrow> 's \<Rightarrow> Application list res \<times> 's"
  app_Create :: "Application \<Rightarrow> 's \<Rightarrow> unit res \<times> 's"
  app_Update :: "Application \<Rightarrow> 's \<Rightarrow> unit res \<times> 's"
  app_Delete :: "string \<Rightarrow> string \<Rightarrow> 's \<Rightarrow> unit res \<times> 's"

record 's UserRoleRepository =
  rol_Assign :: "UserRole \<Rightarrow> 's \<Rightarrow> unit res \<times> 's"
  rol_ListByUser :: "string \<Rightarrow> string \<Rightarrow> 's \<Rightarrow> UserRole list res \<times> 's"

text \<open>\<open>*domain.AuditEntry\<close> may be nil: \<open>None\<close>.\<close>

record 's AuditRepository =
  adt_Append :: "AuditEntry \<Rightarrow> 's \<Rightarrow> unit res \<times> 's"
  adt_Tail :: "string \<Rightarrow> 's \<Rightarrow> AuditEntry option res \<times> 's"
  adt_ListByTenant :: "string \<Rightarrow> 's \<Rightarrow> AuditEntry option list res \<times> 's"
  adt_ListRecent :: "string \<Rightarrow> int \<Rightarrow> 's \<Rightarrow> AuditEntry option list res \<times> 's"

section \<open>Security primitives and use cases (\<^verbatim>\<open>services.go\<close>)\<close>

record TokenClaims =
  tc_UserID :: string
  tc_TenantID :: string
  tc_Role :: string

record 's TokenManager =
  tok_Issue :: "TokenClaims \<Rightarrow> 's \<Rightarrow> string res \<times> 's"
  tok_Verify :: "string \<Rightarrow> 's \<Rightarrow> TokenClaims res \<times> 's"

record 's PasswordHasher =
  hsh_Hash :: "string \<Rightarrow> 's \<Rightarrow> string res \<times> 's"
  hsh_Verify :: "string \<Rightarrow> string \<Rightarrow> 's \<Rightarrow> bool res \<times> 's"

record RefreshTokenRecord =
  rr_ID :: string
  rr_UserID :: string
  rr_TenantID :: string
  rr_FamilyID :: string
  rr_TokenHash :: string
  rr_ExpiresAt :: int
  rr_RevokedAt :: "int option"
  rr_ReplacedBy :: string

record 's RefreshTokenRepository =
  rtk_Store :: "RefreshTokenRecord \<Rightarrow> 's \<Rightarrow> unit res \<times> 's"
  rtk_FindByHash :: "string \<Rightarrow> 's \<Rightarrow> RefreshTokenRecord res \<times> 's"
  rtk_Revoke :: "string \<Rightarrow> string \<Rightarrow> 's \<Rightarrow> unit res \<times> 's"
  rtk_RevokeFamily :: "string \<Rightarrow> 's \<Rightarrow> unit res \<times> 's"

record AuthSession =
  as_AccessToken :: string
  as_RefreshToken :: string
  as_ExpiresIn :: int
  as_UserID :: string
  as_TenantID :: string
  as_Role :: string

record CampaignInput =
  ci_Name :: string
  ci_Season :: string
  ci_StartedAt :: "time option"
  ci_EndedAt :: "time option"

record ApplicationInput =
  ai_LotID :: string
  ai_CampaignID :: string
  ai_ProductName :: string
  ai_Dose :: string
  ai_AppliedAt :: time
  ai_OperatorID :: string
  ai_Notes :: string

record UserInput =
  ui_Email :: string
  ui_Password :: string
  ui_FullName :: string
  ui_Role :: string

record UpdateUserInput =
  uui_FullName :: string
  uui_IsActive :: bool

text \<open>The use cases the handlers call. Only \<open>Refresh\<close> reads its context (the request id).\<close>

record 's AuthService =
  aus_Login :: "Ctx \<Rightarrow> string \<Rightarrow> string \<Rightarrow> string \<Rightarrow> 's \<Rightarrow> AuthSession res \<times> 's"
  aus_Refresh :: "Ctx \<Rightarrow> string \<Rightarrow> 's \<Rightarrow> AuthSession res \<times> 's"

record 's LotService =
  los_ListByTenant :: "string \<Rightarrow> 's \<Rightarrow> Lot list res \<times> 's"
  los_Create :: "string \<Rightarrow> string \<Rightarrow> string \<Rightarrow> rat \<Rightarrow> string \<Rightarrow> 's \<Rightarrow> Lot res \<times> 's"

record 's CampaignService =
  cas_List :: "string \<Rightarrow> 's \<Rightarrow> Campaign list res \<times> 's"
  cas_GetByID :: "string \<Rightarrow> string \<Rightarrow> 's \<Rightarrow> Campaign res \<times> 's"
  cas_Create :: "string \<Rightarrow> string \<Rightarrow> CampaignInput \<Rightarrow> 's \<Rightarrow> Campaign res \<times> 's"
  cas_Update :: "string \<Rightarrow> string \<Rightarrow> string \<Rightarrow> CampaignInput \<Rightarrow> 's \<Rightarrow> Campaign res \<times> 's"
  cas_Delete :: "string \<Rightarrow> string \<Rightarrow> string \<Rightarrow> 's \<Rightarrow> unit res \<times> 's"

record 's ApplicationService =
  aps_List :: "string \<Rightarrow> 's \<Rightarrow> Application list res \<times> 's"
  aps_GetByID :: "string \<Rightarrow> string \<Rightarrow> 's \<Rightarrow> Application res \<times> 's"
  aps_Create :: "string \<Rightarrow> string \<Rightarrow> ApplicationInput \<Rightarrow> 's \<Rightarrow> Application res \<times> 's"
  aps_Update :: "string \<Rightarrow> string \<Rightarrow> string \<Rightarrow> ApplicationInput \<Rightarrow> 's \<Rightarrow> Application res \<times> 's"
  aps_Delete :: "string \<Rightarrow> string \<Rightarrow> string \<Rightarrow> 's \<Rightarrow> unit res \<times> 's"

record 's UserService =
  uss_CreateUser :: "string \<Rightarrow> string \<Rightarrow> UserInput \<Rightarrow> 's \<Rightarrow> User res \<times> 's"
  uss_ListUsers :: "string \<Rightarrow> 's \<Rightarrow> User list res \<times> 's"
  uss_UpdateUser :: "string \<Rightarrow> string \<Rightarrow> string \<Rightarrow> UpdateUserInput \<Rightarrow> 's \<Rightarrow> User res \<times> 's"

text \<open>\<open>ports.AuditService\<close>, as its emitters and the audit handler see it.\<close>

record 's AuditService =
  aud_Record :: "string \<Rightarrow> string \<Rightarrow> string \<Rightarrow> string \<Rightarrow> string \<Rightarrow> string option \<Rightarrow> string \<Rightarrow> 's \<Rightarrow> unit res \<times> 's"
  aud_VerifyChain :: "string \<Rightarrow> 's \<Rightarrow> (int \<times> go_error option) res \<times> 's"
  aud_Latest :: "string \<Rightarrow> int \<Rightarrow> 's \<Rightarrow> AuditEntry option list res \<times> 's"

section \<open>Breach signals (\<^verbatim>\<open>signals.go\<close>)\<close>

record SignalEvent =
  se_Signal :: string
  se_Action :: string
  se_Severity :: string
  se_TenantID :: string
  se_ActorID :: string
  se_RequestID :: string
  se_Anonymous :: bool

text \<open>An interface value of type \<open>BreachSignalSink\<close>; \<open>None\<close> is a nil interface.\<close>

type_synonym 's Sink = "SignalEvent \<Rightarrow> 's \<Rightarrow> unit res \<times> 's"

end
