(* ===== verification/Breach.thy ===== *)
theory Breach
  imports Ports
begin

text \<open>
  \<^verbatim>\<open>internal/application/services/breach.go\<close>: the classifier of security signals and the single
  emission path. \<open>emitEvent\<close> discards the sink's error and lets a panic of the sink through, as
  the Go call does. The locale \<open>signal_sink\<close> is the contract of \<open>ports.BreachSignalSink\<close> the
  services rely on (fail-open: no error, no panic, the business state untouched), and its lemmas
  are what the services use of an emission.
\<close>

type_synonym Signal = string

abbreviation SignalLoginSuccess :: Signal where "SignalLoginSuccess \<equiv> ''login_success''"
abbreviation SignalRefreshSuccess :: Signal where "SignalRefreshSuccess \<equiv> ''refresh_success''"
abbreviation SignalRefreshReplay :: Signal where "SignalRefreshReplay \<equiv> ''refresh_replay''"
abbreviation SignalRateLimitExceeded :: Signal where "SignalRateLimitExceeded \<equiv> ''rate_limit_exceeded''"
abbreviation SignalLoginFailed :: Signal where "SignalLoginFailed \<equiv> ''login_failed''"
abbreviation SignalCrossTenant :: Signal where "SignalCrossTenant \<equiv> ''cross_tenant_probe''"
abbreviation SignalExpiredTokenReplay :: Signal where "SignalExpiredTokenReplay \<equiv> ''expired_token_replay''"

record Event =
  ev_Action :: string
  ev_Severity :: string
  ev_EmitAudit :: bool

definition breachTable :: "Signal \<Rightarrow> Event option" where
  "breachTable = map_of
    [(SignalLoginSuccess, \<lparr>ev_Action = ''auth.login'', ev_Severity = SeverityInfo, ev_EmitAudit = True\<rparr>),
     (SignalRefreshSuccess, \<lparr>ev_Action = ''auth.refresh'', ev_Severity = SeverityInfo, ev_EmitAudit = True\<rparr>),
     (SignalRefreshReplay, \<lparr>ev_Action = ''auth.refresh.replay'', ev_Severity = SeverityCritical, ev_EmitAudit = True\<rparr>),
     (SignalRateLimitExceeded, \<lparr>ev_Action = ''security.rate_limit.exceeded'', ev_Severity = SeverityWarn, ev_EmitAudit = True\<rparr>),
     (SignalLoginFailed, \<lparr>ev_Action = ''auth.login.failed'', ev_Severity = SeverityInfo, ev_EmitAudit = True\<rparr>),
     (SignalCrossTenant, \<lparr>ev_Action = ''security.cross_tenant_probe'', ev_Severity = SeverityWarn, ev_EmitAudit = False\<rparr>)]"

definition Detect :: "Signal \<Rightarrow> bool \<Rightarrow> Event option" where
  "Detect signal anonymous = (case breachTable signal of
      None \<Rightarrow> None
    | Some e \<Rightarrow> Some (if anonymous then e\<lparr>ev_EmitAudit := False\<rparr> else e))"

definition emitEvent :: "'s Sink option \<Rightarrow> string \<Rightarrow> string \<Rightarrow> Signal \<Rightarrow> bool \<Rightarrow> Event option \<Rightarrow> string \<Rightarrow> 's \<Rightarrow> unit res \<times> 's" where
  "emitEvent sink tenantID actorID signal anonymous ev requestID s = (case (ev, sink) of
      (Some e, Some emit) \<Rightarrow>
        (case emit \<lparr>se_Signal = signal, se_Action = ev_Action e, se_Severity = ev_Severity e,
             se_TenantID = tenantID, se_ActorID = actorID, se_RequestID = requestID,
             se_Anonymous = anonymous\<rparr> s of
           (Panic p, s') \<Rightarrow> (Panic p, s')
         | (_, s') \<Rightarrow> (Ok (), s'))
    | _ \<Rightarrow> (Ok (), s))"

definition EmitSignal :: "'s Sink option \<Rightarrow> Signal \<Rightarrow> bool \<Rightarrow> string \<Rightarrow> string \<Rightarrow> string \<Rightarrow> 's \<Rightarrow> unit res \<times> 's" where
  "EmitSignal sink signal anonymous tenantID actorID requestID s =
     emitEvent sink tenantID actorID signal anonymous (Detect signal anonymous) requestID s"

section \<open>The classifier\<close>

lemma Detect_anonymous_no_audit: "Detect sig True = Some e \<Longrightarrow> \<not> ev_EmitAudit e"
  by (auto simp: Detect_def split: option.splits)

lemma Detect_severity:
  "Detect sig a = Some e \<Longrightarrow> ev_Severity e \<in> {SeverityInfo, SeverityWarn, SeverityCritical}"
  by (auto simp: Detect_def breachTable_def split: option.splits if_splits)

lemma Detect_critical_iff:
  "(\<exists>e. Detect sig a = Some e \<and> ev_Severity e = SeverityCritical) \<longleftrightarrow> sig = SignalRefreshReplay"
  by (auto simp: Detect_def breachTable_def)

lemma Detect_expired: "Detect SignalExpiredTokenReplay a = None"
  by (simp add: Detect_def breachTable_def)

section \<open>The sink interface\<close>

locale signal_sink =
  fixes sink :: "'s Sink"
    and core :: "'s \<Rightarrow> 'c"
  assumes emit_Ok: "fst (sink ev s) = Ok ()"
    and emit_core: "core (snd (sink ev s)) = core s"
begin

lemma emitEvent_fail_open: "fst (emitEvent (Some sink) t a sig an ev r s) = Ok ()"
  using emit_Ok by (auto simp: emitEvent_def split: option.splits prod.splits res.splits)
    (metis fst_conv res.distinct(3))+

lemma emitEvent_core: "core (snd (emitEvent (Some sink) t a sig an ev r s)) = core s"
proof -
  have "core s' = core s" if "sink e s = (x, s')" for e x s'
    using emit_core [of e s] that by simp
  then show ?thesis by (auto simp: emitEvent_def split: option.splits prod.splits res.splits)
qed

lemma EmitSignal_fail_open: "fst (EmitSignal (Some sink) sig an t a r s) = Ok ()"
  by (simp add: EmitSignal_def emitEvent_fail_open)

lemma EmitSignal_core: "core (snd (EmitSignal (Some sink) sig an t a r s)) = core s"
  by (simp add: EmitSignal_def emitEvent_core)

end

end
