(* ===== verification/Sinks.thy ===== *)
theory Sinks
  imports Breach
begin

text \<open>
  \<^verbatim>\<open>internal/application/services/sinks.go\<close>: the slog sink, the audit sink and their fan-out.
  A \<open>*slog.Logger\<close> is a function that writes one line into the world. \<open>fanOut_Emit\<close> keeps the
  registration order, skips nil sinks, logs the error of a sink and recovers its panic; the
  theorems say that nothing a sink does reaches the caller and that every registered sink runs.
\<close>

datatype level = LevelInfo | LevelWarn | LevelError
datatype log_value = LStr string | LErr go_error | LInt int

record log_line =
  ll_level :: level
  ll_msg :: string
  ll_attrs :: "(string \<times> log_value) list"

type_synonym 's Logger = "log_line \<Rightarrow> 's \<Rightarrow> 's"

definition log_Warn :: "'s Logger \<Rightarrow> string \<Rightarrow> (string \<times> log_value) list \<Rightarrow> 's \<Rightarrow> 's" where
  "log_Warn lg m as = lg \<lparr>ll_level = LevelWarn, ll_msg = m, ll_attrs = as\<rparr>"

definition log_Info :: "'s Logger \<Rightarrow> string \<Rightarrow> (string \<times> log_value) list \<Rightarrow> 's \<Rightarrow> 's" where
  "log_Info lg m as = lg \<lparr>ll_level = LevelInfo, ll_msg = m, ll_attrs = as\<rparr>"

definition log_Error :: "'s Logger \<Rightarrow> string \<Rightarrow> (string \<times> log_value) list \<Rightarrow> 's \<Rightarrow> 's" where
  "log_Error lg m as = lg \<lparr>ll_level = LevelError, ll_msg = m, ll_attrs = as\<rparr>"

lemmas log_defs = log_Warn_def log_Info_def log_Error_def

definition signal_attrs :: "SignalEvent \<Rightarrow> (string \<times> log_value) list" where
  "signal_attrs ev =
    [(''action'', LStr (se_Action ev)), (''severity'', LStr (se_Severity ev)),
     (''tenant'', LStr (se_TenantID ev)), (''actor'', LStr (se_ActorID ev)),
     (''request_id'', LStr (se_RequestID ev))]"

definition SlogSink_Emit :: "'s Logger \<Rightarrow> 's Sink" where
  "SlogSink_Emit lg ev s =
     (Ok (),
      if se_Severity ev = SeverityCritical then log_Error lg ''security'' (signal_attrs ev) s
      else if se_Severity ev = SeverityWarn then log_Warn lg ''security'' (signal_attrs ev) s
      else log_Info lg ''security'' (signal_attrs ev) s)"

definition AuditSink_Emit :: "'s AuditService option \<Rightarrow> 's Logger \<Rightarrow> 's Sink" where
  "AuditSink_Emit audit lg ev s =
     (if se_Anonymous ev \<or> se_TenantID ev = [] then (Ok (), s)
      else case audit of
        None \<Rightarrow> (Ok (), s)
      | Some svc \<Rightarrow>
          (case aud_Record svc (se_TenantID ev) (se_ActorID ev) (se_Action ev) ''security''
                  (se_Action ev) None (se_Severity ev) s of
             (Ok _, s1) \<Rightarrow> (Ok (), s1)
           | (Err e, s1) \<Rightarrow>
               (Ok (), log_Warn lg ''audit emission failed (fail-open)''
                         [(''action'', LStr (se_Action ev)), (''error'', LErr e)] s1)
           | (Panic p, s1) \<Rightarrow> (Panic p, s1)))"

text \<open>A registered sink carries its dynamic type name, which the warnings print with \<open>%T\<close>.\<close>

fun fanOut_Emit :: "'s Logger \<Rightarrow> (string \<times> 's Sink) option list \<Rightarrow> 's Sink" where
  "fanOut_Emit lg [] ev s = (Ok (), s)"
| "fanOut_Emit lg (None # sinks) ev s = fanOut_Emit lg sinks ev s"
| "fanOut_Emit lg (Some (T, emit) # sinks) ev s =
     (case emit ev s of
        (Ok _, s1) \<Rightarrow> fanOut_Emit lg sinks ev s1
      | (Err e, s1) \<Rightarrow> fanOut_Emit lg sinks ev
          (log_Warn lg ''breach sink failed (fail-open)'' [(''sink'', LStr T), (''error'', LErr e)] s1)
      | (Panic p, s1) \<Rightarrow> fanOut_Emit lg sinks ev
          (log_Warn lg ''breach sink panic recovered'' [(''sink'', LStr T), (''panic'', LStr p)] s1))"

text \<open>The constructors: a nil logger is one that discards.\<close>

definition or_discard :: "'s Logger option \<Rightarrow> 's Logger" where
  "or_discard lg = (case lg of None \<Rightarrow> (\<lambda>_ s. s) | Some l \<Rightarrow> l)"

definition NewSlogSink :: "'s Logger option \<Rightarrow> 's Sink" where
  "NewSlogSink lg = SlogSink_Emit (or_discard lg)"

definition NewAuditSink :: "'s AuditService option \<Rightarrow> 's Logger option \<Rightarrow> 's Sink" where
  "NewAuditSink audit lg = AuditSink_Emit audit (or_discard lg)"

definition NewFanOut :: "'s Logger option \<Rightarrow> (string \<times> 's Sink) option list \<Rightarrow> 's Sink" where
  "NewFanOut lg sinks = fanOut_Emit (or_discard lg) sinks"

section \<open>Facts\<close>

lemma fanOut_Ok: "fst (fanOut_Emit lg sinks ev s) = Ok ()"
  by (induction lg sinks ev s rule: fanOut_Emit.induct) (auto split: prod.splits res.splits)

lemma fanOut_append:
  "fanOut_Emit lg (xs @ ys) ev s = fanOut_Emit lg ys ev (snd (fanOut_Emit lg xs ev s))"
  by (induction lg xs ev s rule: fanOut_Emit.induct) (auto split: prod.splits res.splits)

text \<open>An invariant of the world that the logger and every registered sink keep, the fan-out keeps.\<close>

lemma fanOut_invariant:
  assumes "\<And>l s. I s \<Longrightarrow> I (lg l s)"
    and "\<And>T k s. Some (T, k) \<in> set sinks \<Longrightarrow> I s \<Longrightarrow> I (snd (k ev s))"
    and "I s"
  shows "I (snd (fanOut_Emit lg sinks ev s))"
  using assms(2,3)
proof (induction sinks arbitrary: s)
  case Nil
  then show ?case by simp
next
  case (Cons x sinks)
  have tail: "I (snd (fanOut_Emit lg sinks ev s'))" if "I s'" for s'
    using Cons.prems(1) that by (intro Cons.IH) auto
  show ?case
  proof (cases x)
    case None
    with Cons.prems tail show ?thesis by simp
  next
    case (Some a)
    obtain T k where a: "a = (T, k)" by (cases a)
    have "I (snd (k ev s))" using Cons.prems Some a by auto
    with Some a show ?thesis
      by (auto simp: log_Warn_def intro!: tail assms(1) split: prod.splits res.splits)
  qed
qed

lemma AuditSink_anonymous:
  "se_Anonymous ev \<or> se_TenantID ev = [] \<Longrightarrow> AuditSink_Emit audit lg ev s = (Ok (), s)"
  by (simp add: AuditSink_Emit_def)

lemma AuditSink_never_Err: "fst (AuditSink_Emit audit lg ev s) \<noteq> Err e"
  by (auto simp: AuditSink_Emit_def split: option.splits prod.splits res.splits)

lemma AuditSink_invariant:
  assumes "\<And>l s. I s \<Longrightarrow> I (lg l s)"
    and "\<And>svc t a ac et ei p sv s. audit = Some svc \<Longrightarrow> I s \<Longrightarrow> I (snd (aud_Record svc t a ac et ei p sv s))"
    and "I s"
  shows "I (snd (AuditSink_Emit audit lg ev s))"
proof (cases audit)
  case None
  with assms(3) show ?thesis by (simp add: AuditSink_Emit_def)
next
  case (Some svc)
  have "I (snd (aud_Record svc t a ac et ei p sv s))" for t a ac et ei p sv
    using assms(2,3) Some by blast
  then have "I s'" if "aud_Record svc t a ac et ei p sv s = (r, s')" for t a ac et ei p sv r s'
    using that by (metis snd_conv)
  with Some assms(1,3) show ?thesis
    by (auto simp: AuditSink_Emit_def log_Warn_def split: prod.splits res.splits)
qed

lemma SlogSink_invariant:
  "(\<And>l s. I s \<Longrightarrow> I (lg l s)) \<Longrightarrow> I s \<Longrightarrow> I (snd (SlogSink_Emit lg ev s))"
  by (simp add: SlogSink_Emit_def log_defs)

end
