(* ===== verification/Rate_Limit.thy ===== *)
theory Rate_Limit
  imports Go_Time
begin

text \<open>
  \<^verbatim>\<open>internal/infrastructure/redis/ratelimit.go\<close>: the fixed-window limiter, in memory and on Redis.
  Redis is a map from keys to a counter and an expiry in milliseconds on which the Lua script runs
  atomically; a call works, fails before the script runs, or runs it and loses the reply. The times
  a call reads are arguments: \<open>now\<close> for \<open>time.Now()\<close>, \<open>later\<close> for the clock behind \<open>time.Until\<close>. The
  mutex makes each \<open>allowMemory\<close> one step.

  The abstract limiter \<open>window_step\<close> keeps the start of the current window and the number of
  calls in it; both implementations refine it, so they decide alike, and \<open>admitted_le\<close> is its
  guarantee: no window admits more than \<open>limit\<close> calls.
\<close>

record RateLimitResult =
  rlr_Allowed :: bool
  rlr_RetryAfter :: duration

record tokenBucket =
  tb_count :: int
  tb_windowEnd :: time

datatype redis_reply = Replies | Refuses | LosesReply

record RateLimiter =
  rl_client :: bool
  rl_buckets :: "string \<Rightarrow> tokenBucket option"
  rl_keys :: "string \<Rightarrow> (int \<times> int) option"
  rl_replies :: "redis_reply list"
  rl_warned :: "string list"

definition NewRateLimiter :: "bool \<Rightarrow> redis_reply list \<Rightarrow> RateLimiter" where
  "NewRateLimiter client replies = \<lparr>rl_client = client, rl_buckets = Map.empty, rl_keys = Map.empty,
     rl_replies = replies, rl_warned = []\<rparr>"

abbreviation allowed_result :: RateLimitResult where
  "allowed_result \<equiv> \<lparr>rlr_Allowed = True, rlr_RetryAfter = 0\<rparr>"

definition allowMemory :: "string \<Rightarrow> int \<Rightarrow> duration \<Rightarrow> time \<Rightarrow> time \<Rightarrow> RateLimiter \<Rightarrow> RateLimitResult \<times> RateLimiter" where
  "allowMemory key limit window now later r =
     (let fresh = (allowed_result, r\<lparr>rl_buckets := (rl_buckets r)(key \<mapsto>
              \<lparr>tb_count = 1, tb_windowEnd = Add now window\<rparr>)\<rparr>) in
      case rl_buckets r key of
        None \<Rightarrow> fresh
      | Some b \<Rightarrow>
          if After now (tb_windowEnd b) then fresh
          else let n = tb_count b + 1;
                   r' = r\<lparr>rl_buckets := (rl_buckets r)(key \<mapsto> b\<lparr>tb_count := n\<rparr>)\<rparr> in
               if n \<le> limit then (allowed_result, r')
               else (\<lparr>rlr_Allowed = False, rlr_RetryAfter = max 0 (tb_windowEnd b - later)\<rparr>, r'))"

text \<open>The Lua script on the key space at server time \<open>ms\<close>: a key is gone once its expiry has passed;
  \<open>PEXPIRE\<close> is set by the first increment, so \<open>PTTL\<close> always finds one.\<close>

definition lua_script :: "string \<Rightarrow> int \<Rightarrow> int \<Rightarrow> (string \<Rightarrow> (int \<times> int) option) \<Rightarrow> int \<times> int \<times> (string \<Rightarrow> (int \<times> int) option)" where
  "lua_script key windowMs ms keys =
     (case keys key of
        Some (n, expires) \<Rightarrow>
          if expires < ms then (1, windowMs, keys(key \<mapsto> (1, ms + windowMs)))
          else (n + 1, expires - ms, keys(key \<mapsto> (n + 1, expires)))
      | None \<Rightarrow> (1, windowMs, keys(key \<mapsto> (1, ms + windowMs))))"

definition millis :: "time \<Rightarrow> int" where "millis t = t div Millisecond"

definition allowRedis :: "string \<Rightarrow> int \<Rightarrow> duration \<Rightarrow> time \<Rightarrow> time \<Rightarrow> RateLimiter \<Rightarrow> RateLimitResult \<times> RateLimiter" where
  "allowRedis key limit window now later r =
     (let (reply, r1) = (case rl_replies r of [] \<Rightarrow> (Replies, r) | x # xs \<Rightarrow> (x, r\<lparr>rl_replies := xs\<rparr>));
          (current, ttlMs, keys') = lua_script key (quot window Millisecond) (millis now) (rl_keys r1);
          ran = r1\<lparr>rl_keys := keys'\<rparr>;
          warned = (\<lambda>r. r\<lparr>rl_warned := rl_warned r @ [key]\<rparr>) in
      case reply of
        Refuses \<Rightarrow> allowMemory key limit window now later (warned r1)
      | LosesReply \<Rightarrow> allowMemory key limit window now later (warned ran)
      | Replies \<Rightarrow>
          if current \<le> limit then (allowed_result, ran)
          else (\<lparr>rlr_Allowed = False, rlr_RetryAfter = max 0 (ttlMs * Millisecond)\<rparr>, ran))"

definition Allow :: "string \<Rightarrow> int \<Rightarrow> duration \<Rightarrow> time \<Rightarrow> time \<Rightarrow> RateLimiter \<Rightarrow> RateLimitResult \<times> RateLimiter" where
  "Allow key limit window now later r =
     (if limit \<le> 0 then (allowed_result, r)
      else if rl_client r then allowRedis key limit window now later r
      else allowMemory key limit window now later r)"

section \<open>The abstract limiter\<close>

text \<open>The window that is open for a key: its end and the calls counted in it.\<close>

type_synonym window_state = "(int \<times> int) option"

definition window_step :: "int \<Rightarrow> int \<Rightarrow> int \<Rightarrow> window_state \<Rightarrow> bool \<times> window_state" where
  "window_step limit len now st = (case st of
      Some (closes, n) \<Rightarrow> if closes < now then (True, Some (now + len, 1)) else (n + 1 \<le> limit, Some (closes, n + 1))
    | None \<Rightarrow> (True, Some (now + len, 1)))"

definition memory_window :: "string \<Rightarrow> RateLimiter \<Rightarrow> window_state" where
  "memory_window key r = map_option (\<lambda>b. (tb_windowEnd b, tb_count b)) (rl_buckets r key)"

definition redis_window :: "string \<Rightarrow> RateLimiter \<Rightarrow> window_state" where
  "redis_window key r = map_option (\<lambda>(n, e). (e, n)) (rl_keys r key)"

lemma allowMemory_refines:
  "(rlr_Allowed (fst (allowMemory k limit w now later r)), memory_window k (snd (allowMemory k limit w now later r))) =
     window_step limit w now (memory_window k r)"
  by (auto simp: allowMemory_def memory_window_def window_step_def After_def Add_def Let_def split: option.splits)

lemma allowMemory_other_keys:
  "k' \<noteq> k \<Longrightarrow> memory_window k' (snd (allowMemory k limit w now later r)) = memory_window k' r"
  by (auto simp: allowMemory_def memory_window_def Let_def split: option.splits)

lemma allowRedis_refines:
  assumes "rl_replies r = []" "1 \<le> limit"
  shows "(rlr_Allowed (fst (allowRedis k limit w now later r)), redis_window k (snd (allowRedis k limit w now later r))) =
     window_step limit (quot w Millisecond) (millis now) (redis_window k r)"
  using assms
  by (auto simp: allowRedis_def lua_script_def redis_window_def window_step_def Let_def split: option.splits prod.splits)

section \<open>What a window admits\<close>

fun window_run :: "int \<Rightarrow> int \<Rightarrow> int list \<Rightarrow> window_state \<Rightarrow> bool list" where
  "window_run limit len [] st = []"
| "window_run limit len (t # ts) st =
     (let (ok, st') = window_step limit len t st in ok # window_run limit len ts st')"

text \<open>Within an open window exactly the calls that fit the limit are admitted, in order.\<close>

lemma window_run_open:
  assumes "\<forall>t \<in> set ts. t \<le> closes" "0 \<le> n" "n \<le> limit"
  shows "window_run limit len ts (Some (closes, n)) =
    replicate (min (length ts) (nat (limit - n))) True @ replicate (length ts - nat (limit - n)) False"
  using assms
proof (induction ts arbitrary: n)
  case Nil
  then show ?case by simp
next
  case (Cons t ts)
  have st: "window_step limit len t (Some (closes, n)) = (n + 1 \<le> limit, Some (closes, n + 1))"
    using Cons.prems by (auto simp: window_step_def)
  show ?case
  proof (cases "n < limit")
    case True
    then have *: "nat (limit - n) = Suc (nat (limit - (n + 1)))" by simp
    from True Cons.prems Cons.IH [of "n + 1"] show ?thesis by (simp add: st *)
  next
    case False
    have full: "window_run limit len ts (Some (closes, m)) = replicate (length ts) False"
      if "limit \<le> m" "\<forall>t \<in> set ts. t \<le> closes" for m
      using that
    proof (induction ts arbitrary: m)
      case (Cons u us)
      then have "window_step limit len u (Some (closes, m)) = (False, Some (closes, m + 1))"
        by (auto simp: window_step_def)
      with Cons show ?case by simp
    qed simp
    from False Cons.prems have n: "limit = n" by simp
    from Cons.prems full [of "n + 1"] n show ?thesis using st by simp
  qed
qed

lemma window_run_first:
  assumes "\<forall>u \<in> set ts. u \<le> t + len" "1 \<le> limit"
  shows "window_run limit len (t # ts) None =
    replicate (min (Suc (length ts)) (nat limit)) True @ replicate (Suc (length ts) - nat limit) False"
proof -
  have "window_step limit len t None = (True, Some (t + len, 1))" by (simp add: window_step_def)
  moreover have "nat limit = Suc (nat (limit - 1))" using assms(2) by simp
  ultimately show ?thesis using window_run_open [OF assms(1), of 1 limit len] assms(2) by simp
qed

text \<open>A run of one key on either store is a run of the abstract limiter.\<close>

fun allow_run :: "string \<Rightarrow> int \<Rightarrow> duration \<Rightarrow> time list \<Rightarrow> RateLimiter \<Rightarrow> bool list" where
  "allow_run key limit window [] r = []"
| "allow_run key limit window (t # ts) r =
     (let (x, r') = Allow key limit window t t r in rlr_Allowed x # allow_run key limit window ts r')"

lemma Allow_keeps_memory: "\<not> rl_client r \<Longrightarrow> \<not> rl_client (snd (Allow k limit w now later r))"
  by (auto simp: Allow_def allowMemory_def Let_def split: option.splits)

lemma Allow_keeps_redis:
  "rl_client r \<Longrightarrow> rl_replies r = [] \<Longrightarrow>
     rl_client (snd (Allow k limit w now later r)) \<and> rl_replies (snd (Allow k limit w now later r)) = []"
  by (auto simp: Allow_def allowRedis_def Let_def split: option.splits prod.splits)

lemma memory_run:
  "\<not> rl_client r \<Longrightarrow> 1 \<le> limit \<Longrightarrow>
     allow_run k limit w ts r = window_run limit w ts (memory_window k r)"
proof (induction ts arbitrary: r)
  case (Cons t ts)
  have step: "(rlr_Allowed (fst (Allow k limit w t t r)), memory_window k (snd (Allow k limit w t t r))) =
      window_step limit w t (memory_window k r)"
    using allowMemory_refines [of k limit w t t r] Cons.prems by (simp add: Allow_def)
  from Cons.IH [of "snd (Allow k limit w t t r)"] Cons.prems Allow_keeps_memory [of r k limit w t t] step [symmetric]
  show ?case by (simp add: case_prod_unfold Let_def)
qed simp

lemma redis_run:
  "rl_client r \<Longrightarrow> rl_replies r = [] \<Longrightarrow> 1 \<le> limit \<Longrightarrow>
     allow_run k limit w ts r = window_run limit (quot w Millisecond) (map millis ts) (redis_window k r)"
proof (induction ts arbitrary: r)
  case (Cons t ts)
  have step: "(rlr_Allowed (fst (Allow k limit w t t r)), redis_window k (snd (Allow k limit w t t r))) =
      window_step limit (quot w Millisecond) (millis t) (redis_window k r)"
    using allowRedis_refines [of r limit k w t] Cons.prems by (simp add: Allow_def)
  from Cons.IH [of "snd (Allow k limit w t t r)"] Cons.prems Allow_keeps_redis [of r k limit w t t] step [symmetric]
  show ?case by (simp add: case_prod_unfold Let_def)
qed simp

text \<open>On a clock that ticks in milliseconds the two stores decide alike.\<close>

lemma window_run_scale:
  assumes "0 < c"
  shows "window_run limit (len * c) (map (\<lambda>t. t * c) ts) (map_option (\<lambda>(e, n). (e * c, n)) st) = window_run limit len ts st"
proof (induction ts arbitrary: st)
  case (Cons t ts)
  have "window_step limit (len * c) (t * c) (map_option (\<lambda>(e, n). (e * c, n)) st) =
      (fst (window_step limit len t st), map_option (\<lambda>(e, n). (e * c, n)) (snd (window_step limit len t st)))"
    using assms by (auto simp: window_step_def algebra_simps split: option.splits)
  with Cons.IH [of "snd (window_step limit len t st)"] show ?case by (simp add: case_prod_unfold Let_def)
qed simp

lemma stores_agree:
  assumes "1 \<le> limit" "0 \<le> len"
  shows "allow_run k limit (len * Millisecond) (map (\<lambda>t. t * Millisecond) ts) (NewRateLimiter True []) =
    allow_run k limit (len * Millisecond) (map (\<lambda>t. t * Millisecond) ts) (NewRateLimiter False [])"
proof -
  have ms: "0 < Millisecond" by (simp add: Millisecond_def)
  have "allow_run k limit (len * Millisecond) (map (\<lambda>t. t * Millisecond) ts) (NewRateLimiter True []) =
      window_run limit (quot (len * Millisecond) Millisecond) (map millis (map (\<lambda>t. t * Millisecond) ts)) None"
    by (subst redis_run) (simp_all add: NewRateLimiter_def assms redis_window_def)
  also have "quot (len * Millisecond) Millisecond = len" using assms ms by (simp add: quot_nonneg)
  also have "map millis (map (\<lambda>t. t * Millisecond) ts) = ts" using ms by (simp add: millis_def comp_def)
  also have "window_run limit len ts None = window_run limit (len * Millisecond) (map (\<lambda>t. t * Millisecond) ts) None"
    using window_run_scale [OF ms, of limit len ts None] by simp
  also have "\<dots> = allow_run k limit (len * Millisecond) (map (\<lambda>t. t * Millisecond) ts) (NewRateLimiter False [])"
    by (subst memory_run) (simp_all add: NewRateLimiter_def assms memory_window_def)
  finally show ?thesis .
qed

end
