(* ===== verification/World.thy ===== *)
theory World
  imports Sinks Rate_Limit
begin

text \<open>
  The concrete world the adapters run in: the database (one list of rows per table of
  \<^verbatim>\<open>migrations/*.up.sql\<close>), the wall clock, the entropy source, the log, the limiter, and a script of network
  faults. PostgreSQL and pgx are not part of the repository, so what they do to a value on its way
  into a column is the parameter \<open>PG\<close>: \<open>pg_uuid\<close> and \<open>pg_jsonb\<close> give the canonical text of a valid
  input and reject anything else, \<open>pg_ts\<close>, \<open>pg_date\<close> and \<open>pg_numeric\<close> are the values a
  \<open>timestamptz\<close>, \<open>date\<close> and \<open>numeric(10,2)\<close> column keeps, \<open>pg_le\<close> is the collation of
  \<open>ORDER BY\<close> on text and \<open>pg_text\<close> says a string is acceptable text (valid encoding, no NUL).

  A round trip to the server either works, fails before the server acts, or fails after it has
  acted with the acknowledgement lost; the script \<open>w_faults\<close> says which, one entry per round
  trip, and once it is exhausted every round trip works.
\<close>

record PG =
  pg_uuid :: "string \<Rightarrow> string option"
  pg_jsonb :: "string \<Rightarrow> string option"
  pg_ts :: "time \<Rightarrow> time"
  pg_date :: "time \<Rightarrow> time"
  pg_numeric :: "rat \<Rightarrow> rat option"
  pg_le :: "string \<Rightarrow> string \<Rightarrow> bool"
  pg_text :: "string \<Rightarrow> bool"

section \<open>Tables\<close>

text \<open>A nullable column that the Go code reads as \<open>""\<close> is an \<open>option\<close> in an audit row; in
  \<open>applications\<close> the NULL operator is the empty text. Rows of \<open>users\<close> have no role and rows of
  \<open>applications\<close> no operator name: both are derived when read.\<close>

record audit_row =
  r_id :: int
  r_tenant_id :: string
  r_actor_user_id :: "string option"
  r_action :: string
  r_entity_type :: string
  r_entity_id :: "string option"
  r_payload :: "string option"
  r_created_at :: time
  r_seq :: int
  r_prev_hash :: string
  r_chain_hash :: string
  r_severity :: string

record db =
  tenants :: "Tenant list"
  users :: "User list"
  user_roles :: "UserRole list"
  lots :: "Lot list"
  campaigns :: "Campaign list"
  applications :: "Application list"
  audit_log :: "audit_row list"
  audit_serial :: int
  refresh_tokens :: "RefreshTokenRecord list"

text \<open>A fault is a transport error, a text none of the sentinels of the domain.\<close>

datatype fault = NoFault | Fault string | LostAck string

record world =
  w_db :: db
  w_clock :: time
  w_entropy :: "byte list option list"
  w_log :: "log_line list"
  w_faults :: "fault list"
  w_limiter :: RateLimiter

section \<open>Clock, entropy, log\<close>

definition world_now :: "world clock" where
  "world_now w = (w_clock w, w)"

text \<open>A read of \<open>n\<close> bytes takes the next entry of the source, cut or zero-filled to length.\<close>

definition world_rand :: "world entropy" where
  "world_rand n w = (case w_entropy w of
      [] \<Rightarrow> (None, w)
    | None # es \<Rightarrow> (None, w\<lparr>w_entropy := es\<rparr>)
    | Some bs # es \<Rightarrow> (Some (take n (bs @ replicate n 0)), w\<lparr>w_entropy := es\<rparr>))"

definition world_log :: "world Logger" where
  "world_log l w = w\<lparr>w_log := w_log w @ [l]\<rparr>"

text \<open>The process-wide limiter, on the wall clock.\<close>

definition world_Allow :: "string \<Rightarrow> int \<Rightarrow> duration \<Rightarrow> world \<Rightarrow> RateLimitResult \<times> world" where
  "world_Allow key limit window w =
     (let (res, l) = Allow key limit window (w_clock w) (w_clock w) (w_limiter w) in (res, w\<lparr>w_limiter := l\<rparr>))"

lemma w_db_Allow [simp]: "w_db (snd (world_Allow k n d w)) = w_db w"
  by (simp add: world_Allow_def case_prod_unfold Let_def)

lemma w_db_now [simp]: "w_db (snd (world_now w)) = w_db w"
  by (simp add: world_now_def)

lemma w_db_rand [simp]: "w_db (snd (world_rand n w)) = w_db w"
  by (simp add: world_rand_def split: list.splits option.splits)

lemma w_db_log [simp]: "w_db (world_log l w) = w_db w"
  by (simp add: world_log_def)

lemma world_rand_length: "world_rand n w = (Some bs, w') \<Longrightarrow> length bs = n"
  by (auto simp: world_rand_def split: list.splits option.splits)

section \<open>Round trips\<close>

definition roundtrip :: "world \<Rightarrow> fault \<times> world" where
  "roundtrip w = (case w_faults w of
      [] \<Rightarrow> (NoFault, w)
    | f # fs \<Rightarrow> (f, w\<lparr>w_faults := fs\<rparr>))"

lemma w_db_roundtrip [simp]: "w_db (snd (roundtrip w)) = w_db w"
  by (simp add: roundtrip_def split: list.splits)

lemma roundtrip_db: "roundtrip w = (f, w') \<Longrightarrow> w_db w' = w_db w"
  using w_db_roundtrip [of w] by simp

lemma roundtrip_clean: "w_faults w = [] \<Longrightarrow> roundtrip w = (NoFault, w)"
  by (simp add: roundtrip_def)

lemma roundtrip_simps [simp]:
  "w_clock (snd (roundtrip w)) = w_clock w" "w_log (snd (roundtrip w)) = w_log w"
  "w_entropy (snd (roundtrip w)) = w_entropy w"
  by (simp_all add: roundtrip_def split: list.splits)

lemma roundtrip_keeps:
  "roundtrip w = (f, w') \<Longrightarrow> w_db w' = w_db w \<and> w_clock w' = w_clock w \<and> w_log w' = w_log w \<and> w_entropy w' = w_entropy w"
  by (auto simp: roundtrip_def split: list.splits)

lemma roundtrip_update_db:
  "roundtrip (w\<lparr>w_db := d\<rparr>) = (fst (roundtrip w), (snd (roundtrip w))\<lparr>w_db := d\<rparr>)"
  by (simp add: roundtrip_def split: list.splits)

text \<open>One SQL statement: a statement that fails on the server has changed nothing.\<close>

definition pg_exec :: "(db \<Rightarrow> 'a res \<times> db) \<Rightarrow> world \<Rightarrow> 'a res \<times> world" where
  "pg_exec q w = (case roundtrip w of
      (NoFault, w1) \<Rightarrow> (case q (w_db w1) of
          (Ok x, d) \<Rightarrow> (Ok x, w1\<lparr>w_db := d\<rparr>)
        | (Err e, d) \<Rightarrow> (Err e, w1)
        | (Panic p, d) \<Rightarrow> (Panic p, w1))
    | (Fault e, w1) \<Rightarrow> (Err (ErrText e), w1)
    | (LostAck e, w1) \<Rightarrow> (case q (w_db w1) of
          (Ok x, d) \<Rightarrow> (Err (ErrText e), w1\<lparr>w_db := d\<rparr>)
        | (_, d) \<Rightarrow> (Err (ErrText e), w1)))"

text \<open>A read-only statement.\<close>

definition pg_query :: "(db \<Rightarrow> 'a res) \<Rightarrow> world \<Rightarrow> 'a res \<times> world" where
  "pg_query q = pg_exec (\<lambda>d. (q d, d))"

lemma pg_query_db [simp]: "w_db (snd (pg_query q w)) = w_db w"
  by (auto simp: pg_query_def pg_exec_def roundtrip_db split: prod.splits fault.splits res.splits)

lemma pg_query_Ok: "pg_query q w = (Ok x, w') \<Longrightarrow> q (w_db w) = Ok x"
  by (auto simp: pg_query_def pg_exec_def roundtrip_db split: prod.splits fault.splits res.splits)

lemma pg_query_clean: "w_faults w = [] \<Longrightarrow> pg_query q w = (q (w_db w), w)"
  by (simp add: pg_query_def pg_exec_def roundtrip_clean split: res.splits)

lemma pg_exec_Ok: "pg_exec q w = (Ok x, w') \<Longrightarrow> q (w_db w) = (Ok x, w_db w')"
  by (auto simp: pg_exec_def roundtrip_db split: prod.splits fault.splits res.splits)

lemma pg_exec_db:
  "pg_exec q w = (r, w') \<Longrightarrow> w_db w' = w_db w \<or> (\<exists>x. q (w_db w) = (Ok x, w_db w'))"
  by (auto simp: pg_exec_def roundtrip_db split: prod.splits fault.splits res.splits)

lemma pg_exec_Err:
  "pg_exec q w = (Err e, w') \<Longrightarrow> (\<exists>m. e = ErrText m) \<or> (\<exists>d. q (w_db w) = (Err e, d) \<and> w_db w' = w_db w)"
  by (auto simp: pg_exec_def roundtrip_db split: prod.splits fault.splits res.splits)

lemma pg_exec_clean:
  "w_faults w = [] \<Longrightarrow> pg_exec q w = (case q (w_db w) of
     (Ok x, d) \<Rightarrow> (Ok x, w\<lparr>w_db := d\<rparr>) | (Err e, d) \<Rightarrow> (Err e, w) | (Panic p, d) \<Rightarrow> (Panic p, w))"
  by (simp add: pg_exec_def roundtrip_clean)

text \<open>What an observer without access to the tables sees of an outcome.\<close>

definition seen :: "'a res \<times> world \<Rightarrow> 'a res \<times> time \<times> byte list option list \<times> log_line list \<times> fault list" where
  "seen r = (fst r, w_clock (snd r), w_entropy (snd r), w_log (snd r), w_faults (snd r))"

lemma seen_pg_exec:
  assumes "fst (q1 d1) = fst (q2 d2)"
  shows "seen (pg_exec q1 (w\<lparr>w_db := d1\<rparr>)) = seen (pg_exec q2 (w\<lparr>w_db := d2\<rparr>))"
  using assms
  by (cases "roundtrip w"; cases "q1 d1"; cases "q2 d2")
    (auto simp: seen_def pg_exec_def roundtrip_update_db split: fault.splits res.splits)

lemma pg_exec_keeps:
  "pg_exec q w = (r, w') \<Longrightarrow> w_clock w' = w_clock w \<and> w_log w' = w_log w \<and> w_entropy w' = w_entropy w"
  by (auto simp: pg_exec_def dest!: roundtrip_keeps split: prod.splits fault.splits res.splits)

text \<open>Round trips only consume the script of faults.\<close>

lemma roundtrip_faults: "roundtrip w = (f, w') \<Longrightarrow> set (w_faults w') \<subseteq> set (w_faults w) \<and> (f \<noteq> NoFault \<longrightarrow> f \<in> set (w_faults w))"
  by (auto simp: roundtrip_def split: list.splits)

lemma pg_exec_faults: "pg_exec q w = (r, w') \<Longrightarrow> set (w_faults w') \<subseteq> set (w_faults w)"
  using roundtrip_faults [of w]
  by (auto simp: pg_exec_def split: prod.splits fault.splits res.splits)

lemma pg_query_keeps:
  "pg_query q w = (r, w') \<Longrightarrow> w_db w' = w_db w \<and> w_clock w' = w_clock w \<and> w_log w' = w_log w \<and> w_entropy w' = w_entropy w"
  using pg_query_db [of q w] by (auto simp: pg_query_def dest: pg_exec_keeps)

lemma seen_eq_cases:
  "seen r = seen r' \<longleftrightarrow> (\<exists>x s s'. r = (x, s) \<and> r' = (x, s') \<and> w_clock s = w_clock s' \<and>
     w_entropy s = w_entropy s' \<and> w_log s = w_log s' \<and> w_faults s = w_faults s')"
  by (cases r; cases r') (auto simp: seen_def)

section \<open>Sorting by a comparison\<close>

text \<open>\<open>ORDER BY\<close>: insertion sort by a comparison that may be the collation's; equal keys keep
  the order of the table.\<close>

fun insert_by :: "('a \<Rightarrow> 'a \<Rightarrow> bool) \<Rightarrow> 'a \<Rightarrow> 'a list \<Rightarrow> 'a list" where
  "insert_by le x [] = [x]"
| "insert_by le x (y # ys) = (if le x y then x # y # ys else y # insert_by le x ys)"

definition sort_by :: "('a \<Rightarrow> 'a \<Rightarrow> bool) \<Rightarrow> 'a list \<Rightarrow> 'a list" where
  "sort_by le xs = foldr (insert_by le) xs []"

lemma set_insert_by [simp]: "set (insert_by le x ys) = insert x (set ys)"
  by (induction ys) auto

lemma sort_by_simps [simp]:
  "sort_by le [] = []" "sort_by le (x # xs) = insert_by le x (sort_by le xs)"
  by (simp_all add: sort_by_def)

lemma set_sort_by [simp]: "set (sort_by le xs) = set xs"
  by (induction xs) auto

lemma length_insert_by [simp]: "length (insert_by le x ys) = Suc (length ys)"
  by (induction ys) auto

lemma length_sort_by [simp]: "length (sort_by le xs) = length xs"
  by (induction xs) auto

text \<open>A list already in order is not moved.\<close>

lemma insert_by_head: "\<forall>y \<in> set ys. le x y \<Longrightarrow> insert_by le x ys = x # ys"
  by (cases ys) auto

lemma sort_by_sorted: "sorted_wrt le xs \<Longrightarrow> sort_by le xs = xs"
  by (induction xs) (auto simp: insert_by_head)

lemma sorted_insert_by:
  assumes total: "\<And>a b. le a b \<or> le b a" and trans: "\<And>a b c. le a b \<Longrightarrow> le b c \<Longrightarrow> le a c"
  shows "sorted_wrt le ys \<Longrightarrow> sorted_wrt le (insert_by le x ys)"
proof (induction ys)
  case Nil
  then show ?case by simp
next
  case (Cons y ys)
  show ?case
  proof (cases "le x y")
    case True
    with Cons.prems trans show ?thesis by auto
  next
    case False
    with total have "le y x" by blast
    with False Cons show ?thesis by simp
  qed
qed

lemma sorted_sort_by:
  assumes "\<And>a b. le a b \<or> le b a" "\<And>a b c. le a b \<Longrightarrow> le b c \<Longrightarrow> le a c"
  shows "sorted_wrt le (sort_by le xs)"
  by (induction xs) (simp_all add: sorted_insert_by [OF assms])

lemma insert_by_snoc: "le x y \<Longrightarrow> insert_by le x (ys @ [y]) = insert_by le x ys @ [y]"
  by (induction ys) auto

lemma sort_by_snoc: "\<forall>x \<in> set xs. le x y \<Longrightarrow> sort_by le (xs @ [y]) = sort_by le xs @ [y]"
  by (induction xs) (auto simp: insert_by_snoc)

lemma distinct_insert_by [simp]: "distinct (map f (insert_by le x ys)) \<longleftrightarrow> f x \<notin> f ` set ys \<and> distinct (map f ys)"
  by (induction ys) auto

lemma distinct_sort_by [simp]: "distinct (map f (sort_by le xs)) \<longleftrightarrow> distinct (map f xs)"
  by (induction xs) auto

lemma strict_order_unique:
  fixes f :: "'a \<Rightarrow> int"
  assumes "sorted_wrt (\<lambda>a b. f a < f b) xs" "sorted_wrt (\<lambda>a b. f a < f b) ys" "set xs = set ys"
  shows "xs = ys"
proof -
  have "map f xs = map f ys"
    by (rule strict_sorted_equal) (use assms in \<open>simp_all add: sorted_wrt_map\<close>)
  moreover have "inj_on f (set xs)"
  proof -
    have "distinct (map f xs)" using assms(1) strict_sorted_iff [of "map f xs"] by (simp add: sorted_wrt_map)
    then show ?thesis by (simp add: distinct_map)
  qed
  ultimately show ?thesis using assms(3) by (metis inj_on_map_eq_map sup.idem)
qed

text \<open>With distinct keys, descending order is ascending order reversed.\<close>

lemma sort_by_desc:
  fixes f :: "'a \<Rightarrow> int"
  assumes "distinct (map f xs)"
  shows "sort_by (\<lambda>a b. f b \<le> f a) xs = rev (sort_by (\<lambda>a b. f a \<le> f b) xs)"
proof -
  have strict: "sorted_wrt (\<lambda>a b. f a < f b) ys" if "sorted_wrt (\<lambda>a b. f a \<le> f b) ys" "distinct (map f ys)" for ys
    using that strict_sorted_iff [of "map f ys"] by (simp add: sorted_wrt_map)
  have "sorted_wrt (\<lambda>a b. f b \<le> f a) (sort_by (\<lambda>a b. f b \<le> f a) xs)"
    by (rule sorted_sort_by) auto
  then have "sorted_wrt (\<lambda>a b. f a \<le> f b) (rev (sort_by (\<lambda>a b. f b \<le> f a) xs))"
    by (simp add: sorted_wrt_rev)
  then have 1: "sorted_wrt (\<lambda>a b. f a < f b) (rev (sort_by (\<lambda>a b. f b \<le> f a) xs))"
    using assms by (intro strict) (simp_all add: rev_map [symmetric])
  have "sorted_wrt (\<lambda>a b. f a \<le> f b) (sort_by (\<lambda>a b. f a \<le> f b) xs)"
    by (rule sorted_sort_by) auto
  then have 2: "sorted_wrt (\<lambda>a b. f a < f b) (sort_by (\<lambda>a b. f a \<le> f b) xs)"
    using assms by (intro strict) simp_all
  from strict_order_unique [OF 1 2] show ?thesis by (simp add: rev_swap)
qed

end
