(* ===== verification/Postgres.thy ===== *)
theory Postgres
  imports World
begin

text \<open>
  The transaction boundary and Row-Level Security: \<open>WithTenant\<close>
  (\<^verbatim>\<open>internal/infrastructure/postgres/db.go\<close>), \<open>mapPgErr\<close> (\<^verbatim>\<open>helpers.go\<close>), and the parts of
  \<^verbatim>\<open>migrations/*.up.sql\<close> every repository runs under: \<open>app.current_tenant_id()\<close>, the policy
  \<open>tenant_isolation\<close> (USING filters what a statement sees, WITH CHECK what it writes) and the
  constraints. A function of a transaction gets the bound \<open>app.tenant_id\<close> and the world whose
  database is the transaction's own copy; anything but a successful commit restores it.

  \<open>tenant_slice u d\<close> is everything of the policed tables that belongs to tenant \<open>u\<close>. The lemmas say
  that a transaction of tenant \<open>t\<close> reads nothing but the slice of \<open>t\<close>, writes nothing outside it,
  and that a failed one leaves no trace.
\<close>

section \<open>Errors\<close>

fun errors_As_PgError :: "go_error \<Rightarrow> string option" where
  "errors_As_PgError (PgError code) = Some code"
| "errors_As_PgError (Errorf m e) = errors_As_PgError e"
| "errors_As_PgError e = None"

definition mapPgErr :: "string \<Rightarrow> go_error \<Rightarrow> go_error" where
  "mapPgErr op err = (case errors_As_PgError err of
      Some code \<Rightarrow> if code = ''23505'' then ErrConflict
                   else if code = ''42501'' then ErrForbidden
                   else Errorf op err
    | None \<Rightarrow> Errorf op err)"

definition mapR :: "string \<Rightarrow> 'a res \<times> 's \<Rightarrow> 'a res \<times> 's" where
  "mapR op r = (case r of (Err e, s) \<Rightarrow> (Err (mapPgErr op e), s) | _ \<Rightarrow> r)"

text \<open>The reading idiom: \<open>pgx.ErrNoRows\<close> is \<open>domain.ErrNotFound\<close>, any other error is wrapped.\<close>

definition rowR :: "string \<Rightarrow> 'a res \<times> 's \<Rightarrow> 'a res \<times> 's" where
  "rowR op r = (case r of
      (Err e, s) \<Rightarrow> if errors_Is e ErrNoRows then (Err ErrNotFound, s) else (Err (Errorf op e), s)
    | _ \<Rightarrow> r)"

text \<open>A read for which no row is an answer.\<close>

definition maybeR :: "string \<Rightarrow> 'a res \<times> 's \<Rightarrow> 'a option res \<times> 's" where
  "maybeR op r = (case r of
      (Ok x, s) \<Rightarrow> (Ok (Some x), s)
    | (Err e, s) \<Rightarrow> if errors_Is e ErrNoRows then (Ok None, s) else (Err (Errorf op e), s)
    | (Panic p, s) \<Rightarrow> (Panic p, s))"

definition affectedR :: "nat res \<times> 's \<Rightarrow> unit res \<times> 's" where
  "affectedR r = bindR r (\<lambda>n s. if n = 0 then (Err ErrNotFound, s) else (Ok (), s))"

section \<open>Row-Level Security\<close>

definition current_tenant_id :: "PG \<Rightarrow> string \<Rightarrow> go_error + string option" where
  "current_tenant_id pg guc =
     (if guc = [] then Inr None
      else case pg_uuid pg guc of None \<Rightarrow> Inl (PgError ''22P02'') | Some u \<Rightarrow> Inr (Some u))"

text \<open>The policy predicate on a row's tenant; SQL's NULL comparison is false.\<close>

definition policy :: "string option \<Rightarrow> string \<Rightarrow> bool" where
  "policy cur tid \<longleftrightarrow> (case cur of None \<Rightarrow> False | Some t \<Rightarrow> tid = t)"

definition visible :: "('r \<Rightarrow> string) \<Rightarrow> string option \<Rightarrow> 'r list \<Rightarrow> 'r list" where
  "visible tid cur rows = filter (\<lambda>r. policy cur (tid r)) rows"

text \<open>A statement on policed tables, given the tenant of the policy and \<open>now()\<close>.\<close>

definition rls_exec :: "PG \<Rightarrow> string \<Rightarrow> (string option \<Rightarrow> time \<Rightarrow> db \<Rightarrow> 'a res \<times> db) \<Rightarrow> world \<Rightarrow> 'a res \<times> world" where
  "rls_exec pg guc q w = pg_exec (\<lambda>d. case current_tenant_id pg guc of
      Inl e \<Rightarrow> (Err e, d)
    | Inr cur \<Rightarrow> q cur (pg_ts pg (w_clock w)) d) w"

definition rls_query :: "PG \<Rightarrow> string \<Rightarrow> (string option \<Rightarrow> db \<Rightarrow> 'a res) \<Rightarrow> world \<Rightarrow> 'a res \<times> world" where
  "rls_query pg guc q = rls_exec pg guc (\<lambda>cur now d. (q cur d, d))"

definition first_row :: "'r list \<Rightarrow> 'r res" where
  "first_row rows = (case rows of [] \<Rightarrow> Err ErrNoRows | r # _ \<Rightarrow> Ok r)"

text \<open>A \<open>uuid\<close> parameter: the server rejects text that is no UUID.\<close>

definition uuid_param :: "PG \<Rightarrow> string \<Rightarrow> string res" where
  "uuid_param pg s = (case pg_uuid pg s of None \<Rightarrow> Err (PgError ''22P02'') | Some u \<Rightarrow> Ok u)"

text \<open>A nullable one: \<open>NULLIF(x, '')::uuid\<close>, or nil instead of the empty string.\<close>

definition nullable_uuid_param :: "PG \<Rightarrow> string \<Rightarrow> string option res" where
  "nullable_uuid_param pg s = (if s = [] then Ok None else bind1 (uuid_param pg s) (\<lambda>u. Ok (Some u)))"

text \<open>The constraints of an insert or update, in the order the server checks them.\<close>

definition check :: "string \<Rightarrow> bool \<Rightarrow> 'a res \<Rightarrow> 'a res" where
  "check code ok r = (if ok then r else Err (PgError code))"

lemma check_simps [simp]: "check c True r = r" "check c False r = Err (PgError c)"
  by (simp_all add: check_def)

lemma check_Ok [simp]: "check c b r = Ok x \<longleftrightarrow> b \<and> r = Ok x"
  by (simp add: check_def)

lemma uuid_param_Ok [simp]: "uuid_param pg s = Ok u \<longleftrightarrow> pg_uuid pg s = Some u"
  by (simp add: uuid_param_def split: option.splits)

lemma nullable_uuid_param_Ok:
  "nullable_uuid_param pg s = Ok u \<longleftrightarrow> (if s = [] then u = None else \<exists>v. u = Some v \<and> pg_uuid pg s = Some v)"
  by (auto simp: nullable_uuid_param_def)

text \<open>A statement that inserts the row its parameters convert to, after the checks on it.\<close>

definition insert_stmt :: "'r res \<Rightarrow> ('r \<Rightarrow> unit res) \<Rightarrow> ('r \<Rightarrow> db \<Rightarrow> db) \<Rightarrow> db \<Rightarrow> unit res \<times> db" where
  "insert_stmt row ok add d = (case bind1 row (\<lambda>r. bind1 (ok r) (\<lambda>_. Ok r)) of
      Ok r \<Rightarrow> (Ok (), add r d)
    | Err e \<Rightarrow> (Err e, d)
    | Panic p \<Rightarrow> (Panic p, d))"

lemma insert_stmt_Ok:
  "insert_stmt row ok add d = (Ok u, d') \<longleftrightarrow> (\<exists>r. row = Ok r \<and> ok r = Ok () \<and> d' = add r d)"
  by (cases row; cases "ok (SOME r. row = Ok r)") (auto simp: insert_stmt_def split: res.splits)

section \<open>Transactions\<close>

definition WithTenant :: "string \<Rightarrow> (string \<Rightarrow> world \<Rightarrow> 'a res \<times> world) \<Rightarrow> world \<Rightarrow> 'a res \<times> world" where
  "WithTenant tenantID fn w0 = (case roundtrip w0 of
      (Fault e, w1) \<Rightarrow> (Err (Errorf ''begin tx'' (ErrText e)), w1)
    | (LostAck e, w1) \<Rightarrow> (Err (Errorf ''begin tx'' (ErrText e)), w1)
    | (NoFault, w1) \<Rightarrow>
       (let d0 = w_db w1 in
        case pg_query (\<lambda>d. Ok ()) w1 of
          (Err e, w2) \<Rightarrow> (Err (Errorf ''set tenant context'' e), w2\<lparr>w_db := d0\<rparr>)
        | (Panic p, w2) \<Rightarrow> (Panic p, w2\<lparr>w_db := d0\<rparr>)
        | (Ok _, w2) \<Rightarrow>
           (case fn tenantID w2 of
              (Err e, w3) \<Rightarrow> (Err e, w3\<lparr>w_db := d0\<rparr>)
            | (Panic p, w3) \<Rightarrow> (Panic p, w3\<lparr>w_db := d0\<rparr>)
            | (Ok x, w3) \<Rightarrow>
               (case roundtrip w3 of
                  (NoFault, w4) \<Rightarrow> (Ok x, w4)
                | (Fault e, w4) \<Rightarrow> (Err (Errorf ''commit tx'' (ErrText e)), w4\<lparr>w_db := d0\<rparr>)
                | (LostAck e, w4) \<Rightarrow> (Err (Errorf ''commit tx'' (ErrText e)), w4)))))"

section \<open>Facts\<close>

lemma current_tenant_simps [simp]:
  "current_tenant_id pg [] = Inr None"
  "t \<noteq> [] \<Longrightarrow> pg_uuid pg t = Some u \<Longrightarrow> current_tenant_id pg t = Inr (Some u)"
  "t \<noteq> [] \<Longrightarrow> pg_uuid pg t = None \<Longrightarrow> current_tenant_id pg t = Inl (PgError ''22P02'')"
  by (simp_all add: current_tenant_id_def)

lemma current_tenant_None: "current_tenant_id pg t = Inr None \<longleftrightarrow> t = []"
  by (simp add: current_tenant_id_def split: option.splits)

lemma visible_None [simp]: "visible tid None rows = []"
  by (simp add: visible_def policy_def)

lemma visible_Some [simp]: "visible tid (Some t) rows = filter (\<lambda>r. tid r = t) rows"
  by (simp add: visible_def policy_def)

lemma policy_simps [simp]: "\<not> policy None t" "policy (Some u) t \<longleftrightarrow> t = u"
  by (simp_all add: policy_def)

lemma policy_self: "policy cur t \<Longrightarrow> cur = Some t"
  by (auto simp: policy_def split: option.splits)

lemma mapR_Ok [simp]: "mapR op r = (Ok x, s) \<longleftrightarrow> r = (Ok x, s)"
  by (cases r) (auto simp: mapR_def split: res.splits)

lemma rowR_Ok_eq: "rowR op (Ok x, s) = (Ok x, s)"
  by (simp add: rowR_def)

lemma rowR_Ok [simp]: "rowR op r = (Ok x, s) \<longleftrightarrow> r = (Ok x, s)"
  by (cases r) (auto simp: rowR_def split: res.splits)

lemma snd_mapR [simp]: "snd (mapR op r) = snd r"
  by (cases r) (auto simp: mapR_def split: res.splits)

lemma snd_rowR [simp]: "snd (rowR op r) = snd r"
  by (cases r) (auto simp: rowR_def split: res.splits)

lemma snd_maybeR [simp]: "snd (maybeR op r) = snd r"
  by (cases r) (auto simp: maybeR_def split: res.splits)

lemma maybeR_Ok: "maybeR op r = (Ok x, s) \<longleftrightarrow> (case x of Some y \<Rightarrow> r = (Ok y, s)
    | None \<Rightarrow> \<exists>e. r = (Err e, s) \<and> errors_Is e ErrNoRows)"
  by (cases r) (auto simp: maybeR_def split: res.splits option.splits)

lemma snd_affectedR [simp]: "snd (affectedR r) = snd r"
  by (cases r; cases "fst r") (auto simp: affectedR_def bindR_def)

lemma affectedR_Ok: "affectedR r = (Ok u, s) \<longleftrightarrow> (\<exists>n. r = (Ok n, s) \<and> n \<noteq> 0)"
  by (cases r; cases "fst r") (auto simp: affectedR_def bindR_def)

lemma mapR_simps [simp]:
  "mapR op (Ok x, s) = (Ok x, s)" "mapR op (Err e, s) = (Err (mapPgErr op e), s)"
  by (simp_all add: mapR_def)

text \<open>Only a unique violation becomes a conflict, only a policy violation is forbidden.\<close>

lemma mapPgErr_conflict: "mapPgErr op e = ErrConflict \<longleftrightarrow> errors_As_PgError e = Some ''23505''"
  by (auto simp: mapPgErr_def split: option.splits)

lemma mapPgErr_forbidden: "mapPgErr op e = ErrForbidden \<longleftrightarrow> errors_As_PgError e = Some ''42501''"
  by (auto simp: mapPgErr_def split: option.splits)

lemma rls_query_db [simp]: "w_db (snd (rls_query pg g q w)) = w_db w"
proof -
  have "rls_query pg g q w = pg_query (\<lambda>d. case current_tenant_id pg g of Inl e \<Rightarrow> Err e | Inr cur \<Rightarrow> q cur d) w"
    unfolding rls_query_def rls_exec_def pg_query_def
    by (rule arg_cong2 [where f = pg_exec]) (auto split: sum.splits)
  then show ?thesis by simp
qed

lemma rls_query_Ok: "rls_query pg g q w = (Ok x, w') \<Longrightarrow> \<exists>cur. current_tenant_id pg g = Inr cur \<and> q cur (w_db w) = Ok x"
  by (auto simp: rls_query_def rls_exec_def dest!: pg_exec_Ok split: sum.splits)

lemma first_row_Ok [simp]: "first_row rows = Ok r \<longleftrightarrow> rows \<noteq> [] \<and> r = hd rows"
  by (auto simp: first_row_def split: list.splits)

lemma rls_exec_Ok:
  "rls_exec pg g q w = (Ok x, w') \<Longrightarrow>
     \<exists>cur. current_tenant_id pg g = Inr cur \<and> q cur (pg_ts pg (w_clock w)) (w_db w) = (Ok x, w_db w')"
  by (auto simp: rls_exec_def dest!: pg_exec_Ok split: sum.splits)

lemma rls_exec_Err:
  "rls_exec pg g q w = (Err e, w') \<Longrightarrow> (\<exists>m. e = ErrText m) \<or> current_tenant_id pg g = Inl e \<or>
     (\<exists>cur d. current_tenant_id pg g = Inr cur \<and> q cur (pg_ts pg (w_clock w)) (w_db w) = (Err e, d))"
  unfolding rls_exec_def by (drule pg_exec_Err) (auto split: sum.splits)

lemma rls_exec_db:
  assumes "rls_exec pg g q w = (r, w')"
  shows "w_db w' = w_db w \<or> (\<exists>cur x. current_tenant_id pg g = Inr cur \<and>
    q cur (pg_ts pg (w_clock w)) (w_db w) = (Ok x, w_db w'))"
  using pg_exec_db [OF assms [unfolded rls_exec_def]] by (auto split: sum.splits)

lemma WithTenant_db:
  assumes "WithTenant t fn w = (r, w')"
  shows "w_db w' = w_db w \<or> (\<exists>w1 x w2. fn t w1 = (Ok x, w2) \<and> w_db w1 = w_db w \<and> w_clock w1 = w_clock w \<and> w_db w' = w_db w2)"
  using assms
  by (auto simp: WithTenant_def Let_def dest!: roundtrip_keeps pg_query_keeps
      split: prod.splits fault.splits res.splits) metis+

lemma WithTenant_Ok:
  assumes "WithTenant t fn w = (Ok x, w')"
  obtains w1 w2 where "fn t w1 = (Ok x, w2)" "w_db w1 = w_db w" "w_clock w1 = w_clock w" "w_db w' = w_db w2"
  using assms
  by (auto simp: WithTenant_def Let_def dest!: roundtrip_keeps pg_query_keeps
      split: prod.splits fault.splits res.splits intro: that)

lemma WithTenant_clean:
  assumes "w_faults w = []"
  shows "WithTenant t fn w = (case fn t w of
      (Ok x, w') \<Rightarrow> (case roundtrip w' of
          (NoFault, w4) \<Rightarrow> (Ok x, w4)
        | (Fault e, w4) \<Rightarrow> (Err (Errorf ''commit tx'' (ErrText e)), w4\<lparr>w_db := w_db w\<rparr>)
        | (LostAck e, w4) \<Rightarrow> (Err (Errorf ''commit tx'' (ErrText e)), w4))
    | (Err e, w') \<Rightarrow> (Err e, w'\<lparr>w_db := w_db w\<rparr>)
    | (Panic p, w') \<Rightarrow> (Panic p, w'\<lparr>w_db := w_db w\<rparr>))"
  by (simp add: WithTenant_def Let_def roundtrip_clean [OF assms] pg_query_clean [OF assms])

lemma rls_exec_clean: "w_faults w = [] \<Longrightarrow> current_tenant_id pg g = Inr cur \<Longrightarrow>
   rls_exec pg g q w = (case q cur (pg_ts pg (w_clock w)) (w_db w) of
     (Ok x, d) \<Rightarrow> (Ok x, w\<lparr>w_db := d\<rparr>) | (Err e, d) \<Rightarrow> (Err e, w) | (Panic p, d) \<Rightarrow> (Panic p, w))"
  by (simp add: rls_exec_def pg_exec_clean)

lemma rls_query_clean: "w_faults w = [] \<Longrightarrow> current_tenant_id pg g = Inr cur \<Longrightarrow> rls_query pg g q w = (q cur (w_db w), w)"
  by (simp add: rls_query_def rls_exec_clean split: res.splits)

text \<open>A transaction that did not succeed, with no acknowledgement lost, has left no trace.\<close>

definition consumes :: "(string \<Rightarrow> world \<Rightarrow> 'a res \<times> world) \<Rightarrow> bool" where
  "consumes fn \<longleftrightarrow> (\<forall>g w. set (w_faults (snd (fn g w))) \<subseteq> set (w_faults w))"

lemma rls_exec_faults: "set (w_faults (snd (rls_exec pg g q w))) \<subseteq> set (w_faults w)"
  unfolding rls_exec_def by (rule pg_exec_faults [OF surjective_pairing])

lemma consumes_insert: "consumes (\<lambda>g w. mapR m (rls_exec pg g q w))"
  unfolding consumes_def snd_mapR using rls_exec_faults by blast

lemma consumes_update: "consumes (\<lambda>g w. affectedR (mapR m (rls_exec pg g q w)))"
  unfolding consumes_def snd_affectedR snd_mapR using rls_exec_faults by blast

lemma WithTenant_rollback:
  assumes "consumes fn" "\<forall>e. LostAck e \<notin> set (w_faults w)" "WithTenant t fn w = (r, w')" "\<nexists>x. r = Ok x"
  shows "w_db w' = w_db w"
proof -
  obtain f w1 where r1: "roundtrip w = (f, w1)" by fastforce
  obtain y w2 where q: "pg_query (\<lambda>d. Ok ()) w1 = (y, w2)" by fastforce
  obtain z w3 where fn: "fn t w2 = (z, w3)" by fastforce
  obtain f4 w4 where r4: "roundtrip w3 = (f4, w4)" by fastforce
  have "set (w_faults w3) \<subseteq> set (w_faults w)"
    using roundtrip_faults [OF r1] pg_exec_faults [OF q [unfolded pg_query_def]] assms(1) fn
    unfolding consumes_def by (metis snd_conv subset_trans)
  then have "\<forall>e. f4 \<noteq> LostAck e" using roundtrip_faults [OF r4] assms(2) by blast
  then show ?thesis
    using assms(3,4) r1 q fn r4 roundtrip_db [OF r1]
    by (auto simp: WithTenant_def Let_def split: fault.splits res.splits)
qed

section \<open>Isolation\<close>

definition tenant_slice :: "string \<Rightarrow> db \<Rightarrow>
    User list \<times> UserRole list \<times> Lot list \<times> Campaign list \<times> Application list \<times> audit_row list" where
  "tenant_slice t d = (filter (\<lambda>r. u_TenantID r = t) (users d), filter (\<lambda>r. ur_TenantID r = t) (user_roles d),
     filter (\<lambda>r. l_TenantID r = t) (lots d), filter (\<lambda>r. c_TenantID r = t) (campaigns d),
     filter (\<lambda>r. a_TenantID r = t) (applications d), filter (\<lambda>r. r_tenant_id r = t) (audit_log d))"

text \<open>\<open>confined\<close>: a transaction body changes no other tenant's slice. \<open>local\<close>: what it returns
  depends on no other tenant's slice.\<close>

definition confined :: "PG \<Rightarrow> (string \<Rightarrow> world \<Rightarrow> 'a res \<times> world) \<Rightarrow> bool" where
  "confined pg fn \<longleftrightarrow> (\<forall>g w u. current_tenant_id pg g \<noteq> Inr (Some u) \<longrightarrow>
     tenant_slice u (w_db (snd (fn g w))) = tenant_slice u (w_db w))"

definition localised :: "PG \<Rightarrow> (string \<Rightarrow> world \<Rightarrow> 'a res \<times> world) \<Rightarrow> bool" where
  "localised pg fn \<longleftrightarrow> (\<forall>g w d1 d2. (\<forall>u. current_tenant_id pg g = Inr (Some u) \<longrightarrow> tenant_slice u d1 = tenant_slice u d2) \<longrightarrow>
     seen (fn g (w\<lparr>w_db := d1\<rparr>)) = seen (fn g (w\<lparr>w_db := d2\<rparr>)))"

lemma confined_exec:
  assumes "\<And>cur now d x d' u. q cur now d = (Ok x, d') \<Longrightarrow> cur \<noteq> Some u \<Longrightarrow> tenant_slice u d' = tenant_slice u d"
  shows "confined pg (\<lambda>g. rls_exec pg g q)"
  unfolding confined_def
proof (intro allI impI)
  fix g w u assume u: "current_tenant_id pg g \<noteq> Inr (Some u)"
  obtain r w' where r: "rls_exec pg g q w = (r, w')" by fastforce
  from rls_exec_db [OF r] assms u r
  show "tenant_slice u (w_db (snd (rls_exec pg g q w))) = tenant_slice u (w_db w)" by auto
qed

lemma confined_mapR: "confined pg fn \<Longrightarrow> confined pg (\<lambda>g w. mapR op (fn g w))"
  by (simp add: confined_def)

lemma confined_affectedR: "confined pg fn \<Longrightarrow> confined pg (\<lambda>g w. affectedR (fn g w))"
  by (simp add: confined_def)

lemma WithTenant_confined:
  assumes "confined pg fn" "current_tenant_id pg t \<noteq> Inr (Some u)"
  shows "tenant_slice u (w_db (snd (WithTenant t fn w))) = tenant_slice u (w_db w)"
proof -
  obtain r w' where r: "WithTenant t fn w = (r, w')" by fastforce
  have "tenant_slice u (w_db w2) = tenant_slice u (w_db w1)" if "fn t w1 = (x, w2)" for w1 x w2
    using assms that unfolding confined_def by (metis snd_conv)
  with WithTenant_db [OF r] r show ?thesis by auto
qed

lemma localised_query:
  assumes "\<And>t d1 d2. tenant_slice t d1 = tenant_slice t d2 \<Longrightarrow> q (Some t) d1 = q (Some t) d2"
    and "\<And>d1 d2. q None d1 = q None d2"
  shows "localised pg (\<lambda>g. rls_query pg g q)"
  unfolding localised_def
proof (intro allI impI)
  fix g :: string and w :: world and d1 d2
  assume "\<forall>u. current_tenant_id pg g = Inr (Some u) \<longrightarrow> tenant_slice u d1 = tenant_slice u d2"
  then have "(case current_tenant_id pg g of Inl e \<Rightarrow> Err e | Inr cur \<Rightarrow> q cur d1) =
      (case current_tenant_id pg g of Inl e \<Rightarrow> Err e | Inr cur \<Rightarrow> q cur d2)"
    using assms by (auto split: sum.splits) (metis option.exhaust)
  then show "seen (rls_query pg g q (w\<lparr>w_db := d1\<rparr>)) = seen (rls_query pg g q (w\<lparr>w_db := d2\<rparr>))"
    unfolding rls_query_def rls_exec_def by (intro seen_pg_exec) (auto split: sum.splits)
qed

lemma seen_rowR: "seen r = seen r' \<Longrightarrow> seen (rowR op r) = seen (rowR op r')"
  unfolding seen_eq_cases by (elim exE conjE) (auto simp: rowR_def split: res.splits)

lemma seen_wrapR: "seen r = seen r' \<Longrightarrow> seen (wrapR op r) = seen (wrapR op r')"
  unfolding seen_eq_cases by (elim exE conjE) (auto simp: wrapR_def split: res.splits)

lemma localised_rowR: "localised pg fn \<Longrightarrow> localised pg (\<lambda>g w. rowR op (fn g w))"
  unfolding localised_def by (blast intro: seen_rowR)

lemma seen_maybeR: "seen r = seen r' \<Longrightarrow> seen (maybeR op r) = seen (maybeR op r')"
  unfolding seen_eq_cases by (elim exE conjE) (auto simp: maybeR_def split: res.splits)

lemma localised_maybeR: "localised pg fn \<Longrightarrow> localised pg (\<lambda>g w. maybeR op (fn g w))"
  unfolding localised_def by (blast intro: seen_maybeR)

lemma localised_wrapR: "localised pg fn \<Longrightarrow> localised pg (\<lambda>g w. wrapR op (fn g w))"
  unfolding localised_def by (blast intro: seen_wrapR)

lemma WithTenant_localised:
  assumes "localised pg fn" "\<And>u. current_tenant_id pg t = Inr (Some u) \<Longrightarrow> tenant_slice u d1 = tenant_slice u d2"
  shows "fst (WithTenant t fn (w\<lparr>w_db := d1\<rparr>)) = fst (WithTenant t fn (w\<lparr>w_db := d2\<rparr>))"
proof -
  obtain f w1 where r: "roundtrip w = (f, w1)" by fastforce
  obtain o1 w2 where q: "pg_query (\<lambda>d. Ok ()) w1 = (o1, w2)" by fastforce
  have q': "pg_query (\<lambda>d. Ok ()) (w1\<lparr>w_db := d\<rparr>) = (o1, w2\<lparr>w_db := d\<rparr>)" for d
    using q by (auto simp: pg_query_def pg_exec_def roundtrip_update_db split: prod.splits fault.splits)
  have "seen (fn t (w2\<lparr>w_db := d1\<rparr>)) = seen (fn t (w2\<lparr>w_db := d2\<rparr>))"
    using assms unfolding localised_def by blast
  then obtain x s s' where "fn t (w2\<lparr>w_db := d1\<rparr>) = (x, s)" "fn t (w2\<lparr>w_db := d2\<rparr>) = (x, s')"
    "w_faults s = w_faults s'"
    unfolding seen_eq_cases by blast
  moreover from this have "fst (roundtrip s) = fst (roundtrip s')"
    by (simp add: roundtrip_def split: list.splits)
  ultimately show ?thesis
    by (cases f) (auto simp: WithTenant_def roundtrip_update_db r q' Let_def split: res.splits prod.splits fault.splits)
qed

lemma WithTenant_reads:
  assumes "\<And>w. w_db (snd (fn t w)) = w_db w"
  shows "w_db (snd (WithTenant t fn w)) = w_db w"
proof -
  obtain r w' where r: "WithTenant t fn w = (r, w')" by fastforce
  show ?thesis using WithTenant_db [OF r] r assms by (metis snd_conv)
qed

end
