(* ===== verification/Sha256.thy ===== *)
theory Sha256
  imports Prelude
begin

unbundle bit_operations_syntax

text \<open>
  The part of Go's \<open>crypto/sha256\<close> the source calls: \<open>sha256.Sum256\<close> on a byte string. The
  compression function follows FIPS 180-4 on 32-bit words (addition wraps, \<open>rotr\<close> rotates,
  \<open>shr\<close> shifts); every definition is executable. Nothing in the development assumes the hash
  injective: the tamper-evidence results name the colliding inputs instead.
\<close>

section \<open>The compression function\<close>

type_synonym w32 = "32 word"

definition K256 :: "w32 list" where
  "K256 =
   [1116352408, 1899447441, 3049323471, 3921009573, 961987163, 1508970993, 2453635748, 2870763221,
    3624381080, 310598401, 607225278, 1426881987, 1925078388, 2162078206, 2614888103, 3248222580,
    3835390401, 4022224774, 264347078, 604807628, 770255983, 1249150122, 1555081692, 1996064986,
    2554220882, 2821834349, 2952996808, 3210313671, 3336571891, 3584528711, 113926993, 338241895,
    666307205, 773529912, 1294757372, 1396182291, 1695183700, 1986661051, 2177026350, 2456956037,
    2730485921, 2820302411, 3259730800, 3345764771, 3516065817, 3600352804, 4094571909, 275423344,
    430227734, 506948616, 659060556, 883997877, 958139571, 1322822218, 1537002063, 1747873779,
    1955562222, 2024104815, 2227730452, 2361852424, 2428436474, 2756734187, 3204031479, 3329325298]"

datatype hstate = HS w32 w32 w32 w32 w32 w32 w32 w32

definition H256_init :: hstate where
  "H256_init = HS 0x6a09e667 0xbb67ae85 0x3c6ef372 0xa54ff53a 0x510e527f 0x9b05688c 0x1f83d9ab 0x5be0cd19"

definition rotr :: "nat \<Rightarrow> w32 \<Rightarrow> w32" where
  "rotr n x = (drop_bit n x) OR (push_bit (32 - n) x)"

definition shr :: "nat \<Rightarrow> w32 \<Rightarrow> w32" where
  "shr n x = drop_bit n x"

definition Ch :: "w32 \<Rightarrow> w32 \<Rightarrow> w32 \<Rightarrow> w32" where
  "Ch x y z = (x AND y) XOR ((NOT x) AND z)"

definition Maj :: "w32 \<Rightarrow> w32 \<Rightarrow> w32 \<Rightarrow> w32" where
  "Maj x y z = (x AND y) XOR (x AND z) XOR (y AND z)"

definition Sigma0 :: "w32 \<Rightarrow> w32" where "Sigma0 x = rotr 2 x XOR rotr 13 x XOR rotr 22 x"
definition Sigma1 :: "w32 \<Rightarrow> w32" where "Sigma1 x = rotr 6 x XOR rotr 11 x XOR rotr 25 x"
definition sigma0 :: "w32 \<Rightarrow> w32" where "sigma0 x = rotr 7 x XOR rotr 18 x XOR shr 3 x"
definition sigma1 :: "w32 \<Rightarrow> w32" where "sigma1 x = rotr 17 x XOR rotr 19 x XOR shr 10 x"

text \<open>The message schedule is a window of the sixteen words still to be consumed; a round reads
  its first word and the window shifts by one, the new word computed from the old window.\<close>

fun schedule :: "w32 list \<Rightarrow> w32 list" where
  "schedule [w0, w1, w2, w3, w4, w5, w6, w7, w8, w9, w10, w11, w12, w13, w14, w15] =
     [w1, w2, w3, w4, w5, w6, w7, w8, w9, w10, w11, w12, w13, w14, w15,
      sigma1 w14 + w9 + sigma0 w1 + w0]"
| "schedule ws = ws"

fun sha_shift :: "w32 \<Rightarrow> w32 \<Rightarrow> hstate \<Rightarrow> hstate" where
  "sha_shift t1 t2 (HS a b c d e f g h) = HS (t1 + t2) a b c (d + t1) e f g"

fun sha_round :: "w32 \<Rightarrow> w32 \<Rightarrow> hstate \<Rightarrow> hstate" where
  "sha_round k w (HS a b c d e f g h) =
     sha_shift (h + Sigma1 e + Ch e f g + k + w) (Sigma0 a + Maj a b c) (HS a b c d e f g h)"

fun sha_rounds :: "w32 list \<Rightarrow> w32 list \<Rightarrow> hstate \<Rightarrow> hstate" where
  "sha_rounds [] ws h = h"
| "sha_rounds (k # ks) ws h = sha_rounds ks (schedule ws) (sha_round k (hd ws) h)"

fun hs_add :: "hstate \<Rightarrow> hstate \<Rightarrow> hstate" where
  "hs_add (HS a b c d e f g h) (HS a' b' c' d' e' f' g' h') =
     HS (a + a') (b + b') (c + c') (d + d') (e + e') (f + f') (g + g') (h + h')"

definition sha_block :: "hstate \<Rightarrow> w32 list \<Rightarrow> hstate" where
  "sha_block h ws = hs_add h (sha_rounds K256 ws h)"

section \<open>Padding and digest\<close>

fun be32 :: "nat list \<Rightarrow> w32 list" where
  "be32 (a # b # c # d # r) = of_nat (((a * 256 + b) * 256 + c) * 256 + d) # be32 r"
| "be32 _ = []"

definition be_bytes :: "nat \<Rightarrow> nat \<Rightarrow> nat list" where
  "be_bytes n x = map (\<lambda>i. x div 256 ^ i mod 256) (rev [0..<n])"

definition sha_pad :: "nat list \<Rightarrow> nat list" where
  "sha_pad m = (let l = length m in
     m @ 128 # replicate ((119 - l mod 64) mod 64) 0 @ be_bytes 8 (8 * l))"

function sha_blocks :: "hstate \<Rightarrow> w32 list \<Rightarrow> hstate" where
  "sha_blocks h ws = (if ws = [] then h else sha_blocks (sha_block h (take 16 ws)) (drop 16 ws))"
  by pat_completeness auto
termination by (relation "measure (\<lambda>(h, ws). length ws)") auto

declare sha_blocks.simps [simp del]

fun hs_words :: "hstate \<Rightarrow> w32 list" where
  "hs_words (HS a b c d e f g h) = [a, b, c, d, e, f, g, h]"

definition Sum256 :: "string \<Rightarrow> byte list" where
  "Sum256 s = (let m = map of_char s :: nat list in
     map of_nat (concat (map (\<lambda>w. be_bytes 4 (unat w)) (hs_words (sha_blocks H256_init (be32 (sha_pad m)))))))"

lemma length_be_bytes [simp]: "length (be_bytes n x) = n"
  by (simp add: be_bytes_def)

lemma length_hs_words [simp]: "length (hs_words h) = 8"
  by (cases h) simp

lemma length_Sum256 [simp]: "length (Sum256 s) = 32"
proof -
  have "length (concat (map (\<lambda>w. be_bytes 4 (unat w)) ws)) = 4 * length ws" for ws :: "w32 list"
    by (induction ws) auto
  then show ?thesis by (simp add: Sum256_def Let_def)
qed

end
