(* ===== verification/Audit_Chain.thy ===== *)
theory Audit_Chain
  imports Ports Sha256
begin

text \<open>
  \<^verbatim>\<open>internal/application/services/audit_chain.go\<close>: canonical payload, chain hash and whole-chain
  verification. \<open>jn\<close> is the composition \<open>json.Unmarshal\<close> into \<open>any\<close> followed by \<open>json.Marshal\<close>
  (the canonical text of a JSON document, or the decoder's error); the results hold for any such
  function. \<open>chain_ok\<close> is the abstract contract of a chain, \<open>verify_from_iff\<close> says the verifier
  decides it, \<open>verify_from_broken\<close> that it reports the first entry violating it, and
  \<open>chain_inputs_unique\<close> is tamper evidence: two intact chains of one length with one final
  hash have the same hashed contents, or exhibit a SHA-256 collision between two of them.
\<close>

type_synonym json_norm = "string \<Rightarrow> go_error + string"

definition genesisPrevHash :: string where
  "genesisPrevHash = replicate 64 CHR ''0''"

definition CanonicalizeEntry :: "json_norm \<Rightarrow> string option \<Rightarrow> go_error + string" where
  "CanonicalizeEntry jn payload = (case payload of
      None \<Rightarrow> Inr ''null''
    | Some p \<Rightarrow> if p = [] then Inr ''null'' else jn p)"

definition hash_fields :: "string \<Rightarrow> int \<Rightarrow> AuditEntry \<Rightarrow> string \<Rightarrow> string list" where
  "hash_fields prevHash seq e canonical =
     [prevHash, FormatInt seq, ae_TenantID e, ae_ActorUserID e, ae_Action e, ae_EntityType e,
      ae_EntityID e, canonical, Format_RFC3339Nano (Truncate (ae_CreatedAt e) Microsecond)]"

definition HashChainEntry :: "string \<Rightarrow> int \<Rightarrow> AuditEntry \<Rightarrow> string \<Rightarrow> string" where
  "HashChainEntry prevHash seq e canonical =
     hex_EncodeToString (Sum256 (strings_Join (hash_fields prevHash seq e canonical) ''|''))"

text \<open>The loop of \<open>verifyChainEntries\<close> at index \<open>i\<close> with the running \<open>prev\<close>.\<close>

fun verify_from :: "json_norm \<Rightarrow> nat \<Rightarrow> string \<Rightarrow> AuditEntry option list \<Rightarrow> int \<times> go_error option" where
  "verify_from jn i prev [] = (0, None)"
| "verify_from jn i prev (None # es) =
     (0, Some (ErrText (''verify chain: nil entry at position '' @ FormatInt (int i))))"
| "verify_from jn i prev (Some e # es) =
     (if ae_Seq e \<noteq> int (Suc i) then
        (ae_Seq e, Some (ErrText (''verify chain: seq '' @ FormatInt (ae_Seq e) @ '' at position '' @
           FormatInt (int (Suc i)) @ '' breaks contiguity'')))
      else if ae_PrevHash e \<noteq> prev then
        (ae_Seq e, Some (ErrText (''verify chain: entry '' @ FormatInt (ae_Seq e) @
           '' prev_hash does not link to the previous chain_hash'')))
      else case CanonicalizeEntry jn (ae_Payload e) of
          Inl err \<Rightarrow> (ae_Seq e, Some (Errorf (''verify chain: canonicalize entry '' @ FormatInt (ae_Seq e)) err))
        | Inr canon \<Rightarrow>
            if HashChainEntry (ae_PrevHash e) (ae_Seq e) e canon \<noteq> ae_ChainHash e then
              (ae_Seq e, Some (ErrText (''verify chain: entry '' @ FormatInt (ae_Seq e) @ '' chain_hash mismatch'')))
            else verify_from jn (Suc i) (ae_ChainHash e) es)"

definition verifyChainEntries :: "json_norm \<Rightarrow> AuditEntry option list \<Rightarrow> int \<times> go_error option" where
  "verifyChainEntries jn entries =
     (if entries = [] then (0, None) else verify_from jn 0 genesisPrevHash entries)"

section \<open>The contract of a chain\<close>

definition link_ok :: "json_norm \<Rightarrow> nat \<Rightarrow> string \<Rightarrow> AuditEntry \<Rightarrow> bool" where
  "link_ok jn i prev e \<longleftrightarrow> ae_Seq e = int (Suc i) \<and> ae_PrevHash e = prev \<and>
     (case CanonicalizeEntry jn (ae_Payload e) of
        Inl _ \<Rightarrow> False
      | Inr canon \<Rightarrow> ae_ChainHash e = HashChainEntry prev (ae_Seq e) e canon)"

fun chain_ok :: "json_norm \<Rightarrow> nat \<Rightarrow> string \<Rightarrow> AuditEntry list \<Rightarrow> bool" where
  "chain_ok jn i prev [] = True"
| "chain_ok jn i prev (e # es) = (link_ok jn i prev e \<and> chain_ok jn (Suc i) (ae_ChainHash e) es)"

definition last_hash :: "string \<Rightarrow> AuditEntry list \<Rightarrow> string" where
  "last_hash prev es = (if es = [] then prev else ae_ChainHash (last es))"

abbreviation intact :: "json_norm \<Rightarrow> AuditEntry list \<Rightarrow> bool" where
  "intact jn es \<equiv> chain_ok jn 0 genesisPrevHash es"

lemma last_hash_simps [simp]:
  "last_hash p [] = p" "last_hash p (e # es) = last_hash (ae_ChainHash e) es"
  "last_hash p (es @ [e]) = ae_ChainHash e"
  by (simp_all add: last_hash_def)

lemma chain_ok_append:
  "chain_ok jn i p (xs @ ys) \<longleftrightarrow> chain_ok jn i p xs \<and> chain_ok jn (i + length xs) (last_hash p xs) ys"
  by (induction xs arbitrary: i p) auto

lemma chain_ok_snoc:
  "chain_ok jn i p (xs @ [e]) \<longleftrightarrow> chain_ok jn i p xs \<and> link_ok jn (i + length xs) (last_hash p xs) e"
  by (simp add: chain_ok_append)

lemma verify_from_iff:
  "verify_from jn i prev (map Some es) = (0, None) \<longleftrightarrow> chain_ok jn i prev es"
  by (induction es arbitrary: i prev) (auto simp: link_ok_def split: sum.splits)

lemma verifyChainEntries_iff: "verifyChainEntries jn (map Some es) = (0, None) \<longleftrightarrow> intact jn es"
  by (simp add: verifyChainEntries_def verify_from_iff)

text \<open>Without an error the verifier has accepted; with one it names the first entry that breaks
  the contract by the sequence number stored in it.\<close>

lemma verify_from_broken:
  assumes "verify_from jn i prev (map Some es) = (k, Some err)"
  shows "\<exists>xs e ys. es = xs @ e # ys \<and> chain_ok jn i prev xs \<and>
    \<not> link_ok jn (i + length xs) (last_hash prev xs) e \<and> k = ae_Seq e"
  using assms
proof (induction es arbitrary: i prev)
  case Nil
  then show ?case by simp
next
  case (Cons e es)
  show ?case
  proof (cases "link_ok jn i prev e")
    case True
    with Cons.prems have "verify_from jn (Suc i) (ae_ChainHash e) (map Some es) = (k, Some err)"
      by (auto simp: link_ok_def split: sum.splits if_splits)
    then obtain xs e' ys where *: "es = xs @ e' # ys" "chain_ok jn (Suc i) (ae_ChainHash e) xs"
      "\<not> link_ok jn (Suc i + length xs) (last_hash (ae_ChainHash e) xs) e'" "k = ae_Seq e'"
      using Cons.IH by blast
    with True show ?thesis by (intro exI [of _ "e # xs"] exI [of _ e'] exI [of _ ys]) simp
  next
    case False
    with Cons.prems have "k = ae_Seq e"
      by (auto simp: link_ok_def split: sum.splits if_splits)
    with False show ?thesis by (intro exI [of _ "[]"] exI [of _ e] exI [of _ es]) simp
  qed
qed

section \<open>Tamper evidence\<close>

definition canon_of :: "json_norm \<Rightarrow> AuditEntry \<Rightarrow> string" where
  "canon_of jn e = (case CanonicalizeEntry jn (ae_Payload e) of Inl _ \<Rightarrow> [] | Inr c \<Rightarrow> c)"

definition fields_of :: "json_norm \<Rightarrow> AuditEntry \<Rightarrow> string list" where
  "fields_of jn e = hash_fields (ae_PrevHash e) (ae_Seq e) e (canon_of jn e)"

definition input_of :: "json_norm \<Rightarrow> AuditEntry \<Rightarrow> string" where
  "input_of jn e = strings_Join (fields_of jn e) ''|''"

definition no_bar :: "string \<Rightarrow> bool" where
  "no_bar s \<longleftrightarrow> CHR ''|'' \<notin> set s"

lemma no_bar_hex [simp]: "no_bar (hex_EncodeToString bs)"
  using hex_chars [of "CHR ''|''" bs] by (auto simp: no_bar_def)

lemma no_bar_genesis [simp]: "no_bar genesisPrevHash"
  by (simp add: no_bar_def genesisPrevHash_def)

lemma no_bar_FormatInt [simp]: "no_bar (FormatInt i)"
  unfolding no_bar_def by (rule FormatInt_no) simp_all

lemma no_bar_time [simp]: "no_bar (Format_RFC3339Nano t)"
  unfolding no_bar_def by (rule Format_RFC3339Nano_no) simp_all

lemma link_ok_hash:
  "link_ok jn i prev e \<Longrightarrow> ae_ChainHash e = hex_EncodeToString (Sum256 (input_of jn e))"
  by (auto simp: link_ok_def HashChainEntry_def input_of_def fields_of_def canon_of_def split: sum.splits)

lemma chain_ok_last_hash_no_bar: "chain_ok jn i p xs \<Longrightarrow> no_bar p \<Longrightarrow> no_bar (last_hash p xs)"
  by (induction xs arbitrary: i p) (auto simp: link_ok_hash)

lemma input_of_prev:
  assumes "input_of jn e = input_of jn e'" "no_bar (ae_PrevHash e)" "no_bar (ae_PrevHash e')"
  shows "ae_PrevHash e = ae_PrevHash e'"
  using assms sep_append_inject [of "CHR ''|''" "ae_PrevHash e" "ae_PrevHash e'"]
  by (auto simp: input_of_def fields_of_def hash_fields_def no_bar_def)

lemma chain_inputs_unique:
  assumes "chain_ok jn i p xs" "chain_ok jn i p ys" "length xs = length ys" "no_bar p"
    and "last_hash p xs = last_hash p ys"
  shows "map (input_of jn) xs = map (input_of jn) ys \<or>
    (\<exists>a \<in> set (map (input_of jn) xs). \<exists>b \<in> set (map (input_of jn) ys). a \<noteq> b \<and> Sum256 a = Sum256 b)"
  using assms
proof (induction xs arbitrary: ys rule: rev_induct)
  case Nil
  then show ?case by simp
next
  case (snoc e xs)
  then obtain e' ys' where ys: "ys = ys' @ [e']" by (cases ys rule: rev_cases) auto
  from snoc.prems ys have ok: "chain_ok jn i p xs" "chain_ok jn i p ys'" "length xs = length ys'"
    and l: "link_ok jn (i + length xs) (last_hash p xs) e"
    and l': "link_ok jn (i + length xs) (last_hash p ys') e'"
    by (auto simp: chain_ok_snoc)
  have eq: "Sum256 (input_of jn e) = Sum256 (input_of jn e')"
    using snoc.prems(5) ys link_ok_hash [OF l] link_ok_hash [OF l'] by simp
  show ?case
  proof (cases "input_of jn e = input_of jn e'")
    case False
    with eq ys show ?thesis by auto
  next
    case True
    have "no_bar (last_hash p xs)" "no_bar (last_hash p ys')"
      using ok snoc.prems(4) chain_ok_last_hash_no_bar by blast+
    then have "last_hash p xs = last_hash p ys'"
      using input_of_prev [OF True] l l' by (simp add: link_ok_def)
    from snoc.IH [OF ok snoc.prems(4) this] True ys show ?thesis by auto
  qed
qed

text \<open>With separator-free contents the input determines every hashed field.\<close>

definition plain_fields :: "json_norm \<Rightarrow> AuditEntry \<Rightarrow> bool" where
  "plain_fields jn e \<longleftrightarrow> no_bar (ae_TenantID e) \<and> no_bar (ae_ActorUserID e) \<and> no_bar (ae_Action e) \<and>
     no_bar (ae_EntityType e) \<and> no_bar (ae_EntityID e) \<and> no_bar (canon_of jn e)"

lemma input_of_fields:
  assumes "input_of jn e = input_of jn e'" "plain_fields jn e" "plain_fields jn e'"
    and "no_bar (ae_PrevHash e)" "no_bar (ae_PrevHash e')"
  shows "fields_of jn e = fields_of jn e'"
proof (rule strings_Join_inject)
  show "length (fields_of jn e) = length (fields_of jn e')"
    by (simp add: fields_of_def hash_fields_def)
  have nb: "\<forall>f \<in> set (fields_of jn d). no_bar f" if "plain_fields jn d" "no_bar (ae_PrevHash d)" for d
    using that by (simp add: fields_of_def hash_fields_def plain_fields_def)
  show "\<forall>x\<in>set (fields_of jn e). CHR ''|'' \<notin> set x"
    using nb [OF assms(2,4)] by (simp only: no_bar_def)
  show "\<forall>y\<in>set (fields_of jn e'). CHR ''|'' \<notin> set y"
    using nb [OF assms(3,5)] by (simp only: no_bar_def)
  show "strings_Join (fields_of jn e) ''|'' = strings_Join (fields_of jn e') ''|''"
    using assms(1) by (simp add: input_of_def)
qed

section \<open>What the chain does not cover\<close>

text \<open>The hash reads neither the row id nor the severity.\<close>

lemma link_ok_severity [simp]:
  "link_ok jn i p (e\<lparr>ae_Severity := v, ae_ID := n\<rparr>) = link_ok jn i p e"
  by (simp add: link_ok_def HashChainEntry_def hash_fields_def split: sum.splits)

lemma chain_ok_severity: "chain_ok jn i p (map (\<lambda>e. e\<lparr>ae_Severity := f e, ae_ID := g e\<rparr>) es) = chain_ok jn i p es"
  by (induction es arbitrary: i p) simp_all

end
