(* ===== verification/Audit_Service.thy ===== *)
theory Audit_Service
  imports Audit_Chain Sinks
begin

text \<open>
  \<^verbatim>\<open>internal/application/services/audit_service.go\<close>: \<open>Record\<close> with its two attempts, \<open>VerifyChain\<close>
  and \<open>Latest\<close>. \<open>next_entry\<close> is the entry an attempt builds from the tail it read;
  \<open>record_loop n\<close> is the loop with \<open>n\<close> attempts left. The locale \<open>audit_repository\<close> is what
  \<open>ports.AuditRepository\<close> promises of the chain of a tenant, \<open>kept\<close> being the entry as the store
  gives it back; inside it, \<open>Record\<close> extends the chain by at most one entry and leaves an
  intact chain intact, whatever the clock, the log and the failures of the store.
\<close>

record 's auditService =
  ads_repo :: "'s AuditRepository"
  ads_log :: "'s Logger"
  ads_now :: "'s clock"

definition next_seq :: "AuditEntry option \<Rightarrow> int" where
  "next_seq tail = (case tail of None \<Rightarrow> 1 | Some e \<Rightarrow> ae_Seq e + 1)"

definition next_prev :: "AuditEntry option \<Rightarrow> string" where
  "next_prev tail = (case tail of None \<Rightarrow> genesisPrevHash | Some e \<Rightarrow> ae_ChainHash e)"

text \<open>The struct literal, before \<open>ChainHash\<close> is set, and the entry that is appended.\<close>

definition draft_entry :: "string \<Rightarrow> string \<Rightarrow> string \<Rightarrow> string \<Rightarrow> string \<Rightarrow> string option \<Rightarrow> string \<Rightarrow>
    AuditEntry option \<Rightarrow> time \<Rightarrow> AuditEntry" where
  "draft_entry tenantID actorUserID action entityType entityID payload severity tail now =
     \<lparr>ae_ID = 0, ae_TenantID = tenantID, ae_ActorUserID = actorUserID, ae_Action = action,
      ae_EntityType = entityType, ae_EntityID = entityID, ae_Payload = payload,
      ae_CreatedAt = Truncate now Microsecond, ae_Seq = next_seq tail, ae_PrevHash = next_prev tail,
      ae_ChainHash = [], ae_Severity = severity\<rparr>"

definition next_entry :: "json_norm \<Rightarrow> string \<Rightarrow> string \<Rightarrow> string \<Rightarrow> string \<Rightarrow> string \<Rightarrow> string option \<Rightarrow> string \<Rightarrow>
    AuditEntry option \<Rightarrow> time \<Rightarrow> go_error + AuditEntry" where
  "next_entry jn tenantID actorUserID action entityType entityID payload severity tail now =
     (case CanonicalizeEntry jn payload of
        Inl e \<Rightarrow> Inl e
      | Inr canon \<Rightarrow>
         (let entry = draft_entry tenantID actorUserID action entityType entityID payload severity tail now in
          Inr (entry\<lparr>ae_ChainHash := HashChainEntry (next_prev tail) (next_seq tail) entry canon\<rparr>)))"

definition warn_audit :: "'s auditService \<Rightarrow> string \<Rightarrow> string \<Rightarrow> string \<Rightarrow> go_error \<Rightarrow> 's \<Rightarrow> 's" where
  "warn_audit svc msg tenantID action e =
     log_Warn (ads_log svc) msg [(''tenant_id'', LStr tenantID), (''action'', LStr action), (''error'', LErr e)]"

fun record_loop :: "nat \<Rightarrow> json_norm \<Rightarrow> 's auditService \<Rightarrow> string \<Rightarrow> string \<Rightarrow> string \<Rightarrow> string \<Rightarrow> string \<Rightarrow>
    string option \<Rightarrow> string \<Rightarrow> 's \<Rightarrow> unit res \<times> 's" where
  "record_loop 0 jn svc tenantID actorUserID action entityType entityID payload severity s =
     (Err ErrConflict,
      log_Warn (ads_log svc) ''audit append conflict after retry''
        [(''tenant_id'', LStr tenantID), (''action'', LStr action)] s)"
| "record_loop (Suc n) jn svc tenantID actorUserID action entityType entityID payload severity s =
     (case adt_Tail (ads_repo svc) tenantID s of
        (Panic p, s1) \<Rightarrow> (Panic p, s1)
      | (Err e, s1) \<Rightarrow> (Err e, warn_audit svc ''audit tail failed'' tenantID action e s1)
      | (Ok tail, s1) \<Rightarrow>
         (let (now, s2) = ads_now svc s1 in
          case next_entry jn tenantID actorUserID action entityType entityID payload severity tail now of
            Inl e \<Rightarrow> (Err e, warn_audit svc ''audit payload canonicalization failed'' tenantID action e s2)
          | Inr entry \<Rightarrow>
             (case adt_Append (ads_repo svc) entry s2 of
                (Ok _, s3) \<Rightarrow> (Ok (), s3)
              | (Panic p, s3) \<Rightarrow> (Panic p, s3)
              | (Err e, s3) \<Rightarrow>
                  if \<not> errors_Is e ErrConflict
                  then (Err e, warn_audit svc ''audit append failed'' tenantID action e s3)
                  else record_loop n jn svc tenantID actorUserID action entityType entityID payload severity s3)))"

definition AuditService_Record :: "json_norm \<Rightarrow> 's auditService \<Rightarrow> string \<Rightarrow> string \<Rightarrow> string \<Rightarrow> string \<Rightarrow>
    string \<Rightarrow> string option \<Rightarrow> string \<Rightarrow> 's \<Rightarrow> unit res \<times> 's" where
  "AuditService_Record jn svc tenantID actorUserID action entityType entityID payload severity s =
     (if tenantID = [] then (Err ErrTenantRequired, s)
      else record_loop 2 jn svc tenantID actorUserID action entityType entityID payload
             (if severity = [] then SeverityInfo else severity) s)"

definition AuditService_VerifyChain :: "json_norm \<Rightarrow> 's auditService \<Rightarrow> string \<Rightarrow> 's \<Rightarrow> (int \<times> go_error option) res \<times> 's" where
  "AuditService_VerifyChain jn svc tenantID s =
     (if tenantID = [] then (Ok (0, Some ErrTenantRequired), s)
      else case adt_ListByTenant (ads_repo svc) tenantID s of
          (Err e, s1) \<Rightarrow> (Ok (0, Some e), s1)
        | (Panic p, s1) \<Rightarrow> (Panic p, s1)
        | (Ok entries, s1) \<Rightarrow> (Ok (verifyChainEntries jn entries), s1))"

definition AuditService_Latest :: "'s auditService \<Rightarrow> string \<Rightarrow> int \<Rightarrow> 's \<Rightarrow> AuditEntry option list res \<times> 's" where
  "AuditService_Latest svc tenantID limit s =
     (if tenantID = [] then (Err ErrTenantRequired, s)
      else if limit \<le> 0 then (Err ErrInvalidInput, s)
      else adt_ListRecent (ads_repo svc) tenantID limit s)"

text \<open>The service as the interface value its emitters hold.\<close>

definition NewAuditService :: "json_norm \<Rightarrow> 's AuditRepository \<Rightarrow> 's Logger \<Rightarrow> 's clock \<Rightarrow> 's AuditService" where
  "NewAuditService jn repo lg clk =
     (let svc = \<lparr>ads_repo = repo, ads_log = lg, ads_now = clk\<rparr> in
      \<lparr>aud_Record = AuditService_Record jn svc, aud_VerifyChain = AuditService_VerifyChain jn svc,
       aud_Latest = AuditService_Latest svc\<rparr>)"

section \<open>The entry built from a tail\<close>

definition describes :: "AuditEntry option \<Rightarrow> AuditEntry list \<Rightarrow> bool" where
  "describes tail es \<longleftrightarrow> (case tail of
      None \<Rightarrow> es = []
    | Some e \<Rightarrow> es \<noteq> [] \<and> ae_Seq e = ae_Seq (last es) \<and> ae_ChainHash e = ae_ChainHash (last es))"

lemma chain_ok_last_seq: "chain_ok jn i p es \<Longrightarrow> es \<noteq> [] \<Longrightarrow> ae_Seq (last es) = int (i + length es)"
  by (induction es rule: rev_induct) (auto simp: chain_ok_snoc link_ok_def)

lemma chain_ok_seqs: "chain_ok jn i p es \<Longrightarrow> map ae_Seq es = map int [Suc i..<Suc (i + length es)]"
  by (induction es rule: rev_induct) (auto simp: chain_ok_snoc link_ok_def)

lemma chain_ok_distinct: "chain_ok jn i p es \<Longrightarrow> distinct (map ae_Seq es)"
  by (simp add: chain_ok_seqs distinct_map inj_on_def del: upt_Suc)

lemma next_entry_fields:
  "next_entry jn t a ac et ei p sv tail now = Inr e \<Longrightarrow>
     ae_TenantID e = t \<and> ae_ActorUserID e = a \<and> ae_Action e = ac \<and> ae_EntityType e = et \<and> ae_EntityID e = ei \<and>
     ae_Payload e = p \<and> ae_Severity e = sv \<and> ae_Seq e = next_seq tail \<and> ae_PrevHash e = next_prev tail \<and>
     ae_CreatedAt e = Truncate now Microsecond"
  by (auto simp: next_entry_def draft_entry_def Let_def split: sum.splits)

lemma next_entry_links:
  assumes "next_entry jn t a ac et ei p sv tail now = Inr e"
    and "intact jn es" "describes tail es"
  shows "link_ok jn (length es) (last_hash genesisPrevHash es) e"
proof -
  have seq: "next_seq tail = int (Suc (length es))"
    using assms(2,3) chain_ok_last_seq [of jn 0 genesisPrevHash es]
    by (auto simp: next_seq_def describes_def split: option.splits)
  have prev: "next_prev tail = last_hash genesisPrevHash es"
    using assms(3) by (auto simp: next_prev_def describes_def last_hash_def split: option.splits)
  show ?thesis
    using assms(1) seq prev
    by (auto simp: next_entry_def link_ok_def draft_entry_def HashChainEntry_def hash_fields_def Let_def
        split: sum.splits)
qed

lemma verify_from_accepts: "verify_from jn i pr xs = (j, None) \<Longrightarrow> j = 0"
  by (induction jn i pr xs rule: verify_from.induct) (auto split: if_splits sum.splits)

lemma verifyChainEntries_accepts: "verifyChainEntries jn es = (k, None) \<Longrightarrow> k = 0"
  using verify_from_accepts by (auto simp: verifyChainEntries_def split: if_splits)

lemma next_entry_tenant: "next_entry jn t a ac et ei p sv tail now = Inr e \<Longrightarrow> ae_TenantID e = t"
  by (auto simp: next_entry_def draft_entry_def Let_def split: sum.splits)

text \<open>A reflexive and transitive relation that the reads, the clock, the log and the append of the entry
  just built keep to, \<open>Record\<close> keeps to.\<close>

lemma record_loop_moves:
  assumes refl: "\<And>s. K s s" and trans: "\<And>s s1 s2. K s s1 \<Longrightarrow> K s1 s2 \<Longrightarrow> K s s2"
    and tail: "\<And>s. K s (snd (adt_Tail (ads_repo svc) t s))" and now: "\<And>s. K s (snd (ads_now svc s))"
    and log: "\<And>l s. K s (ads_log svc l s)"
    and append: "\<And>s tl s1 n s2 e. adt_Tail (ads_repo svc) t s = (Ok tl, s1) \<Longrightarrow> ads_now svc s1 = (n, s2) \<Longrightarrow>
      next_entry jn t a ac et ei p sv tl n = Inr e \<Longrightarrow> K s2 (snd (adt_Append (ads_repo svc) e s2))"
  shows "K s (snd (record_loop n jn svc t a ac et ei p sv s))"
proof (induction n arbitrary: s)
  case 0
  then show ?case by (simp add: log_Warn_def log)
next
  case (Suc n)
  obtain rt s1 where tl: "adt_Tail (ads_repo svc) t s = (rt, s1)" by fastforce
  obtain m s2 where clk: "ads_now svc s1 = (m, s2)" by fastforce
  have K: "K s s1" "K s s2" using tail [of s] trans [of s s1 s2] now [of s1] tl clk by simp_all
  have warn: "K s (warn_audit svc msg tn act e s')" if "K s s'" for msg tn act e s'
    using trans [OF that log] by (simp add: warn_audit_def log_Warn_def)
  have ap: "K s s3" if "rt = Ok tl'" "next_entry jn t a ac et ei p sv tl' m = Inr e" "adt_Append (ads_repo svc) e s2 = (ra, s3)" for tl' e ra s3
    using append [of s tl' s1 m s2 e] tl clk that trans [OF K(2)] by simp
  show ?case
    using K warn ap trans [OF ap Suc.IH] by (auto simp: tl clk split: res.splits sum.splits prod.splits)
qed

lemma Record_moves:
  assumes "\<And>s. K s s" "\<And>s s1 s2. K s s1 \<Longrightarrow> K s1 s2 \<Longrightarrow> K s s2"
    and "\<And>s. K s (snd (adt_Tail (ads_repo svc) t s))" "\<And>s. K s (snd (ads_now svc s))" "\<And>l s. K s (ads_log svc l s)"
    and "\<And>s tl s1 n s2 e sv. adt_Tail (ads_repo svc) t s = (Ok tl, s1) \<Longrightarrow> ads_now svc s1 = (n, s2) \<Longrightarrow>
      next_entry jn t a ac et ei p sv tl n = Inr e \<Longrightarrow> K s2 (snd (adt_Append (ads_repo svc) e s2))"
  shows "K s (snd (AuditService_Record jn svc t a ac et ei p sv s))"
  using record_loop_moves [of K, OF assms] assms(1) by (simp add: AuditService_Record_def del: record_loop.simps)

text \<open>In particular, whatever part of the world the collaborators leave alone, \<open>Record\<close> leaves alone.\<close>

lemma Record_frame:
  assumes "\<And>s. v (snd (adt_Tail (ads_repo svc) t s)) = v s"
    and "\<And>e s. ae_TenantID e = t \<Longrightarrow> v (snd (adt_Append (ads_repo svc) e s)) = v s"
    and "\<And>l s. v (ads_log svc l s) = v s" "\<And>s. v (snd (ads_now svc s)) = v s"
  shows "v (snd (AuditService_Record jn svc t a ac et ei p sv s)) = v s"
  by (rule Record_moves [where K = "\<lambda>s s'. v s' = v s"]) (use assms next_entry_tenant in auto)

section \<open>The repository interface\<close>

text \<open>\<open>chain s t\<close> is the trail of tenant \<open>t\<close> in order of \<open>seq\<close>, as it reads back; \<open>storable e\<close>
  says the columns give \<open>e\<close> back unchanged as far as the hash reads it.\<close>

locale audit_repository =
  fixes jn :: json_norm
    and repo :: "'s AuditRepository"
    and chain :: "'s \<Rightarrow> string \<Rightarrow> AuditEntry list"
    and kept :: "int \<Rightarrow> AuditEntry \<Rightarrow> AuditEntry"
    and tenant :: "string \<Rightarrow> bool"
    and storable :: "AuditEntry \<Rightarrow> bool"
  assumes storable_tenant: "storable e \<Longrightarrow> tenant (ae_TenantID e)"
    and storable_link: "storable e \<Longrightarrow>
      storable (e\<lparr>ae_Seq := n, ae_PrevHash := h, ae_ChainHash := c, ae_CreatedAt := Truncate now Microsecond\<rparr>)"
    and kept_link: "storable e \<Longrightarrow> link_ok jn i p (kept k e) = link_ok jn i p e"
    and tail_reads: "chain (snd (adt_Tail repo t s)) = chain s"
    and tail_describes: "adt_Tail repo t s = (Ok tail, s') \<Longrightarrow> tenant t \<Longrightarrow>
      distinct (map ae_Seq (chain s t)) \<Longrightarrow> describes tail (chain s t)"
    and append_Ok: "adt_Append repo e s = (Ok u, s') \<Longrightarrow> storable e \<Longrightarrow> (\<forall>d \<in> set (chain s (ae_TenantID e)). ae_Seq d < ae_Seq e) \<Longrightarrow>
      \<exists>k. chain s' = (chain s)(ae_TenantID e := chain s (ae_TenantID e) @ [kept k e])"
    and append_fail: "adt_Append repo e s = (r, s') \<Longrightarrow> storable e \<Longrightarrow> (\<forall>d \<in> set (chain s (ae_TenantID e)). ae_Seq d < ae_Seq e) \<Longrightarrow>
      chain s' = chain s \<or> (\<exists>k. chain s' = (chain s)(ae_TenantID e := chain s (ae_TenantID e) @ [kept k e]))"
    and append_conflict: "adt_Append repo e s = (Err er, s') \<Longrightarrow> errors_Is er ErrConflict \<Longrightarrow> chain s' = chain s"
    and list_reads: "chain (snd (adt_ListByTenant repo t s)) = chain s"
    and list_Ok: "adt_ListByTenant repo t s = (Ok es, s') \<Longrightarrow> tenant t \<Longrightarrow> es = map Some (chain s t)"
    and recent_reads: "chain (snd (adt_ListRecent repo t n s)) = chain s"
    and recent_Ok: "adt_ListRecent repo t n s = (Ok es, s') \<Longrightarrow> tenant t \<Longrightarrow>
      distinct (map ae_Seq (chain s t)) \<Longrightarrow> es = map Some (take (nat n) (rev (chain s t)))"

text \<open>The service adds a logger and a clock that leave the trail alone.\<close>

locale audit_service = audit_repository jn "ads_repo svc" chain kept tenant storable
  for jn and svc :: "'s auditService" and chain kept tenant storable +
  assumes log_chain: "chain (ads_log svc l s) = chain s"
    and now_chain: "chain (snd (ads_now svc s)) = chain s"
begin

definition recorded :: "string \<Rightarrow> string \<Rightarrow> string \<Rightarrow> string \<Rightarrow> string \<Rightarrow> string option \<Rightarrow> string \<Rightarrow> AuditEntry list \<Rightarrow> AuditEntry list \<Rightarrow> bool" where
  "recorded t a ac et ei p sv es new \<longleftrightarrow>
     (\<exists>tail now e k. next_entry jn t a ac et ei p sv tail now = Inr e \<and> describes tail es \<and> new = [kept k e])"

lemma storable_draft:
  assumes "storable (draft_entry t a ac et ei p sv None 0)" "next_entry jn t a ac et ei p sv tail now = Inr e"
  shows "storable e"
proof -
  from assms(2) obtain c where e: "e = (draft_entry t a ac et ei p sv None 0)\<lparr>ae_Seq := next_seq tail,
      ae_PrevHash := next_prev tail, ae_ChainHash := c, ae_CreatedAt := Truncate now Microsecond\<rparr>"
    by (auto simp: next_entry_def draft_entry_def Let_def split: sum.splits)
  show ?thesis unfolding e by (rule storable_link [OF assms(1)])
qed

lemma recorded_intact:
  assumes "recorded t a ac et ei p sv es new" "intact jn es" "storable (draft_entry t a ac et ei p sv None 0)"
  shows "intact jn (es @ new)"
proof -
  from assms(1) obtain tail now e k where
    e: "next_entry jn t a ac et ei p sv tail now = Inr e" "describes tail es" "new = [kept k e]"
    by (auto simp: recorded_def)
  have "storable e"
    using storable_draft [OF assms(3) e(1)] .
  with e next_entry_links [OF e(1) assms(2) e(2)] assms(2) show ?thesis
    by (simp add: chain_ok_snoc kept_link)
qed

lemma chain_warn: "chain (warn_audit svc m t a er s) = chain s"
  by (simp add: warn_audit_def log_Warn_def log_chain)

lemma next_entry_last:
  assumes "next_entry jn t a ac et ei p sv tail now = Inr e" "intact jn es" "describes tail es"
  shows "\<forall>d \<in> set es. ae_Seq d < ae_Seq e"
proof -
  from next_entry_links [OF assms] have "ae_Seq e = int (Suc (length es))" by (simp add: link_ok_def)
  moreover have "ae_Seq ` set es = int ` {Suc 0..<Suc (length es)}"
    using arg_cong [OF chain_ok_seqs [OF assms(2)], of set] by (simp del: upt_Suc)
  then have "ae_Seq d < int (Suc (length es))" if "d \<in> set es" for d
    using that by (metis (no_types, lifting) atLeastLessThan_iff imageE imageI of_nat_less_iff)
  ultimately show ?thesis by simp
qed

definition grew :: "string \<Rightarrow> string \<Rightarrow> string \<Rightarrow> string \<Rightarrow> string \<Rightarrow> string option \<Rightarrow> string \<Rightarrow>
    (string \<Rightarrow> AuditEntry list) \<Rightarrow> (string \<Rightarrow> AuditEntry list) \<Rightarrow> bool" where
  "grew t a ac et ei p sv c c' \<longleftrightarrow>
     (\<exists>new. recorded t a ac et ei p sv (c t) new \<and> c' = c(t := c t @ new))"

text \<open>The append of one attempt, after the tail it was built from.\<close>

lemma attempt_append:
  assumes e: "next_entry jn t a ac et ei p sv tail now = Inr e" "intact jn (chain s t)" "describes tail (chain s t)"
    and st: "storable (draft_entry t a ac et ei p sv None 0)"
    and ap: "adt_Append (ads_repo svc) e s = (r, s')"
  shows "(r \<noteq> Ok () \<and> chain s' = chain s) \<or> grew t a ac et ei p sv (chain s) (chain s')"
proof -
  have et: "ae_TenantID e = t" using next_entry_fields [OF e(1)] by simp
  have lst: "\<forall>d \<in> set (chain s (ae_TenantID e)). ae_Seq d < ae_Seq e"
    using next_entry_last [OF e] et by simp
  have gr: "grew t a ac et ei p sv (chain s) ((chain s)(t := chain s t @ [kept k e]))" for k
    unfolding grew_def recorded_def using e by blast
  show ?thesis
    using append_fail [OF ap storable_draft [OF st e(1)] lst] append_Ok [OF _ storable_draft [OF st e(1)] lst] ap et gr
    by metis
qed

lemma record_loop_appends:
  assumes "record_loop n jn svc t a ac et ei p sv s = (r, s')"
    and "intact jn (chain s t)" "storable (draft_entry t a ac et ei p sv None 0)"
  shows "(r \<noteq> Ok () \<and> chain s' = chain s) \<or> grew t a ac et ei p sv (chain s) (chain s')"
  using assms(1,2)
proof (induction n arbitrary: s)
  case 0
  then show ?case by (auto simp: log_Warn_def log_chain)
next
  case (Suc n)
  obtain rt s1 where tl: "adt_Tail (ads_repo svc) t s = (rt, s1)" by fastforce
  have c1: "chain s1 = chain s" using tail_reads [of t s] tl by simp
  obtain now s2 where clk: "ads_now svc s1 = (now, s2)" by fastforce
  have c2: "chain s2 = chain s" using now_chain [of s1] clk c1 by simp
  note run = Suc.prems(1) [unfolded record_loop.simps tl prod.case Let_def clk]
  show ?case
  proof (cases "\<exists>tail e. rt = Ok tail \<and> next_entry jn t a ac et ei p sv tail now = Inr e")
    case False
    with run c1 c2 show ?thesis
      by (auto simp: chain_warn split: res.splits sum.splits)
  next
    case True
    then obtain tail e where rt: "rt = Ok tail" and e: "next_entry jn t a ac et ei p sv tail now = Inr e" by auto
    have tail: "describes tail (chain s2 t)"
      using tail_describes [of t s tail s1] tl rt storable_tenant [OF assms(3)] c2 chain_ok_distinct [OF Suc.prems(2)]
      by (simp add: draft_entry_def)
    have int: "intact jn (chain s2 t)" using Suc.prems c2 by simp
    obtain ra s3 where ap: "adt_Append (ads_repo svc) e s2 = (ra, s3)" by fastforce
    note eff = attempt_append [OF e int tail assms(3) ap]
    show ?thesis
    proof (cases "\<exists>er. ra = Err er \<and> errors_Is er ErrConflict")
      case False
      with run rt e ap eff c2 show ?thesis by (auto simp: chain_warn split: res.splits if_splits)
    next
      case True
      then obtain er where er: "ra = Err er" "errors_Is er ErrConflict" by blast
      have c3: "chain s3 = chain s" using append_conflict [of e s2 er s3] ap er c2 by simp
      have "record_loop n jn svc t a ac et ei p sv s3 = (r, s')" using run rt e ap er by simp
      from Suc.IH [OF this] Suc.prems(2) c3 show ?thesis by simp
    qed
  qed
qed

text \<open>\<open>Record\<close> appends at most the one entry it built and never breaks a chain.\<close>

lemma Record_appends:
  assumes "AuditService_Record jn svc t a ac et ei p sv s = (r, s')"
    and "intact jn (chain s t)"
    and "storable (draft_entry t a ac et ei p (if sv = [] then SeverityInfo else sv) None 0)"
  shows "(r \<noteq> Ok () \<and> chain s' = chain s) \<or>
    grew t a ac et ei p (if sv = [] then SeverityInfo else sv) (chain s) (chain s')"
  using assms record_loop_appends [OF _ assms(2,3)]
  by (auto simp: AuditService_Record_def simp del: record_loop.simps split: if_splits)

lemma Record_intact:
  assumes "AuditService_Record jn svc t a ac et ei p sv s = (r, s')"
    and "\<And>u. intact jn (chain s u)"
    and "storable (draft_entry t a ac et ei p (if sv = [] then SeverityInfo else sv) None 0)"
  shows "intact jn (chain s' u)"
  using Record_appends [OF assms(1) _ assms(3)] assms(2) recorded_intact [OF _ _ assms(3)]
  by (auto simp: grew_def fun_upd_def)

lemma Latest_recent:
  assumes "AuditService_Latest svc t n s = (Ok es, s')" "tenant t" "distinct (map ae_Seq (chain s t))"
  shows "0 < n \<and> es = map Some (take (nat n) (rev (chain s t)))"
  using assms recent_Ok by (auto simp: AuditService_Latest_def split: if_splits)

lemma VerifyChain_sound:
  assumes "AuditService_VerifyChain jn svc t s = (Ok (k, None), s')" "tenant t"
  shows "k = 0 \<and> intact jn (chain s t)"
proof -
  from assms obtain es s1 where l: "adt_ListByTenant (ads_repo svc) t s = (Ok es, s1)"
    "verifyChainEntries jn es = (k, None)"
    by (auto simp: AuditService_VerifyChain_def split: if_splits prod.splits res.splits)
  then have es: "verifyChainEntries jn (map Some (chain s t)) = (k, None)"
    using list_Ok [OF l(1) assms(2)] by simp
  then have "k = 0" using verify_from_accepts by (auto simp: verifyChainEntries_def split: if_splits)
  with es show ?thesis using verifyChainEntries_iff by metis
qed

lemma VerifyChain_reads: "chain (snd (AuditService_VerifyChain jn svc t s)) = chain s"
  using list_reads [of t s] by (auto simp: AuditService_VerifyChain_def split: prod.splits res.splits)

lemma VerifyChain_complete:
  assumes "adt_ListByTenant (ads_repo svc) t s = (Ok es, s1)" "tenant t" "t \<noteq> []" "intact jn (chain s t)"
  shows "AuditService_VerifyChain jn svc t s = (Ok (0, None), s1)"
  using assms list_Ok [OF assms(1,2)] verifyChainEntries_iff [of jn "chain s t"]
  by (simp add: AuditService_VerifyChain_def)

end

end
