(* ===== verification/Audit_Repo.thy ===== *)
theory Audit_Repo
  imports Postgres Audit_Service
begin

text \<open>
  \<^verbatim>\<open>internal/infrastructure/postgres/audit_repo.go\<close> over the table \<open>app.audit_log\<close> of the
  migrations. \<open>trail pg d t\<close> is the abstract trail of tenant \<open>t\<close>: its rows in order of \<open>seq\<close>, as
  they read back. The interpretation \<open>audit_pg\<close> discharges the laws of \<open>audit_repository\<close> for this
  adapter on any PostgreSQL parameter, \<open>storable\<close> naming what the columns must keep.
\<close>

text \<open>The row an insert writes: \<open>NULLIF\<close> turns an empty actor or entity id into NULL, a nil payload
  slice is sent as NULL.\<close>

definition audit_insert_row :: "PG \<Rightarrow> AuditEntry \<Rightarrow> int \<Rightarrow> audit_row res" where
  "audit_insert_row pg e serial =
     bind1 (uuid_param pg (ae_TenantID e)) (\<lambda>tid.
     bind1 (nullable_uuid_param pg (ae_ActorUserID e)) (\<lambda>actor.
     bind1 (case ae_Payload e of
              None \<Rightarrow> Ok None
            | Some p \<Rightarrow> (case pg_jsonb pg p of None \<Rightarrow> Err (PgError ''22P02'') | Some q \<Rightarrow> Ok (Some q))) (\<lambda>payload.
     check ''22021'' (list_all (pg_text pg)
         [ae_Action e, ae_EntityType e, ae_EntityID e, ae_PrevHash e, ae_ChainHash e, ae_Severity e])
       (Ok \<lparr>r_id = serial, r_tenant_id = tid, r_actor_user_id = actor, r_action = ae_Action e,
            r_entity_type = ae_EntityType e,
            r_entity_id = (if ae_EntityID e = [] then None else Some (ae_EntityID e)),
            r_payload = payload, r_created_at = pg_ts pg (ae_CreatedAt e), r_seq = ae_Seq e,
            r_prev_hash = ae_PrevHash e, r_chain_hash = ae_ChainHash e,
            r_severity = ae_Severity e\<rparr>))))"

definition audit_insert :: "PG \<Rightarrow> AuditEntry \<Rightarrow> string option \<Rightarrow> time \<Rightarrow> db \<Rightarrow> unit res \<times> db" where
  "audit_insert pg e cur now d = insert_stmt (audit_insert_row pg e (audit_serial d))
     (\<lambda>row.
       check ''42501'' (policy cur (r_tenant_id row))
       (check ''23505'' (\<forall>r \<in> set (audit_log d). \<not> (r_tenant_id r = r_tenant_id row \<and> r_seq r = r_seq row))
       (check ''23503'' (r_tenant_id row \<in> t_ID ` set (tenants d))
       (check ''23503'' (case r_actor_user_id row of None \<Rightarrow> True | Some a \<Rightarrow> a \<in> u_ID ` set (users d))
          (Ok ())))))
     (\<lambda>row d. d\<lparr>audit_log := audit_log d @ [row], audit_serial := audit_serial d + 1\<rparr>) d"

definition AuditRepo_Append :: "PG \<Rightarrow> AuditEntry \<Rightarrow> world \<Rightarrow> unit res \<times> world" where
  "AuditRepo_Append pg entry =
     WithTenant (ae_TenantID entry) (\<lambda>g w.
       mapR ''insert audit entry'' (rls_exec pg g (audit_insert pg entry) w))"

text \<open>\<open>FOR UPDATE\<close> locks the newest row until the transaction ends, which is before \<open>Tail\<close> returns.
  Only \<open>Seq\<close> and \<open>ChainHash\<close> are scanned; every other field keeps its zero value.\<close>

definition zero_entry :: AuditEntry where
  "zero_entry = \<lparr>ae_ID = 0, ae_TenantID = [], ae_ActorUserID = [], ae_Action = [], ae_EntityType = [],
     ae_EntityID = [], ae_Payload = None, ae_CreatedAt = zero_Time, ae_Seq = 0, ae_PrevHash = [],
     ae_ChainHash = [], ae_Severity = []\<rparr>"

definition AuditRepo_Tail :: "PG \<Rightarrow> string \<Rightarrow> world \<Rightarrow> AuditEntry option res \<times> world" where
  "AuditRepo_Tail pg tenantID = WithTenant tenantID (\<lambda>g w.
     maybeR ''query audit tail'' (rls_query pg g (\<lambda>cur d.
       bind1 (first_row (sort_by (\<lambda>a b. r_seq b \<le> r_seq a) (visible r_tenant_id cur (audit_log d))))
         (\<lambda>row. Ok (zero_entry\<lparr>ae_Seq := r_seq row, ae_ChainHash := r_chain_hash row\<rparr>))) w))"

text \<open>\<open>COALESCE\<close> on the way out.\<close>

definition read_row :: "audit_row \<Rightarrow> AuditEntry" where
  "read_row r = \<lparr>ae_ID = r_id r, ae_TenantID = r_tenant_id r,
     ae_ActorUserID = string_or_empty (r_actor_user_id r), ae_Action = r_action r,
     ae_EntityType = r_entity_type r, ae_EntityID = string_or_empty (r_entity_id r),
     ae_Payload = Some (case r_payload r of None \<Rightarrow> ''null'' | Some p \<Rightarrow> p),
     ae_CreatedAt = r_created_at r, ae_Seq = r_seq r, ae_PrevHash = r_prev_hash r,
     ae_ChainHash = r_chain_hash r, ae_Severity = r_severity r\<rparr>"

definition AuditRepo_ListByTenant :: "PG \<Rightarrow> string \<Rightarrow> world \<Rightarrow> AuditEntry option list res \<times> world" where
  "AuditRepo_ListByTenant pg tenantID = WithTenant tenantID (\<lambda>g w.
     wrapR ''list audit entries'' (rls_query pg g (\<lambda>cur d.
       Ok (map (Some \<circ> read_row) (sort_by (\<lambda>a b. r_seq a \<le> r_seq b) (visible r_tenant_id cur (audit_log d))))) w))"

definition AuditRepo_ListRecent :: "PG \<Rightarrow> string \<Rightarrow> int \<Rightarrow> world \<Rightarrow> AuditEntry option list res \<times> world" where
  "AuditRepo_ListRecent pg tenantID limit = WithTenant tenantID (\<lambda>g w.
     wrapR ''list recent audit entries'' (rls_query pg g (\<lambda>cur d.
       check ''2201W'' (0 \<le> limit)
         (Ok (map (Some \<circ> read_row) (take (nat limit)
           (sort_by (\<lambda>a b. r_seq b \<le> r_seq a) (visible r_tenant_id cur (audit_log d))))))) w))"

definition NewAuditRepo :: "PG \<Rightarrow> world AuditRepository" where
  "NewAuditRepo pg = \<lparr>adt_Append = AuditRepo_Append pg, adt_Tail = AuditRepo_Tail pg,
     adt_ListByTenant = AuditRepo_ListByTenant pg, adt_ListRecent = AuditRepo_ListRecent pg\<rparr>"

section \<open>The trail\<close>

definition trail :: "db \<Rightarrow> string \<Rightarrow> AuditEntry list" where
  "trail d t = map read_row (sort_by (\<lambda>a b. r_seq a \<le> r_seq b) (filter (\<lambda>r. r_tenant_id r = t) (audit_log d)))"

text \<open>A tenant id in the form the database prints it.\<close>

definition canonical_tenant :: "PG \<Rightarrow> string \<Rightarrow> bool" where
  "canonical_tenant pg t \<longleftrightarrow> t \<noteq> [] \<and> pg_uuid pg t = Some t"

text \<open>What PostgreSQL and \<open>encoding/json\<close> are documented to do with the columns of the trail: a
  \<open>timestamptz\<close> keeps microseconds, \<open>jsonb\<close> keeps the meaning of a document and rejects an empty
  one.\<close>

definition pg_laws :: "json_norm \<Rightarrow> PG \<Rightarrow> bool" where
  "pg_laws jn pg \<longleftrightarrow> (\<forall>t. pg_ts pg (Truncate t Microsecond) = Truncate t Microsecond) \<and>
     jn ''null'' = Inr ''null'' \<and> pg_jsonb pg [] = None \<and>
     (\<forall>p q. pg_jsonb pg p = Some q \<longrightarrow> q \<noteq> [] \<and> jn q = jn p)"

definition storable :: "json_norm \<Rightarrow> PG \<Rightarrow> AuditEntry \<Rightarrow> bool" where
  "storable jn pg e \<longleftrightarrow> pg_laws jn pg \<and> canonical_tenant pg (ae_TenantID e) \<and>
     (ae_ActorUserID e = [] \<or> pg_uuid pg (ae_ActorUserID e) = Some (ae_ActorUserID e)) \<and>
     (\<exists>t. ae_CreatedAt e = Truncate t Microsecond)"

definition kept :: "PG \<Rightarrow> int \<Rightarrow> AuditEntry \<Rightarrow> AuditEntry" where
  "kept pg serial e = e\<lparr>ae_ID := serial,
     ae_Payload := Some (case ae_Payload e of None \<Rightarrow> ''null''
       | Some p \<Rightarrow> (case pg_jsonb pg p of Some q \<Rightarrow> q | None \<Rightarrow> p))\<rparr>"

lemma read_insert_row:
  assumes "audit_insert_row pg e k = Ok row" "storable jn pg e"
  shows "read_row row = kept pg k e"
proof -
  from assms obtain tid actor payload where
    p: "pg_uuid pg (ae_TenantID e) = Some tid" "nullable_uuid_param pg (ae_ActorUserID e) = Ok actor"
    and q: "(case ae_Payload e of None \<Rightarrow> Ok None
      | Some p \<Rightarrow> (case pg_jsonb pg p of None \<Rightarrow> Err (PgError ''22P02'') | Some q \<Rightarrow> Ok (Some q))) = Ok payload"
    and row: "row = \<lparr>r_id = k, r_tenant_id = tid, r_actor_user_id = actor, r_action = ae_Action e,
            r_entity_type = ae_EntityType e,
            r_entity_id = (if ae_EntityID e = [] then None else Some (ae_EntityID e)),
            r_payload = payload, r_created_at = pg_ts pg (ae_CreatedAt e), r_seq = ae_Seq e,
            r_prev_hash = ae_PrevHash e, r_chain_hash = ae_ChainHash e,
            r_severity = ae_Severity e\<rparr>"
    by (auto simp: audit_insert_row_def)
  have "tid = ae_TenantID e" using assms(2) p(1) by (simp add: storable_def canonical_tenant_def)
  moreover have "string_or_empty actor = ae_ActorUserID e"
    using assms(2) p(2) by (auto simp: nullable_uuid_param_Ok storable_def split: if_splits)
  moreover have "pg_ts pg (ae_CreatedAt e) = ae_CreatedAt e"
    using assms(2) by (auto simp: storable_def pg_laws_def)
  moreover have "(case payload of None \<Rightarrow> ''null'' | Some p \<Rightarrow> p) = (case ae_Payload e of None \<Rightarrow> ''null''
      | Some p \<Rightarrow> (case pg_jsonb pg p of Some q \<Rightarrow> q | None \<Rightarrow> p))"
    using q by (auto split: option.splits)
  ultimately show ?thesis by (simp add: row read_row_def kept_def)
qed

lemma kept_canon:
  assumes "storable jn pg e"
  shows "CanonicalizeEntry jn (ae_Payload (kept pg k e)) = CanonicalizeEntry jn (ae_Payload e)"
  using assms
  by (auto simp: CanonicalizeEntry_def kept_def storable_def pg_laws_def split: option.splits)

lemma kept_fields: "hash_fields p n (kept pg k e) c = hash_fields p n e c"
  by (simp add: hash_fields_def kept_def)

lemma kept_simps [simp]:
  "ae_Seq (kept pg k e) = ae_Seq e" "ae_PrevHash (kept pg k e) = ae_PrevHash e"
  "ae_ChainHash (kept pg k e) = ae_ChainHash e" "ae_TenantID (kept pg k e) = ae_TenantID e"
  by (simp_all add: kept_def)

lemma kept_link: "storable jn pg e \<Longrightarrow> link_ok jn i p (kept pg k e) = link_ok jn i p e"
  using kept_canon [of jn pg e k]
  by (simp add: link_ok_def HashChainEntry_def kept_fields split: sum.split)

lemma storable_link:
  "storable jn pg e \<Longrightarrow> storable jn pg
     (e\<lparr>ae_Seq := n, ae_PrevHash := h, ae_ChainHash := c, ae_CreatedAt := Truncate now Microsecond\<rparr>)"
  by (auto simp: storable_def)

section \<open>The adapter meets the contract\<close>

lemma trail_append_row:
  assumes "\<forall>x \<in> set (trail d (r_tenant_id row)). ae_Seq x \<le> r_seq row"
  shows "trail (d\<lparr>audit_log := audit_log d @ [row], audit_serial := k\<rparr>) =
    (trail d)(r_tenant_id row := trail d (r_tenant_id row) @ [read_row row])"
  using assms by (auto simp: trail_def sort_by_snoc read_row_def)

lemma audit_insert_trail:
  assumes "audit_insert pg e cur now d = (Ok u, d')" "storable jn pg e"
    and "\<forall>x \<in> set (trail d (ae_TenantID e)). ae_Seq x < ae_Seq e"
  shows "\<exists>k. trail d' = (trail d)(ae_TenantID e := trail d (ae_TenantID e) @ [kept pg k e])"
proof -
  from assms(1) obtain row where row: "audit_insert_row pg e (audit_serial d) = Ok row"
    and d': "d' = d\<lparr>audit_log := audit_log d @ [row], audit_serial := audit_serial d + 1\<rparr>"
    by (auto simp: audit_insert_def insert_stmt_Ok)
  note rd = read_insert_row [OF row assms(2)]
  have "r_tenant_id row = ae_TenantID e" "r_seq row = ae_Seq e"
    using arg_cong [OF rd, of ae_TenantID] arg_cong [OF rd, of ae_Seq] by (simp_all add: read_row_def)
  then have "trail d' = (trail d)(ae_TenantID e := trail d (ae_TenantID e) @ [kept pg (audit_serial d) e])"
    using trail_append_row [of d row "audit_serial d + 1"] assms(3) rd d' by (simp add: less_imp_le)
  then show ?thesis by blast
qed

abbreviation world_trail :: "world \<Rightarrow> string \<Rightarrow> AuditEntry list" where
  "world_trail w \<equiv> trail (w_db w)"

lemma append_db:
  assumes "AuditRepo_Append pg e w = (r, w')"
  shows "w_db w' = w_db w \<or> (\<exists>cur now u. audit_insert pg e cur now (w_db w) = (Ok u, w_db w'))"
  using WithTenant_db [OF assms [unfolded AuditRepo_Append_def]] by (auto dest!: rls_exec_Ok)

lemma append_Ok:
  assumes "AuditRepo_Append pg e w = (Ok u, w')"
  shows "\<exists>cur now. audit_insert pg e cur now (w_db w) = (Ok u, w_db w')"
proof -
  from assms obtain w1 w2 where "mapR ''insert audit entry'' (rls_exec pg (ae_TenantID e) (audit_insert pg e) w1) = (Ok u, w2)"
    "w_db w1 = w_db w" "w_db w' = w_db w2"
    unfolding AuditRepo_Append_def by (rule WithTenant_Ok)
  then have "rls_exec pg (ae_TenantID e) (audit_insert pg e) w1 = (Ok u, w2)" by simp
  from rls_exec_Ok [OF this] \<open>w_db w1 = w_db w\<close> \<open>w_db w' = w_db w2\<close> show ?thesis
    by (elim exE conjE) (intro exI, simp)
qed

lemma audit_reads:
  "w_db (snd (AuditRepo_Tail pg t w)) = w_db w"
  "w_db (snd (AuditRepo_ListByTenant pg t w)) = w_db w"
  "w_db (snd (AuditRepo_ListRecent pg t n w)) = w_db w"
  unfolding AuditRepo_Tail_def AuditRepo_ListByTenant_def AuditRepo_ListRecent_def
  by (rule WithTenant_reads, simp)+

text \<open>Under a canonical tenant a query sees exactly the tenant's rows.\<close>

lemma tenant_query:
  assumes "rls_query pg t q w = (Ok x, w')" "canonical_tenant pg t"
  shows "q (Some t) (w_db w) = Ok x"
  using rls_query_Ok [OF assms(1)] assms(2) by (auto simp: canonical_tenant_def)

lemma tenant_query_none:
  assumes "rls_query pg t q w = (Err e, w')" "errors_Is e ErrNoRows" "canonical_tenant pg t"
  shows "q (Some t) (w_db w) = Err e"
  using rls_exec_Err [OF assms(1) [unfolded rls_query_def]] assms(2,3) by (auto simp: canonical_tenant_def)

lemma trail_last:
  assumes "distinct (map ae_Seq (trail d t))"
    and "sort_by (\<lambda>a b. r_seq b \<le> r_seq a) (filter (\<lambda>r. r_tenant_id r = t) (audit_log d)) = r # rs"
  shows "trail d t = map read_row (rev rs) @ [read_row r]"
proof -
  have "distinct (map r_seq (filter (\<lambda>r. r_tenant_id r = t) (audit_log d)))"
    using assms(1) by (simp add: trail_def comp_def read_row_def)
  from sort_by_desc [OF this] assms(2)
  have "rev (sort_by (\<lambda>a b. r_seq a \<le> r_seq b) (filter (\<lambda>r. r_tenant_id r = t) (audit_log d))) = r # rs"
    by simp
  then have "sort_by (\<lambda>a b. r_seq a \<le> r_seq b) (filter (\<lambda>r. r_tenant_id r = t) (audit_log d)) = rev rs @ [r]"
    by (simp only: rev_swap rev.simps)
  then show ?thesis by (simp add: trail_def)
qed

lemma tail_describes:
  assumes "AuditRepo_Tail pg t w = (Ok tail, w')" "canonical_tenant pg t" "distinct (map ae_Seq (trail (w_db w) t))"
  shows "describes tail (trail (w_db w) t)"
proof -
  let ?q = "\<lambda>cur d. bind1 (first_row (sort_by (\<lambda>a b. r_seq b \<le> r_seq a) (visible r_tenant_id cur (audit_log d))))
         (\<lambda>row. Ok (zero_entry\<lparr>ae_Seq := r_seq row, ae_ChainHash := r_chain_hash row\<rparr>))"
  let ?rows = "sort_by (\<lambda>a b. r_seq b \<le> r_seq a) (filter (\<lambda>r. r_tenant_id r = t) (audit_log (w_db w)))"
  from assms(1) obtain w1 w2 where m: "maybeR ''query audit tail'' (rls_query pg t ?q w1) = (Ok tail, w2)"
    and db: "w_db w1 = w_db w"
    unfolding AuditRepo_Tail_def by (rule WithTenant_Ok)
  show ?thesis
  proof (cases tail)
    case None
    with m obtain e where e: "rls_query pg t ?q w1 = (Err e, w2)" "errors_Is e ErrNoRows"
      by (auto simp: maybeR_Ok)
    have "first_row ?rows = Err e \<or> ?rows = []"
      using tenant_query_none [OF e assms(2)] db by (auto simp: bind1_def split: res.splits)
    then have "?rows = []" by (auto simp: first_row_def split: list.splits)
    then have "set ?rows = {}" by simp
    then have "filter (\<lambda>r. r_tenant_id r = t) (audit_log (w_db w)) = []" by (simp only: set_sort_by set_empty)
    then show ?thesis by (simp add: None describes_def trail_def)
  next
    case (Some e)
    with m have "rls_query pg t ?q w1 = (Ok e, w2)" by (simp add: maybeR_Ok)
    from tenant_query [OF this assms(2)] db obtain r rs where
      "?rows = r # rs" "e = zero_entry\<lparr>ae_Seq := r_seq r, ae_ChainHash := r_chain_hash r\<rparr>"
      by (cases ?rows) auto
    with trail_last [OF assms(3)] show ?thesis by (simp add: Some describes_def read_row_def)
  qed
qed

lemma list_Ok:
  assumes "AuditRepo_ListByTenant pg t w = (Ok es, w')" "canonical_tenant pg t"
  shows "es = map Some (trail (w_db w) t)"
proof -
  from assms(1) obtain w1 w2 where "rls_query pg t (\<lambda>cur d.
       Ok (map (Some \<circ> read_row) (sort_by (\<lambda>a b. r_seq a \<le> r_seq b) (visible r_tenant_id cur (audit_log d))))) w1 = (Ok es, w2)"
    "w_db w1 = w_db w"
    unfolding AuditRepo_ListByTenant_def by (elim WithTenant_Ok) simp
  with tenant_query [OF _ assms(2)] show ?thesis by (fastforce simp: trail_def)
qed

lemma recent_Ok:
  assumes "AuditRepo_ListRecent pg t n w = (Ok es, w')" "canonical_tenant pg t" "distinct (map ae_Seq (trail (w_db w) t))"
  shows "es = map Some (take (nat n) (rev (trail (w_db w) t)))"
proof -
  let ?rows = "filter (\<lambda>r. r_tenant_id r = t) (audit_log (w_db w))"
  from assms(1) obtain w1 w2 where "rls_query pg t (\<lambda>cur d. check ''2201W'' (0 \<le> n)
         (Ok (map (Some \<circ> read_row) (take (nat n)
           (sort_by (\<lambda>a b. r_seq b \<le> r_seq a) (visible r_tenant_id cur (audit_log d))))))) w1 = (Ok es, w2)"
    "w_db w1 = w_db w"
    unfolding AuditRepo_ListRecent_def by (elim WithTenant_Ok) simp
  with tenant_query [OF _ assms(2)] have es: "es = map (Some \<circ> read_row) (take (nat n) (sort_by (\<lambda>a b. r_seq b \<le> r_seq a) ?rows))"
    by fastforce
  have "distinct (map r_seq ?rows)"
    using assms(3) by (simp add: trail_def comp_def read_row_def)
  from es sort_by_desc [OF this] show ?thesis by (simp add: trail_def rev_map take_map)
qed

text \<open>A failed append changed nothing or, when only its acknowledgement was lost, appended; a conflict
  changed nothing.\<close>

lemma append_conflict:
  assumes "AuditRepo_Append pg e w = (Err er, w')" "errors_Is er ErrConflict"
  shows "w_db w' = w_db w"
  using assms
  by (auto simp: AuditRepo_Append_def WithTenant_def Let_def pg_query_def roundtrip_db
      dest!: roundtrip_keeps pg_exec_keeps split: prod.splits fault.splits res.splits)

interpretation audit_pg: audit_repository jn "NewAuditRepo pg" world_trail "kept pg" "canonical_tenant pg" "storable jn pg"
  for jn pg
proof
  fix e n h c now
  assume st: "storable jn pg e"
  then show "canonical_tenant pg (ae_TenantID e)" by (simp add: storable_def)
  from st show "storable jn pg
     (e\<lparr>ae_Seq := n, ae_PrevHash := h, ae_ChainHash := c, ae_CreatedAt := Truncate now Microsecond\<rparr>)"
    by (rule storable_link)
  show "link_ok jn i p (kept pg k e) = link_ok jn i p e" for i p k
    using st by (rule kept_link)
next
  fix e w r w'
  assume ap: "adt_Append (NewAuditRepo pg) e w = (r, w')" and st: "storable jn pg e"
    and seq: "\<forall>d\<in>set (trail (w_db w) (ae_TenantID e)). ae_Seq d < ae_Seq e"
  show "trail (w_db w') = trail (w_db w) \<or> (\<exists>k. trail (w_db w') =
      (trail (w_db w))(ae_TenantID e := trail (w_db w) (ae_TenantID e) @ [kept pg k e]))"
    using append_db [of pg e w r w'] ap audit_insert_trail [OF _ st seq] by (auto simp: NewAuditRepo_def)
next
  fix e w u w'
  assume ap: "adt_Append (NewAuditRepo pg) e w = (Ok u, w')" and st: "storable jn pg e"
    and seq: "\<forall>d\<in>set (trail (w_db w) (ae_TenantID e)). ae_Seq d < ae_Seq e"
  show "\<exists>k. trail (w_db w') =
      (trail (w_db w))(ae_TenantID e := trail (w_db w) (ae_TenantID e) @ [kept pg k e])"
    using append_Ok [of pg e w u w'] ap audit_insert_trail [OF _ st seq] by (auto simp: NewAuditRepo_def)
qed (auto simp: NewAuditRepo_def audit_reads tail_describes list_Ok recent_Ok dest: append_conflict)

text \<open>The service over this adapter, with the wall clock and the log of the world.\<close>

definition audit_wiring :: "PG \<Rightarrow> world auditService" where
  "audit_wiring pg = \<lparr>ads_repo = NewAuditRepo pg, ads_log = world_log, ads_now = world_now\<rparr>"

interpretation audit_pg_service: audit_service jn "audit_wiring pg" world_trail "kept pg" "canonical_tenant pg" "storable jn pg"
  for jn pg
  unfolding audit_service_def audit_service_axioms_def
  using audit_pg.audit_repository_axioms by (simp add: audit_wiring_def)

end
