(* ===== verification/Audit_Race.thy ===== *)
theory Audit_Race
  imports Audit_Repo
begin

text \<open>
  Concurrent calls of \<open>Record\<close> (\<^verbatim>\<open>audit_service.go\<close>). Each call is a process that alternates between
  reading the tail and appending, as the loop does; \<open>Tail\<close> and \<open>Append\<close> are transactions of their own,
  so the interleaving of any number of processes is a sequence of such steps (\<open>race_step\<close>), together
  with the passing of time. \<open>solo_run\<close> says that a process running alone is \<open>record_loop\<close>. The result
  \<open>race_intact\<close>: whatever the interleaving and the faults, every chain stays intact, because the
  unique constraint on \<open>(tenant_id, seq)\<close> turns a stale tail into a conflict.
\<close>

record job =
  job_tenant :: string
  job_actor :: string
  job_action :: string
  job_type :: string
  job_entity :: string
  job_payload :: "string option"
  job_severity :: string

datatype pc = Reading nat | Appending nat AuditEntry | Finished "unit res"

definition job_next :: "json_norm \<Rightarrow> job \<Rightarrow> AuditEntry option \<Rightarrow> time \<Rightarrow> go_error + AuditEntry" where
  "job_next jn j = next_entry jn (job_tenant j) (job_actor j) (job_action j) (job_type j) (job_entity j)
     (job_payload j) (job_severity j)"

text \<open>The body of the loop up to \<open>Append\<close>, with \<open>n\<close> attempts left.\<close>

fun read_step :: "json_norm \<Rightarrow> 's auditService \<Rightarrow> job \<Rightarrow> nat \<Rightarrow> 's \<Rightarrow> pc \<times> 's" where
  "read_step jn svc j 0 s =
     (Finished (Err ErrConflict),
      log_Warn (ads_log svc) ''audit append conflict after retry''
        [(''tenant_id'', LStr (job_tenant j)), (''action'', LStr (job_action j))] s)"
| "read_step jn svc j (Suc n) s =
     (case adt_Tail (ads_repo svc) (job_tenant j) s of
        (Panic p, s1) \<Rightarrow> (Finished (Panic p), s1)
      | (Err e, s1) \<Rightarrow> (Finished (Err e), warn_audit svc ''audit tail failed'' (job_tenant j) (job_action j) e s1)
      | (Ok tail, s1) \<Rightarrow>
         (let (now, s2) = ads_now svc s1 in
          case job_next jn j tail now of
            Inl e \<Rightarrow> (Finished (Err e), warn_audit svc ''audit payload canonicalization failed'' (job_tenant j) (job_action j) e s2)
          | Inr entry \<Rightarrow> (Appending n entry, s2)))"

definition append_step :: "'s auditService \<Rightarrow> job \<Rightarrow> nat \<Rightarrow> AuditEntry \<Rightarrow> 's \<Rightarrow> pc \<times> 's" where
  "append_step svc j n entry s =
     (case adt_Append (ads_repo svc) entry s of
        (Ok _, s1) \<Rightarrow> (Finished (Ok ()), s1)
      | (Panic p, s1) \<Rightarrow> (Finished (Panic p), s1)
      | (Err e, s1) \<Rightarrow>
          if \<not> errors_Is e ErrConflict
          then (Finished (Err e), warn_audit svc ''audit append failed'' (job_tenant j) (job_action j) e s1)
          else (Reading n, s1))"

text \<open>A process that is never interrupted, for \<open>f\<close> steps.\<close>

fun solo :: "nat \<Rightarrow> json_norm \<Rightarrow> 's auditService \<Rightarrow> job \<Rightarrow> pc \<Rightarrow> 's \<Rightarrow> pc \<times> 's" where
  "solo 0 jn svc j p s = (p, s)"
| "solo (Suc f) jn svc j (Reading n) s = (case read_step jn svc j n s of (p, s1) \<Rightarrow> solo f jn svc j p s1)"
| "solo (Suc f) jn svc j (Appending n e) s = (case append_step svc j n e s of (p, s1) \<Rightarrow> solo f jn svc j p s1)"
| "solo (Suc f) jn svc j (Finished r) s = (Finished r, s)"

lemma solo_Finished [simp]: "solo f jn svc j (Finished r) s = (Finished r, s)"
  by (cases f) simp_all

lemma solo_run:
  "2 * n < f \<Longrightarrow> solo f jn svc j (Reading n) s =
     (case record_loop n jn svc (job_tenant j) (job_actor j) (job_action j) (job_type j) (job_entity j)
        (job_payload j) (job_severity j) s of (r, s') \<Rightarrow> (Finished r, s'))"
proof (induction n arbitrary: f s)
  case 0
  then obtain f' where "f = Suc f'" by (cases f) auto
  then show ?case by simp
next
  case (Suc n)
  then obtain f' where f: "f = Suc (Suc f')" "2 * n < f'" by (cases f; cases "f - 1") auto
  show ?case
    by (auto simp: f append_step_def job_next_def Let_def Suc.IH [OF f(2)]
        split: prod.splits res.splits sum.splits)
qed

section \<open>Interleavings\<close>

type_synonym race = "world \<times> (nat \<Rightarrow> pc)"

inductive race_step :: "json_norm \<Rightarrow> PG \<Rightarrow> (nat \<Rightarrow> job) \<Rightarrow> race \<Rightarrow> race \<Rightarrow> bool"
  for jn pg jobs where
  Read: "ps i = Reading n \<Longrightarrow> read_step jn (audit_wiring pg) (jobs i) n w = (p, w') \<Longrightarrow>
    race_step jn pg jobs (w, ps) (w', ps(i := p))"
| Append: "ps i = Appending n e \<Longrightarrow> append_step (audit_wiring pg) (jobs i) n e w = (p, w') \<Longrightarrow>
    race_step jn pg jobs (w, ps) (w', ps(i := p))"
| Tick: "w_clock w \<le> t \<Longrightarrow> race_step jn pg jobs (w, ps) (w\<lparr>w_clock := t\<rparr>, ps)"

inductive_cases race_stepE: "race_step jn pg jobs (w, ps) x"

text \<open>Every process starts with its two attempts.\<close>

definition race_start :: "nat \<Rightarrow> pc" where
  "race_start i = Reading 2"

definition job_storable :: "json_norm \<Rightarrow> PG \<Rightarrow> job \<Rightarrow> bool" where
  "job_storable jn pg j \<longleftrightarrow> storable jn pg (draft_entry (job_tenant j) (job_actor j) (job_action j) (job_type j)
     (job_entity j) (job_payload j) (job_severity j) None 0)"

text \<open>An entry about to be appended continues the chain as some earlier reader saw it.\<close>

definition continues :: "json_norm \<Rightarrow> AuditEntry list \<Rightarrow> AuditEntry \<Rightarrow> bool" where
  "continues jn es e \<longleftrightarrow> (\<exists>k \<le> length es. link_ok jn k (last_hash genesisPrevHash (take k es)) e)"

definition race_inv :: "json_norm \<Rightarrow> PG \<Rightarrow> (nat \<Rightarrow> job) \<Rightarrow> race \<Rightarrow> bool" where
  "race_inv jn pg jobs x \<longleftrightarrow> (case x of (w, ps) \<Rightarrow>
     (\<forall>t. intact jn (world_trail w t)) \<and>
     (\<forall>i n e. ps i = Appending n e \<longrightarrow> storable jn pg e \<and> ae_TenantID e = job_tenant (jobs i) \<and>
        continues jn (world_trail w (job_tenant (jobs i))) e))"

lemma continues_append: "continues jn es e \<Longrightarrow> continues jn (es @ xs) e"
  unfolding continues_def by (elim exE conjE, rule_tac x = k in exI) simp

text \<open>The unique constraint: an insert that succeeds continues the whole chain.\<close>

lemma insert_fresh_seq:
  assumes "audit_insert pg e cur now d = (Ok u, d')" "storable jn pg e"
  shows "ae_Seq e \<notin> ae_Seq ` set (trail d (ae_TenantID e))"
proof -
  from assms(1) obtain row where row: "audit_insert_row pg e (audit_serial d) = Ok row"
    and uq: "\<forall>r \<in> set (audit_log d). \<not> (r_tenant_id r = r_tenant_id row \<and> r_seq r = r_seq row)"
    by (auto simp: audit_insert_def insert_stmt_Ok)
  have "r_tenant_id row = ae_TenantID e" "r_seq row = ae_Seq e"
    using arg_cong [OF read_insert_row [OF row assms(2)], of ae_TenantID]
      arg_cong [OF read_insert_row [OF row assms(2)], of ae_Seq] by (simp_all add: read_row_def)
  with uq show ?thesis by (auto simp: trail_def read_row_def)
qed

lemma continues_fresh:
  assumes "continues jn es e" "intact jn es" "ae_Seq e \<notin> ae_Seq ` set es"
  shows "link_ok jn (length es) (last_hash genesisPrevHash es) e"
proof -
  from assms(1) obtain k where k: "k \<le> length es" "link_ok jn k (last_hash genesisPrevHash (take k es)) e"
    by (auto simp: continues_def)
  have "ae_Seq ` set es = int ` {Suc 0..<Suc (length es)}"
    using arg_cong [OF chain_ok_seqs [OF assms(2)], of set] by (simp del: upt_Suc)
  moreover have "ae_Seq e = int (Suc k)" using k(2) by (simp add: link_ok_def)
  moreover have "int (Suc k) \<in> int ` {Suc 0..<Suc (length es)}" if "k < length es"
    using that by (intro imageI) simp
  ultimately have "\<not> k < length es" using assms(3) by metis
  with k show ?thesis by simp
qed

lemma audit_wiring_simps [simp]:
  "ads_repo (audit_wiring pg) = NewAuditRepo pg" "ads_log (audit_wiring pg) = world_log" "ads_now (audit_wiring pg) = world_now"
  "adt_Tail (NewAuditRepo pg) = AuditRepo_Tail pg" "adt_Append (NewAuditRepo pg) = AuditRepo_Append pg"
  by (simp_all add: audit_wiring_def NewAuditRepo_def)

lemma append_grows:
  assumes "AuditRepo_Append pg e w = (r, w')" "storable jn pg e"
    and "continues jn (world_trail w (ae_TenantID e)) e" "\<forall>t. intact jn (world_trail w t)"
  shows "world_trail w' = world_trail w \<or> (\<exists>d. intact jn (world_trail w (ae_TenantID e) @ [d]) \<and>
    world_trail w' = (world_trail w)(ae_TenantID e := world_trail w (ae_TenantID e) @ [d]))"
  using append_db [OF assms(1)]
proof (elim disjE exE)
  fix cur now u
  assume ins: "audit_insert pg e cur now (w_db w) = (Ok u, w_db w')"
  let ?es = "world_trail w (ae_TenantID e)"
  have link: "link_ok jn (length ?es) (last_hash genesisPrevHash ?es) e"
    using continues_fresh [OF assms(3)] insert_fresh_seq [OF ins assms(2)] assms(4) by blast
  have "ae_Seq ` set ?es = int ` {Suc 0..<Suc (length ?es)}"
    using arg_cong [OF chain_ok_seqs [of jn 0 genesisPrevHash ?es], of set] assms(4) by (simp del: upt_Suc)
  moreover have "ae_Seq e = int (Suc (length ?es))" using link by (simp add: link_ok_def)
  ultimately have "\<forall>d \<in> set ?es. ae_Seq d < ae_Seq e"
    by (metis (no_types, lifting) atLeastLessThan_iff imageE imageI of_nat_less_iff)
  from audit_insert_trail [OF ins assms(2) this] obtain k where
    "world_trail w' = (world_trail w)(ae_TenantID e := ?es @ [kept pg k e])" by blast
  moreover have "intact jn (?es @ [kept pg k e])"
    using assms(4) link kept_link [OF assms(2)] by (simp add: chain_ok_snoc)
  ultimately show ?thesis by blast
qed simp

lemma read_step_reads:
  assumes "read_step jn (audit_wiring pg) j n w = (p, w')"
  shows "w_db w' = w_db w"
proof (cases n)
  case 0
  with assms show ?thesis by (auto simp: log_Warn_def)
next
  case (Suc m)
  obtain r w1 where tl: "AuditRepo_Tail pg (job_tenant j) w = (r, w1)" by fastforce
  have "w_db w1 = w_db w" using audit_reads(1) [of pg "job_tenant j" w] tl by simp
  with assms show ?thesis
    by (cases r) (auto simp: Suc tl warn_audit_def log_Warn_def world_now_def split: sum.splits)
qed

lemma read_step_continues:
  assumes "read_step jn (audit_wiring pg) j n w = (Appending m e, w')" "job_storable jn pg j"
    and int: "intact jn (world_trail w (job_tenant j))"
  shows "storable jn pg e \<and> ae_TenantID e = job_tenant j \<and> continues jn (world_trail w (job_tenant j)) e"
proof (cases n)
  case 0
  with assms show ?thesis by simp
next
  case (Suc k)
  from assms(1) obtain tail w1 now where tl: "AuditRepo_Tail pg (job_tenant j) w = (Ok tail, w1)"
    and e: "job_next jn j tail now = Inr e"
    by (auto simp: Suc Let_def split: res.splits prod.splits sum.splits)
  have can: "canonical_tenant pg (job_tenant j)"
    using assms(2) by (simp add: job_storable_def storable_def draft_entry_def)
  have "describes tail (world_trail w (job_tenant j))"
    by (rule tail_describes [OF tl can]) (rule chain_ok_distinct [OF int])
  from next_entry_links [OF e [unfolded job_next_def] int this]
  have "continues jn (world_trail w (job_tenant j)) e"
    unfolding continues_def by (intro exI [of _ "length (world_trail w (job_tenant j))"]) simp
  moreover have "storable jn pg e"
    using audit_pg_service.storable_draft [OF assms(2) [unfolded job_storable_def] e [unfolded job_next_def]] .
  moreover have "ae_TenantID e = job_tenant j" using next_entry_fields [OF e [unfolded job_next_def]] by simp
  ultimately show ?thesis by simp
qed

lemma race_step_inv:
  assumes inv: "race_inv jn pg jobs x" and st: "\<forall>i. job_storable jn pg (jobs i)" and step: "race_step jn pg jobs x y"
  shows "race_inv jn pg jobs y"
  using step inv
proof cases
  case (Read ps i n w p w')
  have db: "world_trail w' = world_trail w" using read_step_reads [OF Read(4)] by simp
  have int: "intact jn (world_trail w (job_tenant (jobs i)))" using inv Read(1) by (simp add: race_inv_def)
  have "storable jn pg e \<and> ae_TenantID e = job_tenant (jobs i) \<and> continues jn (world_trail w (job_tenant (jobs i))) e"
    if "p = Appending m e" for m e
    using read_step_continues [OF _ _ int] Read(4) that st by blast
  with inv Read(1,2) db show ?thesis by (auto simp: race_inv_def)
next
  case (Append ps i n e w p w')
  obtain r w1 where ap: "AuditRepo_Append pg e w = (r, w1)" by fastforce
  have e: "storable jn pg e" "ae_TenantID e = job_tenant (jobs i)" "continues jn (world_trail w (job_tenant (jobs i))) e"
    and int: "\<forall>t. intact jn (world_trail w t)"
    using inv Append(1,3) by (auto simp: race_inv_def)
  have p: "world_trail w' = world_trail w1 \<and> (\<forall>m d. p \<noteq> Appending m d)"
    using Append(4) ap by (auto simp: append_step_def warn_audit_def log_Warn_def split: res.splits if_splits)
  from append_grows [OF ap e(1) _ int] e(2,3) obtain new where
    new: "world_trail w1 = (world_trail w)(job_tenant (jobs i) := world_trail w (job_tenant (jobs i)) @ new)"
      "intact jn (world_trail w (job_tenant (jobs i)) @ new)"
    using int by (metis append_Nil2 fun_upd_triv)
  have "continues jn (world_trail w1 (job_tenant (jobs k))) d"
    if "continues jn (world_trail w (job_tenant (jobs k))) d" for k d
    using that new(1) continues_append by auto
  with inv Append(1,2,3) p new int show ?thesis
    by (auto simp: race_inv_def split: if_splits)
next
  case (Tick w t ps)
  with inv show ?thesis by (simp add: race_inv_def)
qed

lemma race_inv_start: "\<forall>t. intact jn (world_trail w t) \<Longrightarrow> race_inv jn pg jobs (w, race_start)"
  by (simp add: race_inv_def race_start_def)

lemma race_reachable_inv:
  assumes "(race_step jn pg jobs)\<^sup>*\<^sup>* x y" "race_inv jn pg jobs x" "\<forall>i. job_storable jn pg (jobs i)"
  shows "race_inv jn pg jobs y"
  using assms by (induction rule: rtranclp_induct) (auto intro: race_step_inv)

end
