(* ===== verification/Refresh_Token.thy ===== *)
theory Refresh_Token
  imports Ports Sha256
begin

unbundle bit_operations_syntax

text \<open>
  \<^verbatim>\<open>internal/application/services/refresh.go\<close>: generation and hashing of opaque refresh tokens,
  application-side UUIDs, and the rotation decision. The lemmas say what the decision is on
  every branch, that an identifier has the shape of a version 4 UUID, and that the stored hash is
  the digest of the plain token.
\<close>

section \<open>Decision\<close>

datatype RefreshTokenDecision =
  RotationRejectInvalid | RotationRejectRevoked | RotationRejectExpired | RotationAllow

definition DecideRotation :: "bool \<Rightarrow> string \<Rightarrow> int \<Rightarrow> int \<Rightarrow> RefreshTokenDecision" where
  "DecideRotation revoked replacedBy expiresAt now =
     (if revoked then
        (if replacedBy \<noteq> [] then RotationRejectRevoked else RotationRejectInvalid)
      else if expiresAt \<le> now then RotationRejectExpired
      else RotationAllow)"

lemma DecideRotation_iff:
  "DecideRotation r b e n = RotationAllow \<longleftrightarrow> \<not> r \<and> n < e"
  "DecideRotation r b e n = RotationRejectRevoked \<longleftrightarrow> r \<and> b \<noteq> []"
  "DecideRotation r b e n = RotationRejectInvalid \<longleftrightarrow> r \<and> b = []"
  "DecideRotation r b e n = RotationRejectExpired \<longleftrightarrow> \<not> r \<and> e \<le> n"
  by (auto simp: DecideRotation_def)

section \<open>Tokens and identifiers\<close>

record RefreshToken =
  rt_ID :: string
  rt_FamilyID :: string
  rt_Plain :: string
  rt_Hash :: string
  rt_ExpiresAt :: time

definition HashToken :: "string \<Rightarrow> string" where
  "HashToken plain = b64_EncodeToString alpha_url (Sum256 plain)"

definition uuid_bits :: "byte list \<Rightarrow> byte list" where
  "uuid_bits b = b[6 := (b ! 6 AND 0x0f) OR 0x40, 8 := (b ! 8 AND 0x3f) OR 0x80]"

definition uuid_string :: "byte list \<Rightarrow> string" where
  "uuid_string b = hex_EncodeToString (take 4 b) @ ''-'' @
     hex_EncodeToString (take 2 (drop 4 b)) @ ''-'' @ hex_EncodeToString (take 2 (drop 6 b)) @ ''-'' @
     hex_EncodeToString (take 2 (drop 8 b)) @ ''-'' @ hex_EncodeToString (take 6 (drop 10 b))"

definition newUUIDish :: "'s entropy \<Rightarrow> 's \<Rightarrow> string res \<times> 's" where
  "newUUIDish rnd s = (case rnd 16 s of
      (None, s') \<Rightarrow> (Panic ''crypto/rand unavailable: '', s')
    | (Some b, s') \<Rightarrow> (Ok (uuid_string (uuid_bits b)), s'))"

definition NewRefreshToken :: "'s entropy \<Rightarrow> 's clock \<Rightarrow> duration \<Rightarrow> 's \<Rightarrow> RefreshToken res \<times> 's" where
  "NewRefreshToken rnd clk ttl s = (case rnd 32 s of
      (None, s1) \<Rightarrow> (Err (Errorf ''crypto/rand'' (ErrText ''entropy'')), s1)
    | (Some raw, s1) \<Rightarrow>
        (let plain = b64_EncodeToString alpha_url raw; (now, s2) = clk s1 in
         bindR (newUUIDish rnd s2) (\<lambda>i s3.
         bindR (newUUIDish rnd s3) (\<lambda>f s4.
           (Ok \<lparr>rt_ID = i, rt_FamilyID = f, rt_Plain = plain, rt_Hash = HashToken plain,
                rt_ExpiresAt = Add now ttl\<rparr>, s4)))))"

text \<open>The shape of a UUID of version 4 and variant \<open>10xx\<close>, as text.\<close>

definition hex_digit :: "char \<Rightarrow> bool" where
  "hex_digit c \<longleftrightarrow> (of_char c :: nat) \<in> {48..57} \<union> {97..102}"

definition uuid_v4_text :: "string \<Rightarrow> bool" where
  "uuid_v4_text s \<longleftrightarrow> length s = 36 \<and>
     list_all (\<lambda>(i, c). if i \<in> {8, 13, 18, 23} then c = CHR ''-'' else hex_digit c) (enumerate 0 s) \<and>
     s ! 14 = CHR ''4'' \<and> s ! 19 \<in> {CHR ''8'', CHR ''9'', CHR ''a'', CHR ''b''}"

lemma version_nibble: "unat ((x AND 0x0f) OR 0x40 :: byte) div 16 = 4"
proof -
  have "drop_bit 4 ((x AND 0x0f) OR 0x40 :: byte) = 4"
    by (rule bit_word_eqI) (auto simp: bit_simps bit_numeral_rec elim!: less_SucE)
  then have "((x AND 0x0f) OR 0x40 :: byte) div 16 = 4" by (simp add: drop_bit_eq_div)
  then have "unat (((x AND 0x0f) OR 0x40 :: byte) div 16) = 4" by simp
  then show ?thesis by (simp only: unat_div) simp
qed

lemma variant_nibble: "unat ((x AND 0x3f) OR 0x80 :: byte) div 16 \<in> {8..11}"
proof -
  have "drop_bit 6 ((x AND 0x3f) OR 0x80 :: byte) = 2"
    by (rule bit_word_eqI) (auto simp: bit_simps bit_numeral_rec elim!: less_SucE)
  then have "((x AND 0x3f) OR 0x80 :: byte) div 64 = 2" by (simp add: drop_bit_eq_div)
  then have "unat (((x AND 0x3f) OR 0x80 :: byte) div 64) = 2" by simp
  then have "unat ((x AND 0x3f) OR 0x80 :: byte) div 64 = 2" by (simp only: unat_div) simp
  then show ?thesis by auto
qed

lemma hex_digit_hex_char [simp]: "d < 16 \<Longrightarrow> hex_digit (hex_char d)"
  by (auto simp: hex_digit_def of_char_hex_char)

lemma hex_digit_byte [simp]: "hex_digit (hex_char (unat (b :: byte) div 16))" "hex_digit (hex_char (unat b mod 16))"
  using unat_byte_less [of b] by auto

lemma length_16_conv:
  "length b = 16 \<Longrightarrow> \<exists>b0 b1 b2 b3 b4 b5 b6 b7 b8 b9 b10 b11 b12 b13 b14 b15.
     b = [b0, b1, b2, b3, b4, b5, b6, b7, b8, b9, b10, b11, b12, b13, b14, b15]"
  by (auto simp: numeral_eq_Suc length_Suc_conv)

lemma uuid_string_v4: "length b = 16 \<Longrightarrow> uuid_v4_text (uuid_string (uuid_bits b))"
proof -
  assume len: "length b = 16"
  obtain b0 b1 b2 b3 b4 b5 b6 b7 b8 b9 b10 b11 b12 b13 b14 b15 where
    b: "b = [b0, b1, b2, b3, b4, b5, b6, b7, b8, b9, b10, b11, b12, b13, b14, b15]"
    using length_16_conv [OF len] by (elim exE) (rule that)
  have "hex_char d \<in> {CHR ''8'', CHR ''9'', CHR ''a'', CHR ''b''}" if "d \<in> {8..11}" for d
  proof -
    from that consider "d = 8" | "d = 9" | "d = 10" | "d = 11" by fastforce
    then show ?thesis by cases (simp_all add: hex_char_def char_of_eq_iff)
  qed
  from this [OF variant_nibble [of b8]]
  have v: "hex_char (unat ((b8 AND 0x3f) OR 0x80) div 16) \<in> {CHR ''8'', CHR ''9'', CHR ''a'', CHR ''b''}" .
  have "hex_char 4 = CHR ''4''" by (simp add: hex_char_def char_of_eq_iff)
  moreover have "hex_digit CHR ''4''" by (simp add: hex_digit_def)
  ultimately show ?thesis using v
    by (simp add: b uuid_v4_text_def uuid_bits_def uuid_string_def hex_EncodeToString_def hex_byte_def
        version_nibble enumerate_simps)
qed

lemma HashToken_inject: "HashToken p = HashToken q \<longleftrightarrow> Sum256 p = Sum256 q"
  by (simp add: HashToken_def b64_encode_inject b64_alphabet_url)

lemma HashToken_nonempty: "HashToken p \<noteq> []"
proof
  assume "HashToken p = []"
  then have "b64_EncodeToString alpha_url (Sum256 p) = b64_EncodeToString alpha_url []"
    by (simp add: HashToken_def b64_EncodeToString_def)
  then have "Sum256 p = []" by (simp add: b64_encode_inject b64_alphabet_url)
  then show False using length_Sum256 [of p] by simp
qed

text \<open>What a generated token is made of.\<close>

lemma newUUIDish_Ok:
  assumes "newUUIDish rnd s = (Ok i, s')"
  obtains b where "rnd 16 s = (Some b, s')" "i = uuid_string (uuid_bits b)"
  using assms by (auto simp: newUUIDish_def split: prod.splits option.splits)

lemma newUUIDish_no_Err: "newUUIDish rnd s \<noteq> (Err e, s')"
  by (auto simp: newUUIDish_def split: prod.splits option.splits)

lemma NewRefreshToken_Ok:
  assumes "NewRefreshToken rnd clk ttl s = (Ok t, s')"
  obtains raw s1 now s2 s3 where
    "rnd 32 s = (Some raw, s1)" "clk s1 = (now, s2)"
    "newUUIDish rnd s2 = (Ok (rt_ID t), s3)" "newUUIDish rnd s3 = (Ok (rt_FamilyID t), s')"
    "rt_Plain t = b64_EncodeToString alpha_url raw" "rt_Hash t = HashToken (rt_Plain t)"
    "rt_ExpiresAt t = now + ttl"
  using assms
  by (auto simp: NewRefreshToken_def bindR_Ok_iff Let_def Add_def split: prod.splits option.splits)

end
