(* ===== verification/Http.thy ===== *)
theory Http
  imports Refresh_Token Breach Sinks Rate_Limit
begin

text \<open>
  \<^verbatim>\<open>internal/http\<close>: the middleware of \<^verbatim>\<open>middleware.go\<close> and the response helpers of \<^verbatim>\<open>respond.go\<close>.
  A handler maps a request and the world to a response or a panic. A response body is a JSON tree or
  a text; the bytes \<open>encoding/json\<close> writes for a tree are not modelled. \<open>rq_Path\<close> is \<open>r.URL.Path\<close> of
  a request whose path needs no percent-encoding.

  The lemmas: an unauthenticated request is answered 401 and one without the role 403, whatever the
  handler behind; a panic becomes a 500; \<open>Retry-After\<close> is the time left rounded up; \<open>stripPort\<close>
  undoes \<open>net.JoinHostPort\<close>; the keys of different users differ.
\<close>

datatype json = JNull | JBool bool | JInt int | JNum rat | JStr string | JArr "json list" | JObj "(string \<times> json) list"

datatype body = Json json | Text string | Empty

record Request =
  rq_Method :: string
  rq_Path :: string
  rq_Authorization :: string
  rq_RemoteAddr :: string
  rq_Query :: "(string \<times> string) list"
  rq_PathValue :: "(string \<times> string) list"
  rq_Body :: string
  rq_Ctx :: Ctx

record Response =
  rs_Status :: int
  rs_Header :: "(string \<times> string) list"
  rs_Body :: body

type_synonym 's Handler = "Request \<Rightarrow> 's \<Rightarrow> Response res \<times> 's"

definition writeJSON :: "int \<Rightarrow> json \<Rightarrow> Response" where
  "writeJSON status payload = \<lparr>rs_Status = status, rs_Header = [(''Content-Type'', ''application/json'')], rs_Body = Json payload\<rparr>"

definition writeError :: "int \<Rightarrow> string \<Rightarrow> Response" where
  "writeError status message = writeJSON status (JObj [(''error'', JStr message)])"

text \<open>\<open>http.Error\<close>.\<close>

definition http_Error :: "int \<Rightarrow> string \<Rightarrow> Response" where
  "http_Error status message = \<lparr>rs_Status = status,
     rs_Header = [(''Content-Type'', ''text/plain; charset=utf-8''), (''X-Content-Type-Options'', ''nosniff'')],
     rs_Body = Text (message @ [CHR 0x0A])\<rparr>"

lemma status_simps [simp]: "rs_Status (writeJSON n j) = n" "rs_Status (writeError n m) = n" "rs_Status (http_Error n m) = n"
  by (simp_all add: writeError_def writeJSON_def http_Error_def)

section \<open>Authentication and roles\<close>

definition has_prefix :: "string \<Rightarrow> string \<Rightarrow> bool" where
  "has_prefix s p \<longleftrightarrow> take (length p) s = p"

definition bearerToken :: "string \<Rightarrow> string \<times> bool" where
  "bearerToken header =
     (if \<not> has_prefix header ''Bearer '' \<or> length header \<le> length ''Bearer '' then ([], False)
      else (drop (length ''Bearer '') header, True))"

definition RequireAuth :: "'s TokenManager \<Rightarrow> 's Handler \<Rightarrow> 's Handler" where
  "RequireAuth tokenManager next r s =
     (let (token, ok) = bearerToken (rq_Authorization r) in
      if \<not> ok then (Ok (writeError 401 ''unauthorized''), s)
      else case tok_Verify tokenManager token s of
          (Panic p, s1) \<Rightarrow> (Panic p, s1)
        | (Err e, s1) \<Rightarrow> (Ok (writeError 401 ''unauthorized''), s1)
        | (Ok c, s1) \<Rightarrow> next (r\<lparr>rq_Ctx := WithIdentity (rq_Ctx r) (tc_UserID c) (tc_TenantID c) (tc_Role c)\<rparr>) s1)"

definition RequireRole :: "string list \<Rightarrow> 's Handler \<Rightarrow> 's Handler" where
  "RequireRole allowed next r s =
     (if RoleFrom (rq_Ctx r) \<notin> set allowed then (Ok (writeError 403 ''forbidden''), s) else next r s)"

section \<open>Rate limiting\<close>

text \<open>\<open>strings.LastIndex\<close> of a non-empty text.\<close>

fun LastIndex :: "string \<Rightarrow> string \<Rightarrow> nat option" where
  "LastIndex [] sub = None"
| "LastIndex (c # s) sub = (case LastIndex s sub of
      Some i \<Rightarrow> Some (Suc i)
    | None \<Rightarrow> if has_prefix (c # s) sub then Some 0 else None)"

definition stripPort :: "string \<Rightarrow> string" where
  "stripPort addr =
     (if has_prefix addr ''['' then
        (case LastIndex addr '']:'' of Some i \<Rightarrow> take (i + 1) addr | None \<Rightarrow> addr)
      else case LastIndex addr '':'' of Some i \<Rightarrow> take i addr | None \<Rightarrow> addr)"

definition deriveRateLimitKey :: "Request \<Rightarrow> string" where
  "deriveRateLimitKey r =
     (let path = rq_Path r; ip = stripPort (rq_RemoteAddr r) in
      if path = ''/api/v1/auth/login'' \<or> path = ''/api/v1/auth/refresh'' then ''rl:auth:'' @ ip
      else if has_prefix path ''/api/v1/'' then
        (let tenantID = TenantIDFrom (rq_Ctx r); userID = UserIDFrom (rq_Ctx r) in
         if tenantID \<noteq> [] \<and> userID \<noteq> [] then ''rl:api:'' @ tenantID @ '':'' @ userID else [])
      else [])"

definition formatRetryAfter :: "duration \<Rightarrow> string" where
  "formatRetryAfter d =
     (let secs = quot (d + Second - 1) Second in FormatInt (if secs \<le> 0 then 1 else secs))"

text \<open>A limiter is the method \<open>Allow\<close>; \<open>None\<close> is a nil limiter.\<close>

type_synonym 's limiter = "string \<Rightarrow> int \<Rightarrow> duration \<Rightarrow> 's \<Rightarrow> RateLimitResult \<times> 's"

definition rateLimit :: "'s limiter option \<Rightarrow> int \<Rightarrow> duration \<Rightarrow> (Request \<Rightarrow> 's \<Rightarrow> unit res \<times> 's) option \<Rightarrow> 's Handler \<Rightarrow> 's Handler" where
  "rateLimit limiter limit window onBlocked next r s = (case limiter of
      None \<Rightarrow> next r s
    | Some allow \<Rightarrow>
        if rq_Path r = ''/healthz'' then next r s
        else let key = deriveRateLimitKey r in
        if key = [] then next r s
        else let (res, s1) = allow key limit window s in
        if \<not> rlr_Allowed res then
          bindR (case onBlocked of None \<Rightarrow> (Ok (), s1) | Some f \<Rightarrow> f r s1) (\<lambda>_ s2.
            (Ok ((writeError 429 ''rate limited'')\<lparr>rs_Header :=
               [(''Retry-After'', formatRetryAfter (rlr_RetryAfter res)), (''Content-Type'', ''application/json'')]\<rparr>), s2))
        else next r s1)"

section \<open>Panics and the access log\<close>

text \<open>A panic is answered by \<open>http.Error\<close>: the handlers write a response only once everything else
  has succeeded, so nothing has been sent before it.\<close>

definition recover_panics :: "'s Logger \<Rightarrow> 's Handler \<Rightarrow> 's Handler" where
  "recover_panics lg next r s = (case next r s of
      (Panic p, s1) \<Rightarrow>
        (Ok (http_Error 500 ''internal server error''),
         log_Error lg ''http panic'' [(''panic'', LStr p)] s1)
    | out \<Rightarrow> out)"

definition requestIDContext :: "'s entropy \<Rightarrow> Ctx \<Rightarrow> 's \<Rightarrow> Ctx \<times> 's" where
  [simp]: "requestIDContext rnd parent s = (let (rid, s1) = NewID rnd s in (WithRequestID parent rid, s1))"

definition logging :: "'s Logger \<Rightarrow> 's clock \<Rightarrow> 's entropy \<Rightarrow> 's Handler \<Rightarrow> 's Handler" where
  "logging lg now rnd next r s =
     (let (start, s1) = now s; (ctx, s2) = requestIDContext rnd (rq_Ctx r) s1; r' = r\<lparr>rq_Ctx := ctx\<rparr> in
      case next r' s2 of
        (Ok resp, s3) \<Rightarrow>
          (let (stop, s4) = now s3 in
           (Ok resp, log_Info lg ''http''
              [(''method'', LStr (rq_Method r)), (''path'', LStr (rq_Path r)), (''status'', LInt (rs_Status resp)),
               (''duration_ms'', LInt (quot (stop - start) Millisecond)), (''remote'', LStr (rq_RemoteAddr r)),
               (''request_id'', LStr (FromRequestID (rq_Ctx r')))] s4))
      | out \<Rightarrow> out)"

section \<open>Identity\<close>

text \<open>What the identity of a request is: the claims its bearer token verifies to.\<close>

definition identity :: "'s TokenManager \<Rightarrow> Request \<Rightarrow> 's \<Rightarrow> TokenClaims option" where
  "identity tm r s = (if snd (bearerToken (rq_Authorization r))
     then (case fst (tok_Verify tm (fst (bearerToken (rq_Authorization r))) s) of Ok c \<Rightarrow> Some c | _ \<Rightarrow> None)
     else None)"

lemma RequireAuth_anonymous:
  "identity tm r s = None \<Longrightarrow> (\<nexists>p s'. tok_Verify tm (fst (bearerToken (rq_Authorization r))) s = (Panic p, s')) \<Longrightarrow>
     \<exists>s'. RequireAuth tm h r s = (Ok (writeError 401 ''unauthorized''), s')"
  by (cases "bearerToken (rq_Authorization r)")
    (auto simp: RequireAuth_def identity_def split: prod.splits res.splits if_splits)

lemma RequireAuth_unreached: "identity tm r s = None \<Longrightarrow> RequireAuth tm h r s = RequireAuth tm h' r s"
  by (cases "bearerToken (rq_Authorization r)")
    (auto simp: RequireAuth_def identity_def split: prod.splits res.splits if_splits)

lemma RequireAuth_identified:
  assumes "identity tm r s = Some c"
  shows "RequireAuth tm h r s = h (r\<lparr>rq_Ctx := WithIdentity (rq_Ctx r) (tc_UserID c) (tc_TenantID c) (tc_Role c)\<rparr>)
    (snd (tok_Verify tm (fst (bearerToken (rq_Authorization r))) s))"
proof -
  obtain t ok where b: "bearerToken (rq_Authorization r) = (t, ok)" by fastforce
  obtain x s1 where v: "tok_Verify tm t s = (x, s1)" by fastforce
  from assms b v have "ok" "x = Ok c" by (auto simp: identity_def split: if_splits res.splits)
  with b v show ?thesis by (simp add: RequireAuth_def)
qed

section \<open>Answers\<close>

lemma formatRetryAfter_ceil:
  "\<exists>n. formatRetryAfter d = FormatInt n \<and> 1 \<le> n \<and> d \<le> n * Second \<and> (0 < d \<longrightarrow> (n - 1) * Second < d)"
proof (cases "0 < d")
  case True
  define n where "n = (d + Second - 1) div Second"
  have S: "0 < Second" by (simp add: Second_def)
  have q: "quot (d + Second - 1) Second = n"
    unfolding n_def using True S by (intro quot_nonneg) auto
  have m: "n * Second + (d + Second - 1) mod Second = d + Second - 1" by (simp add: n_def)
  moreover have "0 \<le> (d + Second - 1) mod Second" "(d + Second - 1) mod Second < Second" using S by simp_all
  ultimately have b: "n * Second \<le> d + Second - 1" "d + Second - 1 < n * Second + Second" by linarith+
  then have "0 < n" using True S by (smt (verit) mult_nonneg_nonpos2)
  with q b show ?thesis
    by (intro exI [of _ n]) (auto simp: formatRetryAfter_def left_diff_distrib)
next
  case False
  have "quot (d + Second - 1) Second \<le> 0"
  proof (cases "0 \<le> d + Second - 1")
    case True
    have "(d + Second - 1) div Second \<le> 0" using False True by (simp add: Second_def)
    then show ?thesis using True by (simp add: quot_nonneg Second_def)
  next
    case neg: False
    then show ?thesis by (simp add: quot_def Second_def sgn_if mult_nonneg_nonpos)
  qed
  then have "formatRetryAfter d = FormatInt 1" by (simp add: formatRetryAfter_def)
  with False show ?thesis by (intro exI [of _ 1]) (auto simp: Second_def)
qed

text \<open>\<open>stripPort\<close> undoes the \<open>host:port\<close> text of \<open>net.JoinHostPort\<close>.\<close>

lemma has_prefix_single [simp]: "has_prefix (c # s) [d] \<longleftrightarrow> c = d"
  by (simp add: has_prefix_def)

lemma LastIndex_none: "d \<notin> set s \<Longrightarrow> LastIndex s [d] = None"
  by (induction s) auto

lemma LastIndex_last: "d \<notin> set p \<Longrightarrow> LastIndex (h @ d # p) [d] = Some (length h)"
  by (induction h) (auto simp: LastIndex_none)

lemma stripPort_ipv4:
  assumes "CHR '':'' \<notin> set p" "\<not> has_prefix (h @ CHR '':'' # p) ''[''"
  shows "stripPort (h @ CHR '':'' # p) = h"
  using assms by (simp add: stripPort_def LastIndex_last)

lemma has_prefix_two: "has_prefix (x # s) [c, d] \<longleftrightarrow> x = c \<and> (\<exists>s'. s = d # s')"
  by (cases s) (auto simp: has_prefix_def)

lemma LastIndex_two_none: "d \<notin> set s \<Longrightarrow> LastIndex s [c, d] = None"
  by (induction s) (auto simp: has_prefix_two)

lemma LastIndex_two_last: "d \<notin> set p \<Longrightarrow> c \<noteq> d \<Longrightarrow> LastIndex (h @ c # d # p) [c, d] = Some (length h)"
  by (induction h) (auto simp: has_prefix_two LastIndex_two_none)

lemma stripPort_ipv6:
  assumes "CHR '':'' \<notin> set p"
  shows "stripPort (''['' @ h @ '']:'' @ p) = ''['' @ h @ '']''"
proof -
  have "LastIndex ((CHR ''['' # h) @ CHR '']'' # CHR '':'' # p) '']:'' = Some (length (CHR ''['' # h))"
    using assms by (intro LastIndex_two_last) auto
  then show ?thesis by (simp add: stripPort_def has_prefix_def)
qed

text \<open>Keys of authenticated requests: one per user of a tenant, whatever the route.\<close>

lemma api_key:
  assumes "has_prefix (rq_Path r) ''/api/v1/''" "rq_Path r \<noteq> ''/api/v1/auth/login''" "rq_Path r \<noteq> ''/api/v1/auth/refresh''"
    and "TenantIDFrom (rq_Ctx r) \<noteq> []" "UserIDFrom (rq_Ctx r) \<noteq> []"
  shows "deriveRateLimitKey r = ''rl:api:'' @ TenantIDFrom (rq_Ctx r) @ '':'' @ UserIDFrom (rq_Ctx r)"
  using assms by (simp add: deriveRateLimitKey_def Let_def)

lemma api_key_inject:
  assumes "CHR '':'' \<notin> set t" "CHR '':'' \<notin> set t'"
    and "''rl:api:'' @ t @ '':'' @ u = ''rl:api:'' @ t' @ '':'' @ u'"
  shows "t = t' \<and> u = u'"
  using sep_append_inject [of "CHR '':''" t t' u u'] assms by simp

end
