(* ===== verification/Rfc3339.thy ===== *)
theory Rfc3339
  imports Go_Time
begin

text \<open>
  \<open>time.Time.UnmarshalJSON\<close> on the text between the quotes: \<open>Parse(RFC3339, _)\<close>, which the request
  bodies with dates go through. The fast path \<open>parseRFC3339\<close> accepts a subset and agrees with it, so
  only the general parser is modelled: a one-digit hour, a comma before the fraction, digits beyond
  the ninth and a zone of up to 24:60 are accepted, as the library does. The result is an instant;
  \<open>Parse_Format\<close> is the round trip with \<open>Format(time.RFC3339)\<close>.
\<close>

definition digit_value :: "char \<Rightarrow> nat option" where
  "digit_value c = (let n = of_char c :: nat in if 48 \<le> n \<and> n \<le> 57 then Some (n - 48) else None)"

text \<open>\<open>getnum\<close>: two digits, or one when the width is not fixed.\<close>

definition getnum :: "string \<Rightarrow> bool \<Rightarrow> (nat \<times> string) option" where
  "getnum s fixed = (case s of
      [] \<Rightarrow> None
    | a # r \<Rightarrow> (case digit_value a of
        None \<Rightarrow> None
      | Some x \<Rightarrow> (case r of
          [] \<Rightarrow> if fixed then None else Some (x, r)
        | b # r' \<Rightarrow> (case digit_value b of
            None \<Rightarrow> if fixed then None else Some (x, r)
          | Some y \<Rightarrow> Some (10 * x + y, r')))))"

definition year4 :: "string \<Rightarrow> (nat \<times> string) option" where
  "year4 s = (case s of
      a # b # c # d # r \<Rightarrow> (case (digit_value a, digit_value b, digit_value c, digit_value d) of
          (Some w, Some x, Some y, Some z) \<Rightarrow> Some (1000 * w + 100 * x + 10 * y + z, r)
        | _ \<Rightarrow> None)
    | _ \<Rightarrow> None)"

definition skip :: "char \<Rightarrow> string \<Rightarrow> string option" where
  "skip c s = (case s of x # r \<Rightarrow> if x = c then Some r else None | [] \<Rightarrow> None)"

definition is_dec :: "char \<Rightarrow> bool" where
  "is_dec c \<longleftrightarrow> digit_value c \<noteq> None"

text \<open>\<open>parseNanoseconds\<close>: the first nine digits, scaled.\<close>

definition nanoseconds :: "string \<Rightarrow> int" where
  "nanoseconds ds = (let d9 = take 9 ds in int (dec_value d9) * 10 ^ (9 - length d9))"

definition take_fraction :: "string \<Rightarrow> int \<times> string" where
  "take_fraction s = (case s of
      p # d # r \<Rightarrow>
        if (p = CHR ''.'' \<or> p = CHR '','') \<and> is_dec d
        then (nanoseconds (takeWhile is_dec (d # r)), dropWhile is_dec (d # r)) else (0, s)
    | _ \<Rightarrow> (0, s))"

text \<open>The zone, which ends the text: \<open>Z\<close>, or a sign, hours and minutes, as an offset in seconds.\<close>

definition take_zone :: "string \<Rightarrow> int option" where
  "take_zone s = (if s = ''Z'' then Some 0 else case s of
      [sg, h1, h2, col, m1, m2] \<Rightarrow>
        (case (getnum [h1, h2] True, getnum [m1, m2] True) of
          (Some (h, _), Some (m, _)) \<Rightarrow>
            if col \<noteq> CHR '':'' \<or> 24 < h \<or> 60 < m then None
            else if sg = CHR ''+'' then Some (int (h * 60 + m) * 60)
            else if sg = CHR ''-'' then Some (- (int (h * 60 + m) * 60))
            else None
        | _ \<Rightarrow> None)
    | _ \<Rightarrow> None)"

definition leap :: "int \<Rightarrow> bool" where
  "leap y \<longleftrightarrow> y mod 4 = 0 \<and> (y mod 100 \<noteq> 0 \<or> y mod 400 = 0)"

definition daysIn :: "nat \<Rightarrow> int \<Rightarrow> nat" where
  "daysIn m y = (if m = 2 then (if leap y then 29 else 28) else if m \<in> {4, 6, 9, 11} then 30 else 31)"

text \<open>The day number of a date, from 1 January 1970.\<close>

definition day_number :: "int \<Rightarrow> int \<Rightarrow> int \<Rightarrow> int" where
  "day_number y m d = (let y' = (if m \<le> 2 then y - 1 else y); era = y' div 400; yoe = y' mod 400;
      mp = (if m \<le> 2 then m + 9 else m - 3); doy = (153 * mp + 2) div 5 + d - 1;
      doe = yoe * 365 + yoe div 4 - yoe div 100 + doy
    in era * 146097 + doe - 719468)"

definition Parse_RFC3339 :: "string \<Rightarrow> time option" where
  "Parse_RFC3339 s =
     Option.bind (year4 s) (\<lambda>(y, s). Option.bind (skip CHR ''-'' s) (\<lambda>s.
     Option.bind (getnum s True) (\<lambda>(mo, s). Option.bind (skip CHR ''-'' s) (\<lambda>s.
     Option.bind (getnum s True) (\<lambda>(d, s). Option.bind (skip CHR ''T'' s) (\<lambda>s.
     Option.bind (getnum s False) (\<lambda>(h, s). Option.bind (skip CHR '':'' s) (\<lambda>s.
     Option.bind (getnum s True) (\<lambda>(mi, s). Option.bind (skip CHR '':'' s) (\<lambda>s.
     Option.bind (getnum s True) (\<lambda>(sec, s).
       let (ns, s) = take_fraction s in
       Option.bind (take_zone s) (\<lambda>off.
         if mo < 1 \<or> 12 < mo \<or> d < 1 \<or> daysIn mo (int y) < d \<or> 24 \<le> h \<or> 60 \<le> mi \<or> 60 \<le> sec then None
         else Some ((day_number (int y) (int mo) (int d) * 86400 + int h * 3600 + int mi * 60 + int sec - off) * Second + ns)
     ))))))))))))"

section \<open>The calendar\<close>

text \<open>A day of the 400-year era as century, quadrennium, year and day of the year.\<close>

lemma era_day:
  fixes doe :: int
  assumes "0 \<le> doe" "doe < 146097"
  obtains c q k doy where "doe = 36524 * c + 1461 * q + 365 * k + doy" "c \<in> {0, 1, 2, 3}" "0 \<le> q" "q \<le> 24" "k \<in> {0, 1, 2, 3}"
    "0 \<le> doy" "doy \<le> 365" "doy = 365 \<longrightarrow> k = 3 \<and> (q < 24 \<or> c = 3)"
proof -
  define c where "c = (if doe div 36524 < 3 then doe div 36524 else 3)"
  define r where "r = doe - 36524 * c"
  have c: "c \<in> {0, 1, 2, 3}" "0 \<le> r" "r \<le> 36524" "c < 3 \<longrightarrow> r < 36524"
    using assms unfolding r_def c_def by (auto split: if_splits)
  define q where "q = r div 1461"
  define u where "u = r - 1461 * q"
  have q: "0 \<le> q" "q \<le> 24" "0 \<le> u" "u \<le> 1460" "q = 24 \<longrightarrow> u \<le> 1460 \<and> (c < 3 \<longrightarrow> u < 1460)"
  proof -
    have ru: "r = 1461 * q + u" "0 \<le> u" "u < 1461" by (simp_all add: u_def q_def minus_mult_div_eq_mod)
    then show "0 \<le> q" "q \<le> 24" "0 \<le> u" "u \<le> 1460" "q = 24 \<longrightarrow> u \<le> 1460 \<and> (c < 3 \<longrightarrow> u < 1460)"
      using c(2-4) by linarith+
  qed
  define k where "k = (if u div 365 < 3 then u div 365 else 3)"
  define doy where "doy = u - 365 * k"
  have k: "k \<in> {0, 1, 2, 3}" "0 \<le> doy" "doy \<le> 365" "doy = 365 \<longrightarrow> k = 3 \<and> u = 1460"
    using q(3,4) unfolding doy_def k_def by (auto split: if_splits)
  have "doe = 36524 * c + 1461 * q + 365 * k + doy" by (simp add: r_def u_def doy_def)
  moreover have "doy = 365 \<longrightarrow> k = 3 \<and> (q < 24 \<or> c = 3)" using k(4) q(2,5) c(1) by auto
  ultimately show ?thesis using that c(1) q(1,2) k(1-3) by blast
qed

lemma era_year:
  fixes doe :: int
  assumes "doe = 36524 * c + 1461 * q + 365 * k + doy" "c \<in> {0, 1, 2, 3}" "0 \<le> q" "q \<le> 24" "k \<in> {0, 1, 2, 3}"
    "0 \<le> doy" "doy \<le> 365" "doy = 365 \<longrightarrow> k = 3 \<and> (q < 24 \<or> c = 3)"
  shows "(doe - doe div 1460 + doe div 36524 - doe div 146096) div 365 = 100 * c + 4 * q + k"
proof -
  define r where "r = 1461 * q + 365 * k + doy"
  have r: "0 \<le> r" "r \<le> 36524" "c < 3 \<longrightarrow> r < 36524" using assms(2-8) by (auto simp: r_def)
  have doe: "doe = 36524 * c + r" by (simp add: assms(1) r_def)
  have cc: "doe div 36524 - doe div 146096 = c"
  proof (cases "r = 36524")
    case True
    then have "c = 3" using r(3) assms(2) by auto
    then show ?thesis using doe True by simp
  next
    case False
    then have "doe div 36524 = c" using r doe by simp
    moreover have "doe div 146096 = 0" using r False doe assms(2) by auto
    ultimately show ?thesis by simp
  qed
  define e where "e = 24 * c + q + 365 * k + doy"
  have e: "0 \<le> e" "e < 2920" "doy = 0 \<longrightarrow> e < 1460" "doy = 365 \<longrightarrow> 1460 \<le> e"
    using assms(2-8) unfolding e_def by auto
  have "doe = 1460 * (25 * c + q) + e" by (simp add: assms(1) e_def)
  then have "doe div 1460 = 25 * c + q + e div 1460" by simp
  moreover have "e div 1460 = (if e < 1460 then 0 else 1)" using e(1,2) by (auto intro: int_div_pos_eq [where r = "e - 1460"])
  ultimately have "doe - doe div 1460 + doe div 36524 - doe div 146096 =
      365 * (100 * c + 4 * q + k) + (doy - (if e < 1460 then 0 else 1))"
    using cc assms(1) by simp
  moreover have "0 \<le> doy - (if e < 1460 then 0 else 1) \<and> doy - (if e < 1460 then 0 else 1) < 365"
    using e assms(6,7) by auto
  ultimately show ?thesis by (intro int_div_pos_eq) auto
qed

lemma year_days:
  fixes c :: int
  assumes "c \<in> {0, 1, 2, 3}" "0 \<le> q" "q \<le> 24" "k \<in> {0, 1, 2, 3}"
  shows "365 * (100 * c + 4 * q + k) + (100 * c + 4 * q + k) div 4 - (100 * c + 4 * q + k) div 100 = 36524 * c + 1461 * q + 365 * k"
proof -
  have "(100 * c + 4 * q + k) div 4 = 25 * c + q" using assms by auto
  moreover have "(100 * c + 4 * q + k) div 100 = c" using assms by auto
  ultimately show ?thesis by simp
qed

lemma month_day:
  fixes doy :: int
  assumes "0 \<le> doy" "doy \<le> 365"
  defines "mp \<equiv> (5 * doy + 2) div 153"
  defines "d \<equiv> doy - (153 * mp + 2) div 5 + 1"
  shows "0 \<le> mp \<and> mp \<le> 11 \<and> 1 \<le> d \<and> d \<le> 31 \<and> (mp \<in> {1, 3, 6, 8} \<longrightarrow> d \<le> 30) \<and>
    (mp = 11 \<longrightarrow> d \<le> 29 \<and> (d = 29 \<longrightarrow> doy = 365))"
proof -
  have mp: "153 * mp \<le> 5 * doy + 2" "5 * doy + 2 < 153 * mp + 153" unfolding mp_def by presburger+
  then have "0 \<le> mp" "mp \<le> 11" using assms(1,2) by linarith+
  then have "mp \<in> {0, 1, 2, 3, 4, 5, 6, 7, 8, 9, 10, 11}" by (simp only: insert_iff empty_iff) presburger
  then show ?thesis using mp assms(1,2) unfolding d_def by auto
qed

text \<open>The calendar is a bijection: a day number reads back, and its date is one the parser accepts.\<close>

lemma civil_day_number:
  assumes "civil days = (y, m, d)"
  shows "day_number y m d = days \<and> 1 \<le> m \<and> m \<le> 12 \<and> 1 \<le> d \<and> d \<le> int (daysIn (nat m) y)"
proof -
  define era where "era = (days + 719468) div 146097"
  define doe where "doe = (days + 719468) mod 146097"
  have days: "days = era * 146097 + doe - 719468" by (simp add: era_def doe_def)
  have "0 \<le> doe" "doe < 146097" by (simp_all add: doe_def)
  then obtain c q k doy where D: "doe = 36524 * c + 1461 * q + 365 * k + doy" "c \<in> {0, 1, 2, 3}" "0 \<le> q" "q \<le> 24" "k \<in> {0, 1, 2, 3}"
    "0 \<le> doy" "doy \<le> 365" "doy = 365 \<longrightarrow> k = 3 \<and> (q < 24 \<or> c = 3)" by (rule era_day)
  define yoe where "yoe = 100 * c + 4 * q + k"
  have yoe: "(doe - doe div 1460 + doe div 36524 - doe div 146096) div 365 = yoe" "0 \<le> yoe" "yoe < 400"
    using era_year [OF D] D(2-5) by (auto simp: yoe_def)
  have doy: "doe - (365 * yoe + yoe div 4 - yoe div 100) = doy"
    using year_days [OF D(2-5)] D(1) by (simp add: yoe_def)
  define mp where "mp = (5 * doy + 2) div 153"
  define d0 where "d0 = doy - (153 * mp + 2) div 5 + 1"
  note md = month_day [OF D(6,7), folded mp_def, folded d0_def]
  have y: "y = yoe + era * 400 + (if m \<le> 2 then 1 else 0)" and m: "m = (if mp < 10 then mp + 3 else mp - 9)" and d: "d = d0"
    using assms [unfolded civil_def Let_def, folded era_def doe_def, unfolded yoe(1) doy, folded mp_def, folded d0_def] by auto
  have mm: "1 \<le> m" "m \<le> 12" "(if m \<le> 2 then m + 9 else m - 3) = mp" "m \<le> 2 \<longleftrightarrow> 10 \<le> mp" using md m by auto
  have y': "(if m \<le> 2 then y - 1 else y) = yoe + era * 400" using y by simp
  have "day_number y m d = days"
    unfolding day_number_def Let_def y' mm(3)
    using yoe(2,3) doy days d d0_def by simp
  moreover have "d \<le> int (daysIn (nat m) y)"
  proof (cases "m = 2")
    case True
    then have "mp = 11" using m md by (auto split: if_splits)
    then have le: "d \<le> 29" "d = 29 \<longrightarrow> doy = 365" using md d by auto
    have "leap y" if "doy = 365"
    proof -
      have y4: "y = 4 * (25 * c + q + 1 + 100 * era)" using y True D(8) that by (simp add: yoe_def)
      then have "y mod 4 = 0" by (metis mod_mult_self1_is_0)
      moreover have "y mod 100 \<noteq> 0 \<or> y mod 400 = 0"
      proof (cases "q < 24")
        case True
        have "y = 4 * q + 4 + (c + 4 * era) * 100" using y4 by simp
        then have "y mod 100 = (4 * q + 4) mod 100" by (simp only: mod_mult_self1)
        with True D(3) show ?thesis by simp
      next
        case False
        then have "y = (era + 1) * 400" using y4 D(4,8) that by simp
        then show ?thesis by simp
      qed
      ultimately show ?thesis by (simp add: leap_def)
    qed
    with le True show ?thesis by (auto simp: daysIn_def)
  next
    case False
    have "d \<le> 31" "mp \<in> {1, 3, 6, 8} \<longrightarrow> d \<le> 30" using md d by auto
    moreover have "nat m \<in> {4, 6, 9, 11} \<longrightarrow> mp \<in> {1, 3, 6, 8}"
    proof
      assume "nat m \<in> {4, 6, 9, 11}"
      then have "m \<in> {4, 6, 9, 11}" using mm(1) by auto
      then show "mp \<in> {1, 3, 6, 8}" using m md by (auto split: if_splits)
    qed
    moreover have "nat m \<noteq> 2" using False mm(1) by auto
    ultimately show ?thesis by (auto simp: daysIn_def)
  qed
  ultimately show ?thesis using mm(1,2) md d by simp
qed

section \<open>Printing and parsing\<close>

lemma digit_value_char [simp]: "x < 10 \<Longrightarrow> digit_value (digit_char x) = Some x"
  by (simp add: digit_value_def of_char_digit_char)

lemma digit_char_0: "digit_char 0 = CHR ''0''"
  by (simp add: digit_char_def char_of_eq_iff)

lemma pad_two:
  assumes "n < 100"
  shows "pad_int 2 (int n) = [digit_char (n div 10), digit_char (n mod 10)]"
proof (cases "n < 10")
  case True
  then show ?thesis by (simp add: pad_int_def Let_def dec_digits.simps [of n] digit_char_0 numeral_2_eq_2)
next
  case False
  have "n div 10 < 10" using assms by simp
  with False show ?thesis by (simp add: pad_int_def Let_def dec_digits.simps [of n] dec_digits.simps [of "n div 10"])
qed

lemma pad_four: "n < 10000 \<Longrightarrow> pad_int 4 (int n) =
  [digit_char (n div 1000), digit_char (n div 100 mod 10), digit_char (n div 10 mod 10), digit_char (n mod 10)]"
proof -
  assume n: "n < 10000"
  note z = digit_char_0
  have d: "n div 10 div 10 = n div 100" "n div 100 div 10 = n div 1000" by (simp_all add: div_mult2_eq [symmetric])
  consider "n < 10" | "10 \<le> n" "n < 100" | "100 \<le> n" "n < 1000" | "1000 \<le> n" by linarith
  then show ?thesis
  proof cases
    case 1
    then show ?thesis by (simp add: pad_int_def Let_def dec_digits.simps [of n] z numeral_3_eq_3)
  next
    case 2
    then have "n div 10 < 10" "n div 100 = 0" "n div 1000 = 0" by auto
    with 2 show ?thesis
      by (simp add: pad_int_def Let_def dec_digits.simps [of n] dec_digits.simps [of "n div 10"] z numeral_2_eq_2)
  next
    case 3
    then have "n div 100 < 10" "\<not> n div 10 < 10" "n div 1000 = 0" by auto
    with 3 d show ?thesis
      by (simp add: pad_int_def Let_def dec_digits.simps [of n] dec_digits.simps [of "n div 10"] dec_digits.simps [of "n div 100"] z)
  next
    case 4
    then have "n div 1000 < 10" "\<not> n div 10 < 10" "\<not> n div 100 < 10" using n by auto
    with 4 d show ?thesis
      by (simp add: pad_int_def Let_def dec_digits.simps [of n] dec_digits.simps [of "n div 10"] dec_digits.simps [of "n div 100"]
          dec_digits.simps [of "n div 1000"])
  qed
qed

lemma getnum_pad: "n < 100 \<Longrightarrow> getnum (pad_int 2 (int n) @ r) f = Some (n, r)"
proof -
  assume n: "n < 100"
  then have "n div 10 < 10" by simp
  with n show ?thesis by (simp add: pad_two getnum_def) 
qed

lemma year4_pad: "n < 10000 \<Longrightarrow> year4 (pad_int 4 (int n) @ r) = Some (n, r)"
proof -
  assume n: "n < 10000"
  then have "n div 1000 < 10" by simp
  moreover have "1000 * (n div 1000) + 100 * (n div 100 mod 10) + 10 * (n div 10 mod 10) + n mod 10 = n"
  proof -
    have "n div 10 div 10 = n div 100" "n div 100 div 10 = n div 1000" by (simp_all add: div_mult2_eq [symmetric])
    then show ?thesis
      using div_mult_mod_eq [of n 10] div_mult_mod_eq [of "n div 10" 10] div_mult_mod_eq [of "n div 100" 10] by linarith
  qed
  ultimately show ?thesis using n by (simp add: pad_four year4_def)
qed

lemma take_fraction_Z: "take_fraction ''Z'' = (0, ''Z'')"
  by (simp add: take_fraction_def)

lemma take_zone_Z: "take_zone ''Z'' = Some 0"
  by (simp add: take_zone_def)

lemma skip_Cons [simp]: "skip c (c # r) = Some r"
  by (simp add: skip_def)

lemma Format_fields:
  assumes "civil (t div Second div 86400) = (y, m, d)"
  shows "Format_RFC3339 t = pad_int 4 y @ CHR ''-'' # pad_int 2 m @ CHR ''-'' # pad_int 2 d @ CHR ''T'' #
    pad_int 2 (t div Second mod 86400 div 3600) @ CHR '':'' # pad_int 2 (t div Second mod 86400 div 60 mod 60) @ CHR '':'' #
    pad_int 2 (t div Second mod 86400 mod 60) @ ''Z''"
  unfolding Format_RFC3339_def format_seconds_def Let_def assms prod.case append_Cons append_Nil append_assoc by (rule refl)

text \<open>Years 0 to 9999, to the second.\<close>

lemma Parse_Format:
  assumes "civil (t div Second div 86400) = (y, m, d)" "0 \<le> y" "y \<le> 9999"
  shows "Parse_RFC3339 (Format_RFC3339 t) = Some (t - t mod Second)"
proof -
  define s where "s = t div Second"
  define r where "r = s mod 86400"
  note cal = civil_day_number [OF assms(1), folded s_def]
  have r: "0 \<le> r" "r < 86400" by (simp_all add: r_def)
  define h mi sc where "h = nat (r div 3600)" and "mi = nat (r div 60 mod 60)" and "sc = nat (r mod 60)"
  have hms: "int h = r div 3600" "int mi = r div 60 mod 60" "int sc = r mod 60" "h < 24" "mi < 60" "sc < 60"
    using r by (auto simp: h_def mi_def sc_def)
  have sum: "int h * 3600 + int mi * 60 + int sc = r"
  proof -
    have "r div 60 div 60 = r div 3600" by (simp add: zdiv_zmult2_eq [symmetric])
    then show ?thesis
      using div_mult_mod_eq [of r 60] div_mult_mod_eq [of "r div 60" 60] unfolding hms by linarith
  qed
  have nats: "int (nat y) = y" "int (nat m) = m" "int (nat d) = d" "nat y < 10000" "nat m < 100" "nat d < 100"
    using cal assms(2,3) by (auto simp: daysIn_def split: if_splits)
  have f: "Format_RFC3339 t = pad_int 4 (int (nat y)) @ CHR ''-'' # pad_int 2 (int (nat m)) @ CHR ''-'' # pad_int 2 (int (nat d)) @
      CHR ''T'' # pad_int 2 (int h) @ CHR '':'' # pad_int 2 (int mi) @ CHR '':'' # pad_int 2 (int sc) @ ''Z''"
    unfolding nats(1-3) hms(1-3) unfolding r_def s_def by (rule Format_fields [OF assms(1)])
  have "1 \<le> nat m" "nat m \<le> 12" "1 \<le> nat d" using cal nats(2,3) by linarith+
  moreover have "nat d \<le> daysIn (nat m) (int (nat y))" using cal nats(1,3) by (simp only: nats(1)) linarith
  ultimately have ok: "\<not> (nat m < 1 \<or> 12 < nat m \<or> nat d < 1 \<or> daysIn (nat m) (int (nat y)) < nat d \<or> 24 \<le> h \<or> 60 \<le> mi \<or> 60 \<le> sc)"
    using hms(4-6) by linarith
  have val: "(day_number (int (nat y)) (int (nat m)) (int (nat d)) * 86400 + int h * 3600 + int mi * 60 + int sc - 0) * Second + 0 = t - t mod Second"
  proof -
    have "day_number (int (nat y)) (int (nat m)) (int (nat d)) * 86400 + (int h * 3600 + int mi * 60 + int sc) = s"
      unfolding nats(1-3) sum using cal by (simp add: r_def)
    then show ?thesis by (simp add: add.assoc s_def minus_mod_eq_div_mult)
  qed
  have "h < 100" "mi < 100" "sc < 100" using hms by auto
  with nats(4-6) show ?thesis
    unfolding f Parse_RFC3339_def
    by (simp only: year4_pad getnum_pad skip_Cons take_fraction_Z take_zone_Z bind.bind_lunit prod.case Let_def if_True ok if_False val)
qed

end
