(* ===== verification/Json.thy ===== *)
theory Json
  imports Rfc3339 "HOL-Library.Log_Nat"
begin

text \<open>
  The part of \<open>encoding/json\<close> the handlers use: \<open>json.NewDecoder(r.Body).Decode(&req)\<close> into a struct of
  strings, booleans, numbers and times. \<open>json_value\<close> reads one value off the input (anything after it
  is not looked at) and keeps the text of a string as it stands between its quotes, because
  \<open>time.Time\<close> reads that text; \<open>unquote\<close> is the decoded string, with invalid UTF-8 and lone surrogates
  replaced. A member is matched to a field by its exact name or else up to case, \<open>null\<close> leaves a
  plain field as it was, the last member wins, unknown members are skipped and a value of the wrong
  type fails the decoding.

  Nesting beyond 10000 is refused, as the scanner does; the first parameter of the mutually
  recursive functions bounds the calls, each of which consumes input or is the only one on its
  suffix, so twice the length of the input is enough (\<open>json_value_fuel\<close>).
\<close>

section \<open>Numbers\<close>

text \<open>\<open>float64\<close> as the set of rationals it represents: rounding to the nearest, ties to even.\<close>

definition ilog2 :: "rat \<Rightarrow> int" where
  "ilog2 q = (let (n, d) = quotient_of q; e = bitlen n - bitlen d in if q < 2 powi e then e - 1 else e)"

definition round_even :: "rat \<Rightarrow> int" where
  "round_even x = (let f = \<lfloor>x\<rfloor>; r = x - of_int f in
     if r < 1 / 2 then f else if 1 / 2 < r then f + 1 else if even f then f else f + 1)"

definition float64 :: "rat \<Rightarrow> rat option" where
  "float64 q = (if q = 0 then Some 0
     else let e = max (ilog2 \<bar>q\<bar> - 52) (- 1074); v = of_int (round_even (\<bar>q\<bar> / 2 powi e)) * 2 powi e in
       if 2 ^ 1024 \<le> v then None else Some (sgn q * v))"

section \<open>Syntax\<close>

datatype jval = VNull | VBool bool | VNum rat | VStr string | VArr "jval list" | VObj "(string \<times> jval) list"

definition skip_ws :: "string \<Rightarrow> string" where
  "skip_ws = dropWhile (\<lambda>c. c \<in> {CHR '' '', CHR 0x09, CHR 0x0A, CHR 0x0D})"

definition hex_value :: "char \<Rightarrow> nat option" where
  "hex_value c = (let n = of_char c :: nat in
     if 48 \<le> n \<and> n \<le> 57 then Some (n - 48) else if 97 \<le> n \<and> n \<le> 102 then Some (n - 87)
     else if 65 \<le> n \<and> n \<le> 70 then Some (n - 55) else None)"

text \<open>An escape after its backslash.\<close>

definition scan_escape :: "string \<Rightarrow> (string \<times> string) option" where
  "scan_escape s = (case s of
      [] \<Rightarrow> None
    | e # r \<Rightarrow>
        if e \<in> {CHR ''b'', CHR ''f'', CHR ''n'', CHR ''r'', CHR ''t'', CHR 0x5C, CHR ''/'', CHR 0x22} then Some ([e], r)
        else if e = CHR ''u'' \<and> 4 \<le> length r \<and> list_all (\<lambda>h. hex_value h \<noteq> None) (take 4 r)
        then Some (e # take 4 r, drop 4 r)
        else None)"

lemma scan_escape_rest [termination_simp]: "scan_escape s = Some (x, r) \<Longrightarrow> length r < length s"
  by (cases s) (auto simp: scan_escape_def split: if_splits)

text \<open>The rest of a string literal after its opening quote: the text up to the closing one.\<close>

fun scan_string :: "string \<Rightarrow> (string \<times> string) option" where
  "scan_string [] = None"
| "scan_string (c # s) =
     (if c = CHR 0x22 then Some ([], s)
      else if c = CHR 0x5C then
        (case scan_escape s of
          None \<Rightarrow> None
        | Some (e, r) \<Rightarrow> map_option (\<lambda>(x, y). (c # e @ x, y)) (scan_string r))
      else if (of_char c :: nat) < 32 then None
      else map_option (\<lambda>(x, y). (c # x, y)) (scan_string s))"

text \<open>A number literal: sign, integer part without leading zeros, fraction, exponent.\<close>

definition scan_digits :: "string \<Rightarrow> (string \<times> string) option" where
  "scan_digits s = (let ds = takeWhile is_dec s in if ds = [] then None else Some (ds, dropWhile is_dec s))"

definition scan_integer :: "string \<Rightarrow> (string \<times> string) option" where
  "scan_integer s = (case s of
      c # r \<Rightarrow> if c = CHR ''0'' then Some (''0'', r) else scan_digits s
    | [] \<Rightarrow> None)"

definition scan_frac :: "string \<Rightarrow> (string \<times> string) option" where
  "scan_frac s = (case s of c # r \<Rightarrow> if c = CHR ''.'' then scan_digits r else Some ([], s) | [] \<Rightarrow> Some ([], s))"

definition take_sign :: "string \<Rightarrow> string \<Rightarrow> bool \<times> string" where
  "take_sign signs s = (case s of c # r \<Rightarrow> if c \<in> set signs then (c = CHR ''-'', r) else (False, s) | [] \<Rightarrow> (False, s))"

definition scan_exp :: "string \<Rightarrow> (int \<times> string) option" where
  "scan_exp s = (case s of
      c # r \<Rightarrow>
        if c = CHR ''e'' \<or> c = CHR ''E'' then
          (let (neg, r') = take_sign ''+-'' r in
           map_option (\<lambda>(ds, z). (if neg then - int (dec_value ds) else int (dec_value ds), z)) (scan_digits r'))
        else Some (0, s)
    | [] \<Rightarrow> Some (0, s))"

definition scan_number :: "string \<Rightarrow> (rat \<times> string) option" where
  "scan_number s =
     (let (neg, s0) = take_sign ''-'' s in
      Option.bind (scan_integer s0) (\<lambda>(is, s1). Option.bind (scan_frac s1) (\<lambda>(fs, s2).
      Option.bind (scan_exp s2) (\<lambda>(e, s3).
        let m = of_nat (dec_value (is @ fs)) * 10 powi (e - int (length fs)) in
        Some (if neg then - m else m, s3)))))"

text \<open>Values. \<open>json_elems\<close> follows an opening bracket or a comma of an array, \<open>json_members\<close> an opening
  brace or a comma of an object.\<close>

definition literal :: "string \<Rightarrow> jval \<Rightarrow> string \<Rightarrow> (jval \<times> string) option" where
  "literal l v s = (if take (length l) s = l then Some (v, drop (length l) s) else None)"

definition json_scalar :: "char \<Rightarrow> string \<Rightarrow> (jval \<times> string) option" where
  "json_scalar c r =
     (if c = CHR 0x22 then map_option (map_prod VStr id) (scan_string r)
      else if c = CHR ''t'' then literal ''true'' (VBool True) (c # r)
      else if c = CHR ''f'' then literal ''false'' (VBool False) (c # r)
      else if c = CHR ''n'' then literal ''null'' VNull (c # r)
      else map_option (map_prod VNum id) (scan_number (c # r)))"

definition next_char :: "string \<Rightarrow> (char \<times> string) option" where
  "next_char s = (case skip_ws s of [] \<Rightarrow> None | c # r \<Rightarrow> Some (c, r))"

fun json_value :: "nat \<Rightarrow> nat \<Rightarrow> string \<Rightarrow> (jval \<times> string) option"
and json_elems :: "nat \<Rightarrow> nat \<Rightarrow> string \<Rightarrow> (jval list \<times> string) option"
and json_members :: "nat \<Rightarrow> nat \<Rightarrow> string \<Rightarrow> ((string \<times> jval) list \<times> string) option" where
  "json_value 0 d s = None"
| "json_value (Suc n) d s = Option.bind (next_char s) (\<lambda>(c, r).
      if c = CHR ''['' then
        if d = 0 then None
        else Option.bind (next_char r) (\<lambda>(x, r'). if x = CHR '']'' then Some (VArr [], r')
             else map_option (map_prod VArr id) (json_elems n (d - 1) r))
      else if c = CHR ''{'' then
        if d = 0 then None
        else Option.bind (next_char r) (\<lambda>(x, r'). if x = CHR ''}'' then Some (VObj [], r')
             else map_option (map_prod VObj id) (json_members n (d - 1) r))
      else json_scalar c r)"
| "json_elems 0 d s = None"
| "json_elems (Suc n) d s = Option.bind (json_value n d s) (\<lambda>(v, r). Option.bind (next_char r) (\<lambda>(c, r').
      if c = CHR '']'' then Some ([v], r')
      else if c = CHR '','' then map_option (map_prod (Cons v) id) (json_elems n d r')
      else None))"
| "json_members 0 d s = None"
| "json_members (Suc n) d s = Option.bind (next_char s) (\<lambda>(q, r). if q \<noteq> CHR 0x22 then None
      else Option.bind (scan_string r) (\<lambda>(k, r1). Option.bind (next_char r1) (\<lambda>(c1, r2). if c1 \<noteq> CHR '':'' then None
      else Option.bind (json_value n d r2) (\<lambda>(v, r3). Option.bind (next_char r3) (\<lambda>(c2, r4).
        if c2 = CHR ''}'' then Some ([(k, v)], r4)
        else if c2 = CHR '','' then map_option (map_prod (Cons (k, v)) id) (json_members n d r4)
        else None)))))"

definition json_Decode :: "string \<Rightarrow> jval option" where
  "json_Decode s = map_option fst (json_value (2 * length s + 2) 10000 s)"

text \<open>What a value leaves of the input is shorter than the input, and past twice its length more fuel
  changes nothing.\<close>

lemma skip_ws_length: "length (skip_ws s) \<le> length s"
  by (simp add: skip_ws_def length_dropWhile_le)

lemma skip_ws_rest: "skip_ws s = c # r \<Longrightarrow> length r < length s"
  using skip_ws_length [of s] by simp

lemma scan_string_rest: "scan_string s = Some (x, r) \<Longrightarrow> length r < length s"
proof (induction s arbitrary: x r rule: scan_string.induct)
  case (2 c s)
  show ?case
  proof (cases "c = CHR 0x5C")
    case True
    with "2.prems" obtain e r' x' where e: "scan_escape s = Some (e, r')" and "scan_string r' = Some (x', r)"
      by (auto split: option.splits)
    with "2.IH"(1) [of "(e, r')" e r'] True have "length r < length r'" by simp
    with scan_escape_rest [OF e] show ?thesis by simp
  next
    case False
    with "2.prems" show ?thesis by (auto split: if_splits dest!: "2.IH"(2))
  qed
qed simp

lemma scan_digits_rest: "scan_digits s = Some (x, r) \<Longrightarrow> length r < length s"
  by (cases s) (auto simp: scan_digits_def Let_def le_imp_less_Suc length_dropWhile_le split: if_splits)

lemma take_sign_rest: "take_sign signs s = (neg, r) \<Longrightarrow> length r \<le> length s"
  by (cases s) (auto simp: take_sign_def split: if_splits)

lemma scan_integer_rest: "scan_integer s = Some (i, r) \<Longrightarrow> length r < length s"
  by (cases s) (auto simp: scan_integer_def split: if_splits dest!: scan_digits_rest)

lemma scan_frac_rest: "scan_frac s = Some (f, r) \<Longrightarrow> length r \<le> length s"
  by (cases s) (auto simp: scan_frac_def split: if_splits dest!: scan_digits_rest)

lemma scan_exp_rest:
  assumes "scan_exp s = Some (e, r)"
  shows "length r \<le> length s"
proof (cases s)
  case (Cons c t)
  obtain neg t' where t: "take_sign ''+-'' t = (neg, t')" by fastforce
  from take_sign_rest [OF this] assms Cons t show ?thesis
    by (auto simp: scan_exp_def split: if_splits dest!: scan_digits_rest)
qed (use assms in \<open>simp add: scan_exp_def\<close>)

lemma scan_number_rest:
  assumes "scan_number s = Some (q, r)"
  shows "length r < length s"
proof -
  obtain neg s0 where s0: "take_sign ''-'' s = (neg, s0)" by fastforce
  with assms obtain i s1 f s2 e where "scan_integer s0 = Some (i, s1)" "scan_frac s1 = Some (f, s2)" "scan_exp s2 = Some (e, r)"
    by (auto simp: scan_number_def Let_def bind_eq_Some_conv)
  then show ?thesis
    using take_sign_rest [OF s0] scan_integer_rest scan_frac_rest scan_exp_rest by fastforce
qed

lemma literal_rest: "literal l v s = Some (w, r) \<Longrightarrow> l \<noteq> [] \<Longrightarrow> s \<noteq> [] \<Longrightarrow> length r < length s"
  by (cases s) (auto simp: literal_def split: if_splits)

lemma json_scalar_rest: "json_scalar c r = Some (v, z) \<Longrightarrow> length z < Suc (length r)"
  by (auto simp: json_scalar_def split: if_splits dest!: scan_string_rest literal_rest scan_number_rest)

lemma next_char_rest: "next_char s = Some (c, r) \<Longrightarrow> length r < length s"
  by (auto simp: next_char_def split: list.splits dest: skip_ws_rest)

lemma json_rest:
  "json_value n d s = Some (v, r) \<Longrightarrow> length r < length s"
  "json_elems n d s = Some (vs, r) \<Longrightarrow> length r < length s"
  "json_members n d s = Some (ms, r) \<Longrightarrow> length r < length s"
proof (induction n d s and n d s and n d s arbitrary: v r and vs r and ms r
    rule: json_value_json_elems_json_members.induct)
  case (2 n d s)
  from "2.prems" obtain c t where c: "next_char s = Some (c, t)" by (auto simp: bind_eq_Some_conv)
  note t = next_char_rest [OF c]
  from "2.prems" c consider
      x r' where "next_char t = Some (x, r')" "r = r'"
    | x t' vs where "c = CHR ''[''" "d \<noteq> 0" "next_char t = Some (x, t')" "x \<noteq> CHR '']''" "json_elems n (d - 1) t = Some (vs, r)"
    | x t' ms where "c = CHR ''{''" "d \<noteq> 0" "next_char t = Some (x, t')" "x \<noteq> CHR ''}''" "json_members n (d - 1) t = Some (ms, r)"
    | "json_scalar c t = Some (v, r)"
    by (auto simp: bind_eq_Some_conv split: if_splits)
  then show ?case
  proof cases
    case 1
    then show ?thesis using t by (auto dest: next_char_rest)
  next
    case 2
    with "2.IH"(1) [OF c refl] t show ?thesis by fastforce
  next
    case 3
    with "2.IH"(2) [OF c refl] t show ?thesis by fastforce
  next
    case 4
    then show ?thesis using t by (auto dest: json_scalar_rest)
  qed
next
  case (4 n d s)
  from "4.prems" obtain v r1 c r2 where v: "json_value n d s = Some (v, r1)" and c: "next_char r1 = Some (c, r2)"
    and "r = r2 \<or> (c = CHR '','' \<and> (\<exists>vs'. json_elems n d r2 = Some (vs', r)))"
    by (auto simp: bind_eq_Some_conv split: if_splits)
  then show ?case
    using "4.IH"(1) [OF v] next_char_rest [OF c] "4.IH"(2) [OF v refl c refl] by fastforce
next
  case (6 n d s)
  from "6.prems" obtain t k r1 r2 v r3 c r4 where q: "next_char s = Some (CHR 0x22, t)" and k: "scan_string t = Some (k, r1)"
    and c1: "next_char r1 = Some (CHR '':'', r2)" and v: "json_value n d r2 = Some (v, r3)" and c: "next_char r3 = Some (c, r4)"
    and r: "r = r4 \<or> (c = CHR '','' \<and> (\<exists>ms'. json_members n d r4 = Some (ms', r)))"
    by (auto simp: bind_eq_Some_conv split: if_splits)
  have "length r3 < length r2" using "6.IH"(1) [OF q refl _ k refl c1 refl _ v] by simp
  moreover have "length r \<le> length r4"
    using r "6.IH"(2) [OF q refl _ k refl c1 refl _ v refl c refl] by fastforce
  ultimately show ?case using q k c1 c by (auto dest!: next_char_rest scan_string_rest)
qed simp_all

lemma json_fuel:
  "2 * length s + 1 \<le> n \<Longrightarrow> n \<le> m \<Longrightarrow> json_value n d s = json_value m d s"
  "2 * length s + 2 \<le> n \<Longrightarrow> n \<le> m \<Longrightarrow> json_elems n d s = json_elems m d s"
  "2 * length s + 2 \<le> n \<Longrightarrow> n \<le> m \<Longrightarrow> json_members n d s = json_members m d s"
proof (induction n d s and n d s and n d s arbitrary: m and m and m rule: json_value_json_elems_json_members.induct)
  case (2 n d s)
  from "2.prems" obtain m' where m: "m = Suc m'" "n \<le> m'" by (cases m) auto
  have "json_elems n (d - 1) r = json_elems m' (d - 1) r"
    if "next_char s = Some (c, r)" "c = CHR ''[''" "d \<noteq> 0" "next_char r = Some (x, r')" "x \<noteq> CHR '']''" for c r x r'
    by (rule "2.IH"(1) [OF that(1) refl that(2-4) refl that(5)]) (use next_char_rest [OF that(1)] "2.prems"(1) m in simp_all)
  moreover have "json_members n (d - 1) r = json_members m' (d - 1) r"
    if "next_char s = Some (c, r)" "c \<noteq> CHR ''[''" "c = CHR ''{''" "d \<noteq> 0" "next_char r = Some (x, r')" "x \<noteq> CHR ''}''" for c r x r'
    by (rule "2.IH"(2) [OF that(1) refl that(2-5) refl that(6)]) (use next_char_rest [OF that(1)] "2.prems"(1) m in simp_all)
  ultimately show ?case by (auto simp: m intro!: Option.bind_cong split: if_splits)
next
  case (4 n d s)
  from "4.prems" obtain m' where m: "m = Suc m'" "n \<le> m'" by (cases m) auto
  have v: "json_value n d s = json_value m' d s" by (rule "4.IH"(1)) (use "4.prems"(1) m in simp_all)
  show ?case unfolding m json_elems.simps
  proof (rule Option.bind_cong [OF v], clarify, rule Option.bind_cong [OF refl], clarify)
    fix v r c r'
    assume r: "json_value m' d s = Some (v, r)" and c: "next_char r = Some (c, r')"
    have "json_elems n d r' = json_elems m' d r'" if "c \<noteq> CHR '']''" "c = CHR '',''"
      by (rule "4.IH"(2) [OF r [folded v] refl c refl that])
        (use json_rest(1) [OF r] next_char_rest [OF c] "4.prems"(1) m in simp_all)
    then show "(if c = CHR '']'' then Some ([v], r')
        else if c = CHR '','' then map_option (map_prod (Cons v) id) (json_elems n d r') else None) =
      (if c = CHR '']'' then Some ([v], r')
        else if c = CHR '','' then map_option (map_prod (Cons v) id) (json_elems m' d r') else None)"
      by simp
  qed
next
  case (6 n d s)
  from "6.prems" obtain m' where m: "m = Suc m'" "n \<le> m'" by (cases m) auto
  show ?case
  proof (simp add: m, intro Option.bind_cong refl, clarsimp, intro Option.bind_cong refl, clarsimp,
      intro Option.bind_cong refl, clarsimp)
    fix t k r1 r2
    assume q: "next_char s = Some (CHR 0x22, t)" and k: "scan_string t = Some (k, r1)" and c1: "next_char r1 = Some (CHR '':'', r2)"
    have r2: "length r2 < length s" using next_char_rest [OF q] scan_string_rest [OF k] next_char_rest [OF c1] by simp
    have v: "json_value n d r2 = json_value m' d r2"
      by (rule "6.IH"(1) [OF q refl _ k refl c1 refl]) (use r2 "6.prems"(1) m in simp_all)
    have "json_members n d r4 = json_members m' d r4"
      if "json_value n d r2 = Some (v, r3)" "next_char r3 = Some (c, r4)" "c \<noteq> CHR ''}''" "c = CHR '',''" for v r3 c r4
      by (rule "6.IH"(2) [OF q refl _ k refl c1 refl _ that(1) refl that(2) refl that(3,4)])
        (use r2 json_rest(1) [OF that(1)] next_char_rest [OF that(2)] "6.prems"(1) m in simp_all)
    with v show "Option.bind (json_value n d r2) (\<lambda>(v, r3). Option.bind (next_char r3) (\<lambda>(c2, r4).
        if c2 = CHR ''}'' then Some ([(k, v)], r4)
        else if c2 = CHR '','' then map_option (map_prod (Cons (k, v)) id) (json_members n d r4) else None)) =
      Option.bind (json_value m' d r2) (\<lambda>(v, r3). Option.bind (next_char r3) (\<lambda>(c2, r4).
        if c2 = CHR ''}'' then Some ([(k, v)], r4)
        else if c2 = CHR '','' then map_option (map_prod (Cons (k, v)) id) (json_members m' d r4) else None))"
      by (auto intro!: Option.bind_cong split: if_splits)
  qed
qed simp_all

lemma json_value_fuel: "2 * length s + 2 \<le> n \<Longrightarrow> json_Decode s = map_option fst (json_value n 10000 s)"
  unfolding json_Decode_def by (subst json_fuel(1) [of s "2 * length s + 2" n]) simp_all

section \<open>Strings\<close>

text \<open>\<open>utf8.DecodeRune\<close> as far as it is needed here: the length of the valid encoding a text starts with.\<close>

definition cont :: "nat \<Rightarrow> bool" where
  "cont b \<longleftrightarrow> 128 \<le> b \<and> b < 192"

definition utf8_run :: "string \<Rightarrow> nat option" where
  "utf8_run s = (case map of_char s of
      [] \<Rightarrow> None
    | a # r \<Rightarrow>
        if a < 128 then Some 1
        else if 194 \<le> a \<and> a < 224 then (case r of b # _ \<Rightarrow> if cont b then Some 2 else None | _ \<Rightarrow> None)
        else if 224 \<le> a \<and> a < 240 then (case r of
            b # c # _ \<Rightarrow> if cont b \<and> cont c \<and> (a = 224 \<longrightarrow> 160 \<le> b) \<and> (a = 237 \<longrightarrow> b < 160) then Some 3 else None
          | _ \<Rightarrow> None)
        else if 240 \<le> a \<and> a < 245 then (case r of
            b # c # d # _ \<Rightarrow> if cont b \<and> cont c \<and> cont d \<and> (a = 240 \<longrightarrow> 144 \<le> b) \<and> (a = 244 \<longrightarrow> b < 144)
              then Some 4 else None
          | _ \<Rightarrow> None)
        else None)"

text \<open>\<open>utf8.AppendRune\<close> of a code point that is not a surrogate.\<close>

definition utf8_encode :: "nat \<Rightarrow> string" where
  "utf8_encode u = map char_of
     (if u < 128 then [u]
      else if u < 2048 then [192 + u div 64, 128 + u mod 64]
      else if u < 65536 then [224 + u div 4096, 128 + u div 64 mod 64, 128 + u mod 64]
      else [240 + u div 262144, 128 + u div 4096 mod 64, 128 + u div 64 mod 64, 128 + u mod 64])"

definition replacement :: string where
  "replacement = [CHR 0xEF, CHR 0xBF, CHR 0xBD]"

text \<open>\<open>getu4\<close>: the four digits of an escaped code unit.\<close>

definition getu4 :: "string \<Rightarrow> nat option" where
  "getu4 s = (case s of
      b # u # h1 # h2 # h3 # h4 # _ \<Rightarrow>
        if b = CHR 0x5C \<and> u = CHR ''u''
        then (case (hex_value h1, hex_value h2, hex_value h3, hex_value h4) of
            (Some w, Some x, Some y, Some z) \<Rightarrow> Some (4096 * w + 256 * x + 16 * y + z)
          | _ \<Rightarrow> None)
        else None
    | _ \<Rightarrow> None)"

definition escape_char :: "char \<Rightarrow> char" where
  "escape_char e = (if e = CHR ''b'' then CHR 0x08 else if e = CHR ''f'' then CHR 0x0C else if e = CHR ''n'' then CHR 0x0A
     else if e = CHR ''r'' then CHR 0x0D else if e = CHR ''t'' then CHR 0x09 else e)"

text \<open>The decoded text at the head of a literal's text and the number of characters it takes.\<close>

definition unquote_step :: "string \<Rightarrow> string \<times> nat" where
  "unquote_step s =
     (if take 1 s = [CHR 0x5C] then
        (case getu4 s of
          Some u \<Rightarrow>
            if 55296 \<le> u \<and> u < 57344 then
              (case getu4 (drop 6 s) of
                Some v \<Rightarrow> if u < 56320 \<and> 56320 \<le> v \<and> v < 57344
                  then (utf8_encode (65536 + (u - 55296) * 1024 + (v - 56320)), 12) else (replacement, 6)
              | None \<Rightarrow> (replacement, 6))
            else (utf8_encode u, 6)
        | None \<Rightarrow> (map escape_char (take 1 (drop 1 s)), 2))
      else case utf8_run s of
          Some n \<Rightarrow> (take n s, n)
        | None \<Rightarrow> (replacement, 1))"

lemma unquote_step_advances: "0 < snd (unquote_step s)"
  by (auto simp: unquote_step_def utf8_run_def split: option.split list.split)

function unquote :: "string \<Rightarrow> string" where
  "unquote s = (if s = [] then [] else fst (unquote_step s) @ unquote (drop (snd (unquote_step s)) s))"
  by auto
termination
  by (relation "measure length") (auto simp: unquote_step_advances)

declare unquote.simps [simp del]

text \<open>Plain ASCII text stands for itself.\<close>

lemma unquote_plain: "\<forall>c \<in> set s. (of_char c :: nat) < 128 \<and> c \<noteq> CHR 0x5C \<Longrightarrow> unquote s = s"
proof (induction s)
  case (Cons c s)
  then have "unquote_step (c # s) = ([c], 1)" by (simp add: unquote_step_def utf8_run_def)
  with Cons show ?case by (subst unquote.simps) simp
qed (simp add: unquote.simps)

section \<open>Decoding into a struct\<close>

text \<open>\<open>foldName\<close> on what can match an ASCII name: letters lose their case, and two letters outside
  ASCII fold to an ASCII one.\<close>

fun fold_name :: "string \<Rightarrow> string" where
  "fold_name [] = []"
| "fold_name (c # s) =
     (if take 1 s = [CHR 0xBF] \<and> c = CHR 0xC5 then CHR ''S'' # fold_name (drop 1 s)
      else if take 2 s = [CHR 0x84, CHR 0xAA] \<and> c = CHR 0xE2 then CHR ''K'' # fold_name (drop 2 s)
      else let n = of_char c :: nat in (if 97 \<le> n \<and> n \<le> 122 then char_of (n - 32) else c) # fold_name s)"

text \<open>A struct is a list of field names with the decoder of each: the new struct, or the failure of
  the whole decoding.\<close>

type_synonym 'r fields = "(string \<times> (jval \<Rightarrow> 'r \<Rightarrow> 'r option)) list"

definition find_field :: "'r fields \<Rightarrow> string \<Rightarrow> (jval \<Rightarrow> 'r \<Rightarrow> 'r option) option" where
  "find_field fs k = (case map_of fs k of
      Some f \<Rightarrow> Some f
    | None \<Rightarrow> map_of (map (\<lambda>(n, f). (fold_name n, f)) fs) (fold_name k))"

fun decode_members :: "'r fields \<Rightarrow> (string \<times> jval) list \<Rightarrow> 'r \<Rightarrow> 'r option" where
  "decode_members fs [] r = Some r"
| "decode_members fs ((k, v) # ms) r = (case find_field fs (unquote k) of
      None \<Rightarrow> decode_members fs ms r
    | Some f \<Rightarrow> Option.bind (f v r) (decode_members fs ms))"

definition Decode :: "'r fields \<Rightarrow> 'r \<Rightarrow> string \<Rightarrow> 'r option" where
  "Decode fs zero body = Option.bind (json_Decode body) (\<lambda>v. case v of
      VObj ms \<Rightarrow> decode_members fs ms zero
    | VNull \<Rightarrow> Some zero
    | _ \<Rightarrow> None)"

definition string_field :: "((string \<Rightarrow> string) \<Rightarrow> 'r \<Rightarrow> 'r) \<Rightarrow> jval \<Rightarrow> 'r \<Rightarrow> 'r option" where
  "string_field upd v r = (case v of VStr x \<Rightarrow> Some (upd (\<lambda>_. unquote x) r) | VNull \<Rightarrow> Some r | _ \<Rightarrow> None)"

definition bool_field :: "((bool \<Rightarrow> bool) \<Rightarrow> 'r \<Rightarrow> 'r) \<Rightarrow> jval \<Rightarrow> 'r \<Rightarrow> 'r option" where
  "bool_field upd v r = (case v of VBool b \<Rightarrow> Some (upd (\<lambda>_. b) r) | VNull \<Rightarrow> Some r | _ \<Rightarrow> None)"

definition float_field :: "((rat \<Rightarrow> rat) \<Rightarrow> 'r \<Rightarrow> 'r) \<Rightarrow> jval \<Rightarrow> 'r \<Rightarrow> 'r option" where
  "float_field upd v r = (case v of
      VNum q \<Rightarrow> map_option (\<lambda>x. upd (\<lambda>_. x) r) (float64 q)
    | VNull \<Rightarrow> Some r
    | _ \<Rightarrow> None)"

text \<open>A \<open>*time.Time\<close> field: \<open>null\<close> resets the pointer.\<close>

definition time_field :: "((time option \<Rightarrow> time option) \<Rightarrow> 'r \<Rightarrow> 'r) \<Rightarrow> jval \<Rightarrow> 'r \<Rightarrow> 'r option" where
  "time_field upd v r = (case v of
      VStr x \<Rightarrow> map_option (\<lambda>t. upd (\<lambda>_. Some t) r) (Parse_RFC3339 x)
    | VNull \<Rightarrow> Some (upd (\<lambda>_. None) r)
    | _ \<Rightarrow> None)"

lemma find_field_exact: "map_of fs k = Some f \<Longrightarrow> find_field fs k = Some f"
  by (simp add: find_field_def)

end
