(* ===== verification/Handlers.thy ===== *)
theory Handlers
  imports Http Json Ports
begin

text \<open>
  \<^verbatim>\<open>internal/http/handlers\<close>: one record per handler struct, one definition per method. A request body
  is decoded by the field list of its struct (\<^verbatim>\<open>Json\<close>), a response struct is the JSON object with its
  tagged members in order. \<open>tenant_scoped\<close> is the first statement of every method behind
  authentication, \<open>with_body\<close> the decoding of the ones that read a body, \<open>answer\<close> the branch on the
  error of the service.

  The lemmas: every method is a function of the tenant and the user of the request context, never
  of a tenant named by the client; a body that does not decode reaches no service; which status
  each service error gets.
\<close>

definition PathValue :: "Request \<Rightarrow> string \<Rightarrow> string" where
  "PathValue r name = (case map_of (rq_PathValue r) name of Some v \<Rightarrow> v | None \<Rightarrow> [])"

definition tenant_scoped :: "(string \<Rightarrow> 's Handler) \<Rightarrow> 's Handler" where
  "tenant_scoped h r s = (let tenantID = TenantIDFrom (rq_Ctx r) in
     if tenantID = [] then (Ok (writeError 401 ''unauthorized''), s) else h tenantID r s)"

definition with_body :: "'r fields \<Rightarrow> 'r \<Rightarrow> ('r \<Rightarrow> 's Handler) \<Rightarrow> 's Handler" where
  "with_body fs zero h r s = (case Decode fs zero (rq_Body r) of
      None \<Rightarrow> (Ok (writeError 400 ''invalid JSON body''), s)
    | Some req \<Rightarrow> h req r s)"

definition answer_with :: "(go_error \<Rightarrow> 's \<Rightarrow> Response \<times> 's) \<Rightarrow> ('a \<Rightarrow> Response res) \<Rightarrow> 'a res \<times> 's \<Rightarrow> Response res \<times> 's" where
  "answer_with bad good out = (case out of
      (Ok x, s) \<Rightarrow> (good x, s)
    | (Err e, s) \<Rightarrow> (Ok (fst (bad e s)), snd (bad e s))
    | (Panic p, s) \<Rightarrow> (Panic p, s))"

abbreviation answer :: "(go_error \<Rightarrow> 's \<Rightarrow> Response \<times> 's) \<Rightarrow> ('a \<Rightarrow> Response) \<Rightarrow> 'a res \<times> 's \<Rightarrow> Response res \<times> 's" where
  "answer bad good \<equiv> answer_with bad (\<lambda>x. Ok (good x))"

lemma answer_simps [simp]:
  "answer_with bad good (Ok x, s) = (good x, s)"
  "answer_with bad good (Err e, s) = (Ok (fst (bad e s)), snd (bad e s))"
  "answer_with bad good (Panic p, s) = (Panic p, s)"
  by (simp_all add: answer_with_def)

definition noContent :: Response where
  "noContent = \<lparr>rs_Status = 204, rs_Header = [], rs_Body = Empty\<rparr>"

section \<open>Error mapping\<close>

definition log_and_500 :: "'s Logger \<Rightarrow> string \<Rightarrow> (string \<times> log_value) list \<Rightarrow> go_error \<Rightarrow> 's \<Rightarrow> Response \<times> 's" where
  "log_and_500 lg op attrs e s =
     (writeError 500 ''internal error'', log_Error lg op (attrs @ [(''error'', LErr e)]) s)"

definition writeCampaignError :: "'s Logger \<Rightarrow> string \<Rightarrow> string \<Rightarrow> go_error \<Rightarrow> 's \<Rightarrow> Response \<times> 's" where
  "writeCampaignError lg op tenantID e s =
     (if errors_Is e ErrInvalidInput then (writeError 400 ''invalid input'', s)
      else if errors_Is e ErrNotFound then (writeError 404 ''not found'', s)
      else if errors_Is e ErrConflict then (writeError 409 ''conflict'', s)
      else if errors_Is e ErrForbidden then (writeError 403 ''forbidden'', s)
      else if errors_Is e ErrTenantRequired then (writeError 401 ''unauthorized'', s)
      else log_and_500 lg op [(''tenant_id'', LStr tenantID)] e s)"

text \<open>The same switch stands in two more files.\<close>

definition writeApplicationError :: "'s Logger \<Rightarrow> string \<Rightarrow> string \<Rightarrow> go_error \<Rightarrow> 's \<Rightarrow> Response \<times> 's" where
  "writeApplicationError = writeCampaignError"

definition writeUserError :: "'s Logger \<Rightarrow> string \<Rightarrow> string \<Rightarrow> go_error \<Rightarrow> 's \<Rightarrow> Response \<times> 's" where
  "writeUserError = writeCampaignError"

definition writeAuditError :: "'s Logger \<Rightarrow> string \<Rightarrow> string \<Rightarrow> go_error \<Rightarrow> 's \<Rightarrow> Response \<times> 's" where
  "writeAuditError lg op tenantID e s =
     (if errors_Is e ErrNotFound then (writeError 404 ''not found'', s)
      else if errors_Is e ErrTenantRequired then (writeError 401 ''unauthorized'', s)
      else log_and_500 lg op [(''tenant_id'', LStr tenantID)] e s)"

section \<open>Health and tenants\<close>

definition Health :: "'s Handler" where
  "Health r s = (Ok \<lparr>rs_Status = 200, rs_Header = [(''Content-Type'', ''application/json'')],
     rs_Body = Text ''{\"status\":\"ok\"}''\<rparr>, s)"

record 's TenantsHandler =
  tnh_tenants :: "'s TenantRepository"
  tnh_log :: "'s Logger"

definition NewTenantsHandler :: "'s TenantRepository \<Rightarrow> 's Logger \<Rightarrow> 's TenantsHandler" where
  [simp]: "NewTenantsHandler tenants lg = \<lparr>tnh_tenants = tenants, tnh_log = lg\<rparr>"

definition tenantResponse :: "Tenant \<Rightarrow> json" where
  "tenantResponse t = JObj [(''id'', JStr (t_ID t)), (''name'', JStr (t_Name t))]"

definition TenantsHandler_List :: "'s TenantsHandler \<Rightarrow> 's Handler" where
  "TenantsHandler_List h r s =
     answer (log_and_500 (tnh_log h) ''list tenants'' [])
       (\<lambda>ts. writeJSON 200 (JObj [(''tenants'', JArr (map tenantResponse ts))]))
       (tnt_List (tnh_tenants h) s)"

section \<open>Login and refresh\<close>

record 's AuthHandler =
  auh_auth :: "'s AuthService"
  auh_log :: "'s Logger"

definition NewAuthHandler :: "'s AuthService \<Rightarrow> 's Logger \<Rightarrow> 's AuthHandler" where
  [simp]: "NewAuthHandler auth lg = \<lparr>auh_auth = auth, auh_log = lg\<rparr>"

record loginRequest =
  lr_Email :: string
  lr_Password :: string
  lr_TenantID :: string

definition loginRequest_fields :: "loginRequest fields" where
  "loginRequest_fields =
    [(''email'', string_field lr_Email_update), (''password'', string_field lr_Password_update),
     (''tenant_id'', string_field lr_TenantID_update)]"

definition loginResponse :: "AuthSession \<Rightarrow> json" where
  "loginResponse sess = JObj [(''access_token'', JStr (as_AccessToken sess)),
     (''refresh_token'', JStr (as_RefreshToken sess)), (''expires_in'', JInt (as_ExpiresIn sess))]"

definition AuthHandler_Login :: "'s AuthHandler \<Rightarrow> 's Handler" where
  "AuthHandler_Login h = with_body loginRequest_fields \<lparr>lr_Email = [], lr_Password = [], lr_TenantID = []\<rparr> (\<lambda>req r s.
     answer (\<lambda>e s. (writeError 401 ''invalid credentials'',
          log_Info (auh_log h) ''login failed'' [(''email'', LStr (lr_Email req)), (''error'', LErr e)] s))
       (\<lambda>sess. writeJSON 200 (loginResponse sess))
       (aus_Login (auh_auth h) (rq_Ctx r) (lr_TenantID req) (lr_Email req) (lr_Password req) s))"

record refreshRequest =
  rfr_RefreshToken :: string

definition refreshRequest_fields :: "refreshRequest fields" where
  "refreshRequest_fields = [(''refresh_token'', string_field rfr_RefreshToken_update)]"

definition AuthHandler_Refresh :: "'s AuthHandler \<Rightarrow> 's Handler" where
  "AuthHandler_Refresh h = with_body refreshRequest_fields \<lparr>rfr_RefreshToken = []\<rparr> (\<lambda>req r s.
     answer (\<lambda>e s. if errors_Is e ErrUnauthorized then (writeError 401 ''invalid or expired refresh token'', s)
          else log_and_500 (auh_log h) ''refresh failed'' [] e s)
       (\<lambda>sess. writeJSON 200 (loginResponse sess))
       (aus_Refresh (auh_auth h) (rq_Ctx r) (rfr_RefreshToken req) s))"

section \<open>Lots\<close>

record 's LotsHandler =
  loh_lots :: "'s LotService"
  loh_log :: "'s Logger"

definition NewLotsHandler :: "'s LotService \<Rightarrow> 's Logger \<Rightarrow> 's LotsHandler" where
  [simp]: "NewLotsHandler lots lg = \<lparr>loh_lots = lots, loh_log = lg\<rparr>"

definition toLotResponse :: "Lot \<Rightarrow> json" where
  "toLotResponse l = JObj [(''id'', JStr (l_ID l)), (''name'', JStr (l_Name l)), (''area_ha'', JNum (l_AreaHA l)),
     (''crop'', JStr (l_Crop l)), (''created_at'', JStr (Format_RFC3339 (l_CreatedAt l)))]"

definition LotsHandler_List :: "'s LotsHandler \<Rightarrow> 's Handler" where
  "LotsHandler_List h = tenant_scoped (\<lambda>tenantID r s.
     answer (log_and_500 (loh_log h) ''list lots'' [(''tenant_id'', LStr tenantID)])
       (\<lambda>ls. writeJSON 200 (JObj [(''lots'', JArr (map toLotResponse ls))]))
       (los_ListByTenant (loh_lots h) tenantID s))"

record createLotRequest =
  clr_Name :: string
  clr_AreaHA :: rat
  clr_Crop :: string

definition createLotRequest_fields :: "createLotRequest fields" where
  "createLotRequest_fields =
    [(''name'', string_field clr_Name_update), (''area_ha'', float_field clr_AreaHA_update),
     (''crop'', string_field clr_Crop_update)]"

definition LotsHandler_Create :: "'s LotsHandler \<Rightarrow> 's Handler" where
  "LotsHandler_Create h = tenant_scoped (\<lambda>tenantID.
     with_body createLotRequest_fields \<lparr>clr_Name = [], clr_AreaHA = 0, clr_Crop = []\<rparr> (\<lambda>req r s.
       answer (\<lambda>e s. if errors_Is e ErrInvalidInput then (writeError 400 ''invalid input'', s)
            else log_and_500 (loh_log h) ''create lot'' [(''tenant_id'', LStr tenantID)] e s)
         (\<lambda>l. writeJSON 201 (toLotResponse l))
         (los_Create (loh_lots h) tenantID (UserIDFrom (rq_Ctx r)) (clr_Name req) (clr_AreaHA req) (clr_Crop req) s)))"

section \<open>Campaigns\<close>

record 's CampaignsHandler =
  cah_campaigns :: "'s CampaignService"
  cah_log :: "'s Logger"

definition NewCampaignsHandler :: "'s CampaignService \<Rightarrow> 's Logger \<Rightarrow> 's CampaignsHandler" where
  [simp]: "NewCampaignsHandler campaigns lg = \<lparr>cah_campaigns = campaigns, cah_log = lg\<rparr>"

definition formatTimePtr :: "time option \<Rightarrow> json" where
  "formatTimePtr t = (case t of None \<Rightarrow> JNull | Some t \<Rightarrow> JStr (Format_RFC3339 t))"

definition toCampaignResponse :: "Campaign \<Rightarrow> json" where
  "toCampaignResponse c = JObj [(''id'', JStr (c_ID c)), (''name'', JStr (c_Name c)), (''season'', JStr (c_Season c)),
     (''started_at'', formatTimePtr (c_StartedAt c)), (''ended_at'', formatTimePtr (c_EndedAt c)),
     (''created_at'', JStr (Format_RFC3339 (c_CreatedAt c)))]"

text \<open>\<open>campaignRequest\<close> has the fields of \<open>ports.CampaignInput\<close>, which the methods copy one by one.\<close>

definition campaignRequest_fields :: "CampaignInput fields" where
  "campaignRequest_fields =
    [(''name'', string_field ci_Name_update), (''season'', string_field ci_Season_update),
     (''started_at'', time_field ci_StartedAt_update), (''ended_at'', time_field ci_EndedAt_update)]"

definition no_campaign :: CampaignInput where
  "no_campaign = \<lparr>ci_Name = [], ci_Season = [], ci_StartedAt = None, ci_EndedAt = None\<rparr>"

definition CampaignsHandler_List :: "'s CampaignsHandler \<Rightarrow> 's Handler" where
  "CampaignsHandler_List h = tenant_scoped (\<lambda>tenantID r s.
     answer (writeCampaignError (cah_log h) ''list campaigns'' tenantID)
       (\<lambda>cs. writeJSON 200 (JObj [(''campaigns'', JArr (map toCampaignResponse cs))]))
       (cas_List (cah_campaigns h) tenantID s))"

definition CampaignsHandler_GetByID :: "'s CampaignsHandler \<Rightarrow> 's Handler" where
  "CampaignsHandler_GetByID h = tenant_scoped (\<lambda>tenantID r s.
     answer (writeCampaignError (cah_log h) ''get campaign'' tenantID)
       (\<lambda>c. writeJSON 200 (toCampaignResponse c))
       (cas_GetByID (cah_campaigns h) tenantID (PathValue r ''id'') s))"

definition CampaignsHandler_Create :: "'s CampaignsHandler \<Rightarrow> 's Handler" where
  "CampaignsHandler_Create h = tenant_scoped (\<lambda>tenantID. with_body campaignRequest_fields no_campaign (\<lambda>req r s.
     answer (writeCampaignError (cah_log h) ''create campaign'' tenantID)
       (\<lambda>c. writeJSON 201 (toCampaignResponse c))
       (cas_Create (cah_campaigns h) tenantID (UserIDFrom (rq_Ctx r)) req s)))"

definition CampaignsHandler_Update :: "'s CampaignsHandler \<Rightarrow> 's Handler" where
  "CampaignsHandler_Update h = tenant_scoped (\<lambda>tenantID. with_body campaignRequest_fields no_campaign (\<lambda>req r s.
     answer (writeCampaignError (cah_log h) ''update campaign'' tenantID)
       (\<lambda>c. writeJSON 200 (toCampaignResponse c))
       (cas_Update (cah_campaigns h) tenantID (UserIDFrom (rq_Ctx r)) (PathValue r ''id'') req s)))"

definition CampaignsHandler_Delete :: "'s CampaignsHandler \<Rightarrow> 's Handler" where
  "CampaignsHandler_Delete h = tenant_scoped (\<lambda>tenantID r s.
     answer (writeCampaignError (cah_log h) ''delete campaign'' tenantID) (\<lambda>_. noContent)
       (cas_Delete (cah_campaigns h) tenantID (UserIDFrom (rq_Ctx r)) (PathValue r ''id'') s))"

section \<open>Applications\<close>

record 's ApplicationsHandler =
  aph_applications :: "'s ApplicationService"
  aph_log :: "'s Logger"

definition NewApplicationsHandler :: "'s ApplicationService \<Rightarrow> 's Logger \<Rightarrow> 's ApplicationsHandler" where
  [simp]: "NewApplicationsHandler applications lg = \<lparr>aph_applications = applications, aph_log = lg\<rparr>"

definition nullableStringPtr :: "string \<Rightarrow> json" where
  "nullableStringPtr s = (if s = [] then JNull else JStr s)"

definition toApplicationResponse :: "Application \<Rightarrow> json" where
  "toApplicationResponse a = JObj [(''id'', JStr (a_ID a)), (''lot_id'', JStr (a_LotID a)),
     (''campaign_id'', JStr (a_CampaignID a)), (''product_name'', JStr (a_ProductName a)), (''dose'', JStr (a_Dose a)),
     (''applied_at'', JStr (Format_RFC3339 (a_AppliedAt a))), (''operator_id'', nullableStringPtr (a_OperatorID a)),
     (''operator_name'', JStr (a_OperatorName a)), (''notes'', JStr (a_Notes a)),
     (''created_at'', JStr (Format_RFC3339 (a_CreatedAt a)))]"

record applicationRequest =
  apr_LotID :: string
  apr_CampaignID :: string
  apr_ProductName :: string
  apr_Dose :: string
  apr_AppliedAt :: "time option"
  apr_OperatorID :: string
  apr_Notes :: string

definition applicationRequest_fields :: "applicationRequest fields" where
  "applicationRequest_fields =
    [(''lot_id'', string_field apr_LotID_update), (''campaign_id'', string_field apr_CampaignID_update),
     (''product_name'', string_field apr_ProductName_update), (''dose'', string_field apr_Dose_update),
     (''applied_at'', time_field apr_AppliedAt_update), (''operator_id'', string_field apr_OperatorID_update),
     (''notes'', string_field apr_Notes_update)]"

definition no_application :: applicationRequest where
  "no_application = \<lparr>apr_LotID = [], apr_CampaignID = [], apr_ProductName = [], apr_Dose = [], apr_AppliedAt = None,
     apr_OperatorID = [], apr_Notes = []\<rparr>"

definition derefTime :: "time option \<Rightarrow> time" where
  "derefTime t = (case t of None \<Rightarrow> zero_Time | Some t \<Rightarrow> t)"

definition application_input :: "applicationRequest \<Rightarrow> ApplicationInput" where
  "application_input req = \<lparr>ai_LotID = apr_LotID req, ai_CampaignID = apr_CampaignID req,
     ai_ProductName = apr_ProductName req, ai_Dose = apr_Dose req, ai_AppliedAt = derefTime (apr_AppliedAt req),
     ai_OperatorID = apr_OperatorID req, ai_Notes = apr_Notes req\<rparr>"

definition ApplicationsHandler_List :: "'s ApplicationsHandler \<Rightarrow> 's Handler" where
  "ApplicationsHandler_List h = tenant_scoped (\<lambda>tenantID r s.
     answer (writeApplicationError (aph_log h) ''list applications'' tenantID)
       (\<lambda>as. writeJSON 200 (JObj [(''applications'', JArr (map toApplicationResponse as))]))
       (aps_List (aph_applications h) tenantID s))"

definition ApplicationsHandler_GetByID :: "'s ApplicationsHandler \<Rightarrow> 's Handler" where
  "ApplicationsHandler_GetByID h = tenant_scoped (\<lambda>tenantID r s.
     answer (writeApplicationError (aph_log h) ''get application'' tenantID)
       (\<lambda>a. writeJSON 200 (toApplicationResponse a))
       (aps_GetByID (aph_applications h) tenantID (PathValue r ''id'') s))"

definition ApplicationsHandler_Create :: "'s ApplicationsHandler \<Rightarrow> 's Handler" where
  "ApplicationsHandler_Create h = tenant_scoped (\<lambda>tenantID. with_body applicationRequest_fields no_application (\<lambda>req r s.
     answer (writeApplicationError (aph_log h) ''create application'' tenantID)
       (\<lambda>a. writeJSON 201 (toApplicationResponse a))
       (aps_Create (aph_applications h) tenantID (UserIDFrom (rq_Ctx r)) (application_input req) s)))"

definition ApplicationsHandler_Update :: "'s ApplicationsHandler \<Rightarrow> 's Handler" where
  "ApplicationsHandler_Update h = tenant_scoped (\<lambda>tenantID. with_body applicationRequest_fields no_application (\<lambda>req r s.
     answer (writeApplicationError (aph_log h) ''update application'' tenantID)
       (\<lambda>a. writeJSON 200 (toApplicationResponse a))
       (aps_Update (aph_applications h) tenantID (UserIDFrom (rq_Ctx r)) (PathValue r ''id'') (application_input req) s)))"

definition ApplicationsHandler_Delete :: "'s ApplicationsHandler \<Rightarrow> 's Handler" where
  "ApplicationsHandler_Delete h = tenant_scoped (\<lambda>tenantID r s.
     answer (writeApplicationError (aph_log h) ''delete application'' tenantID) (\<lambda>_. noContent)
       (aps_Delete (aph_applications h) tenantID (UserIDFrom (rq_Ctx r)) (PathValue r ''id'') s))"

section \<open>Users\<close>

record 's UsersHandler =
  ush_users :: "'s UserService"
  ush_log :: "'s Logger"

definition NewUsersHandler :: "'s UserService \<Rightarrow> 's Logger \<Rightarrow> 's UsersHandler" where
  [simp]: "NewUsersHandler users lg = \<lparr>ush_users = users, ush_log = lg\<rparr>"

definition toUserResponse :: "User \<Rightarrow> json" where
  "toUserResponse u = JObj [(''id'', JStr (u_ID u)), (''email'', JStr (u_Email u)), (''full_name'', JStr (u_FullName u)),
     (''is_active'', JBool (u_IsActive u)), (''role'', JStr (u_Role u)),
     (''created_at'', JStr (Format_RFC3339 (u_CreatedAt u)))]"

text \<open>\<open>userRequest\<close> and \<open>updateUserRequest\<close> have the fields of the inputs they are copied into.\<close>

definition userRequest_fields :: "UserInput fields" where
  "userRequest_fields =
    [(''email'', string_field ui_Email_update), (''password'', string_field ui_Password_update),
     (''full_name'', string_field ui_FullName_update), (''role'', string_field ui_Role_update)]"

definition updateUserRequest_fields :: "UpdateUserInput fields" where
  "updateUserRequest_fields =
    [(''full_name'', string_field uui_FullName_update), (''is_active'', bool_field uui_IsActive_update)]"

definition UsersHandler_List :: "'s UsersHandler \<Rightarrow> 's Handler" where
  "UsersHandler_List h = tenant_scoped (\<lambda>tenantID r s.
     answer (writeUserError (ush_log h) ''list users'' tenantID)
       (\<lambda>us. writeJSON 200 (JObj [(''users'', JArr (map toUserResponse us))]))
       (uss_ListUsers (ush_users h) tenantID s))"

definition UsersHandler_Create :: "'s UsersHandler \<Rightarrow> 's Handler" where
  "UsersHandler_Create h = tenant_scoped (\<lambda>tenantID.
     with_body userRequest_fields \<lparr>ui_Email = [], ui_Password = [], ui_FullName = [], ui_Role = []\<rparr> (\<lambda>req r s.
       answer (writeUserError (ush_log h) ''create user'' tenantID)
         (\<lambda>u. writeJSON 201 (toUserResponse u))
         (uss_CreateUser (ush_users h) tenantID (UserIDFrom (rq_Ctx r)) req s)))"

definition UsersHandler_Update :: "'s UsersHandler \<Rightarrow> 's Handler" where
  "UsersHandler_Update h = tenant_scoped (\<lambda>tenantID.
     with_body updateUserRequest_fields \<lparr>uui_FullName = [], uui_IsActive = False\<rparr> (\<lambda>req r s.
       answer (writeUserError (ush_log h) ''update user'' tenantID)
         (\<lambda>u. writeJSON 200 (toUserResponse u))
         (uss_UpdateUser (ush_users h) tenantID (UserIDFrom (rq_Ctx r)) (PathValue r ''id'') req s)))"

section \<open>Audit\<close>

record 's AuditHandler =
  adh_audit :: "'s AuditService"
  adh_log :: "'s Logger"

definition NewAuditHandler :: "'s AuditService \<Rightarrow> 's Logger \<Rightarrow> 's AuditHandler" where
  [simp]: "NewAuditHandler audit lg = \<lparr>adh_audit = audit, adh_log = lg\<rparr>"

definition auditDefaultLimit :: int where "auditDefaultLimit = 100"

definition toAuditEventResponse :: "AuditEntry \<Rightarrow> json" where
  "toAuditEventResponse e = JObj [(''seq'', JInt (ae_Seq e)), (''actor_user_id'', JStr (ae_ActorUserID e)),
     (''action'', JStr (ae_Action e)), (''entity_type'', JStr (ae_EntityType e)), (''entity_id'', JStr (ae_EntityID e)),
     (''severity'', JStr (ae_Severity e)), (''created_at'', JStr (Format_RFC3339 (ae_CreatedAt e)))]"

text \<open>A nil entry would be dereferenced.\<close>

definition AuditHandler_Latest :: "'s AuditHandler \<Rightarrow> 's Handler" where
  "AuditHandler_Latest h = tenant_scoped (\<lambda>tenantID r s.
     answer_with (writeAuditError (adh_log h) ''list audit'' tenantID)
       (\<lambda>entries. case those entries of
          None \<Rightarrow> Panic ''invalid memory address or nil pointer dereference''
        | Some es \<Rightarrow> Ok (writeJSON 200 (JObj [(''events'', JArr (map toAuditEventResponse es))])))
       (aud_Latest (adh_audit h) tenantID auditDefaultLimit s))"

end
