(* ===== verification/Router.thy ===== *)
theory Router
  imports Handlers
begin

text \<open>
  \<^verbatim>\<open>internal/http/router.go\<close>: the server, its route table and the composition of the middleware.
  \<open>routes\<close> is the table \<open>Routes\<close> registers, \<open>access\<close> names the four compositions of middleware it
  uses, \<open>guarded\<close> applies them and \<open>handler_of\<close> binds each endpoint to its handler method; the
  embedded file server of the single-page application is the field \<open>srv_spa\<close>, a function of the request. \<open>net/http\<close>'s mux
  redirects a path that is not clean, matches a method (\<open>GET\<close> also serves \<open>HEAD\<close>) and a path pattern,
  answers 405 when only other methods match the path and 404 otherwise.

  The lemmas are the access matrix: a request without a valid token, or without one of the roles, is
  answered without its handler, and the limiter too, being consulted.
\<close>

section \<open>Routes\<close>

datatype endpoint =
    Healthz | SpaIndex | SpaStatic | TenantsList | AuthLogin | AuthRefresh
  | LotsList | LotsCreate
  | CampaignsList | CampaignsCreate | CampaignsGet | CampaignsUpdate | CampaignsDelete
  | ApplicationsList | ApplicationsCreate | ApplicationsGet | ApplicationsUpdate | ApplicationsDelete
  | UsersCreate | UsersList | UsersUpdate | AuditLatest

datatype access = Public | PerIP int | Authenticated | AnyOf "string list"

datatype segment = Lit string | Wild string

datatype pattern = Exact "segment list" | Subtree "segment list"

abbreviation api :: "segment list \<Rightarrow> pattern" where
  "api segs \<equiv> Exact ([Lit ''api'', Lit ''v1''] @ segs)"

definition routes :: "(string \<times> pattern \<times> access \<times> endpoint) list" where
  "routes =
    [(''GET'', Exact [Lit ''healthz''], Public, Healthz),
     (''GET'', Exact [Lit []], Public, SpaIndex),
     (''GET'', Subtree [Lit ''static''], Public, SpaStatic),
     (''GET'', api [Lit ''tenants''], Public, TenantsList),
     (''POST'', api [Lit ''auth'', Lit ''login''], PerIP 5, AuthLogin),
     (''POST'', api [Lit ''auth'', Lit ''refresh''], PerIP 30, AuthRefresh),
     (''GET'', api [Lit ''lots''], Authenticated, LotsList),
     (''POST'', api [Lit ''lots''], Authenticated, LotsCreate),
     (''GET'', api [Lit ''campaigns''], Authenticated, CampaignsList),
     (''POST'', api [Lit ''campaigns''], AnyOf [RoleAdmin, RoleAgronomist], CampaignsCreate),
     (''GET'', api [Lit ''campaigns'', Wild ''id''], Authenticated, CampaignsGet),
     (''PATCH'', api [Lit ''campaigns'', Wild ''id''], AnyOf [RoleAdmin, RoleAgronomist], CampaignsUpdate),
     (''DELETE'', api [Lit ''campaigns'', Wild ''id''], AnyOf [RoleAdmin, RoleAgronomist], CampaignsDelete),
     (''GET'', api [Lit ''applications''], Authenticated, ApplicationsList),
     (''POST'', api [Lit ''applications''], AnyOf [RoleAdmin, RoleAgronomist, RoleProducer], ApplicationsCreate),
     (''GET'', api [Lit ''applications'', Wild ''id''], Authenticated, ApplicationsGet),
     (''PATCH'', api [Lit ''applications'', Wild ''id''], AnyOf [RoleAdmin, RoleAgronomist, RoleProducer], ApplicationsUpdate),
     (''DELETE'', api [Lit ''applications'', Wild ''id''], AnyOf [RoleAdmin, RoleAgronomist, RoleProducer], ApplicationsDelete),
     (''POST'', api [Lit ''users''], AnyOf [RoleAdmin], UsersCreate),
     (''GET'', api [Lit ''users''], AnyOf [RoleAdmin], UsersList),
     (''PATCH'', api [Lit ''users'', Wild ''id''], AnyOf [RoleAdmin], UsersUpdate),
     (''GET'', api [Lit ''audit''], AnyOf [RoleAdmin], AuditLatest)]"

record 's Server =
  srv_auth :: "'s AuthService"
  srv_tokens :: "'s TokenManager"
  srv_lots :: "'s LotService"
  srv_campaigns :: "'s CampaignService"
  srv_applications :: "'s ApplicationService"
  srv_users :: "'s UserService"
  srv_audit :: "'s AuditService"
  srv_tenants :: "'s TenantRepository"
  srv_rateLimiter :: "'s limiter option"
  srv_signals :: "'s Sink option"
  srv_log :: "'s Logger"
  srv_now :: "'s clock"
  srv_rand :: "'s entropy"
  srv_spa :: "Request \<Rightarrow> Response"

text \<open>The constructor, with the clock and the entropy the middleware reads and the embedded pages.\<close>

definition NewServer :: "'s AuthService \<Rightarrow> 's TokenManager \<Rightarrow> 's LotService \<Rightarrow> 's CampaignService \<Rightarrow> 's ApplicationService \<Rightarrow>
    's UserService \<Rightarrow> 's AuditService \<Rightarrow> 's TenantRepository \<Rightarrow> 's limiter option \<Rightarrow> 's Sink option \<Rightarrow> 's Logger \<Rightarrow>
    's clock \<Rightarrow> 's entropy \<Rightarrow> (Request \<Rightarrow> Response) \<Rightarrow> 's Server" where
  "NewServer auth tokens lots campaigns applications users audit tenants rateLimiter signals lg now rnd spa =
     \<lparr>srv_auth = auth, srv_tokens = tokens, srv_lots = lots, srv_campaigns = campaigns, srv_applications = applications,
      srv_users = users, srv_audit = audit, srv_tenants = tenants, srv_rateLimiter = rateLimiter, srv_signals = signals,
      srv_log = lg, srv_now = now, srv_rand = rnd, srv_spa = spa\<rparr>"

text \<open>The handler methods, each over the struct its constructor builds.\<close>

fun handler_of :: "'s Server \<Rightarrow> endpoint \<Rightarrow> 's Handler" where
  "handler_of srv Healthz = Health"
| "handler_of srv SpaIndex = (\<lambda>r s. (Ok (srv_spa srv r), s))"
| "handler_of srv SpaStatic = (\<lambda>r s. (Ok (srv_spa srv (r\<lparr>rq_Path := drop (length ''/static/'') (rq_Path r)\<rparr>)), s))"
| "handler_of srv TenantsList = TenantsHandler_List (NewTenantsHandler (srv_tenants srv) (srv_log srv))"
| "handler_of srv AuthLogin = AuthHandler_Login (NewAuthHandler (srv_auth srv) (srv_log srv))"
| "handler_of srv AuthRefresh = AuthHandler_Refresh (NewAuthHandler (srv_auth srv) (srv_log srv))"
| "handler_of srv LotsList = LotsHandler_List (NewLotsHandler (srv_lots srv) (srv_log srv))"
| "handler_of srv LotsCreate = LotsHandler_Create (NewLotsHandler (srv_lots srv) (srv_log srv))"
| "handler_of srv CampaignsList = CampaignsHandler_List (NewCampaignsHandler (srv_campaigns srv) (srv_log srv))"
| "handler_of srv CampaignsCreate = CampaignsHandler_Create (NewCampaignsHandler (srv_campaigns srv) (srv_log srv))"
| "handler_of srv CampaignsGet = CampaignsHandler_GetByID (NewCampaignsHandler (srv_campaigns srv) (srv_log srv))"
| "handler_of srv CampaignsUpdate = CampaignsHandler_Update (NewCampaignsHandler (srv_campaigns srv) (srv_log srv))"
| "handler_of srv CampaignsDelete = CampaignsHandler_Delete (NewCampaignsHandler (srv_campaigns srv) (srv_log srv))"
| "handler_of srv ApplicationsList = ApplicationsHandler_List (NewApplicationsHandler (srv_applications srv) (srv_log srv))"
| "handler_of srv ApplicationsCreate = ApplicationsHandler_Create (NewApplicationsHandler (srv_applications srv) (srv_log srv))"
| "handler_of srv ApplicationsGet = ApplicationsHandler_GetByID (NewApplicationsHandler (srv_applications srv) (srv_log srv))"
| "handler_of srv ApplicationsUpdate = ApplicationsHandler_Update (NewApplicationsHandler (srv_applications srv) (srv_log srv))"
| "handler_of srv ApplicationsDelete = ApplicationsHandler_Delete (NewApplicationsHandler (srv_applications srv) (srv_log srv))"
| "handler_of srv UsersCreate = UsersHandler_Create (NewUsersHandler (srv_users srv) (srv_log srv))"
| "handler_of srv UsersList = UsersHandler_List (NewUsersHandler (srv_users srv) (srv_log srv))"
| "handler_of srv UsersUpdate = UsersHandler_Update (NewUsersHandler (srv_users srv) (srv_log srv))"
| "handler_of srv AuditLatest = AuditHandler_Latest (NewAuditHandler (srv_audit srv) (srv_log srv))"

definition emitRateLimitExceeded :: "'s Server \<Rightarrow> Request \<Rightarrow> 's \<Rightarrow> unit res \<times> 's" where
  "emitRateLimitExceeded srv r s =
     (let tenantID = TenantIDFrom (rq_Ctx r); userID = UserIDFrom (rq_Ctx r); anonymous = (tenantID = []) in
      EmitSignal (srv_signals srv) SignalRateLimitExceeded anonymous tenantID userID (FromRequestID (rq_Ctx r)) s)"

definition limited :: "'s Server \<Rightarrow> int \<Rightarrow> 's Handler \<Rightarrow> 's Handler" where
  "limited srv n h = rateLimit (srv_rateLimiter srv) n Minute (Some (emitRateLimitExceeded srv)) h"

definition requireAuth :: "'s Server \<Rightarrow> 's Handler \<Rightarrow> 's Handler" where
  [simp]: "requireAuth srv = RequireAuth (srv_tokens srv)"

definition requireRole :: "'s Server \<Rightarrow> string list \<Rightarrow> 's Handler \<Rightarrow> 's Handler" where
  [simp]: "requireRole srv allowed = RequireRole allowed"

fun guarded :: "'s Server \<Rightarrow> access \<Rightarrow> 's Handler \<Rightarrow> 's Handler" where
  "guarded srv Public h = h"
| "guarded srv (PerIP n) h = limited srv n h"
| "guarded srv Authenticated h = requireAuth srv (limited srv 120 h)"
| "guarded srv (AnyOf roles) h = requireAuth srv (requireRole srv roles (limited srv 120 h))"

section \<open>The mux\<close>

fun split_path :: "string \<Rightarrow> string list" where
  "split_path [] = [[]]"
| "split_path (c # cs) =
     (if c = CHR ''/'' then [] # split_path cs
      else case split_path cs of p # ps \<Rightarrow> (c # p) # ps | [] \<Rightarrow> [[c]])"

text \<open>A wildcard matches one non-empty segment; a subtree pattern any path below it.\<close>

fun match_segments :: "bool \<Rightarrow> segment list \<Rightarrow> string list \<Rightarrow> (string \<times> string) list option" where
  "match_segments sub [] segs = (if segs = [] \<or> sub then Some [] else None)"
| "match_segments sub (p # ps) [] = None"
| "match_segments sub (Lit l # ps) (x # xs) = (if x = l then match_segments sub ps xs else None)"
| "match_segments sub (Wild v # ps) (x # xs) =
     (if x = [] then None else map_option (Cons (v, x)) (match_segments sub ps xs))"

fun match_pattern :: "pattern \<Rightarrow> string \<Rightarrow> (string \<times> string) list option" where
  "match_pattern (Exact ps) path = (case split_path path of [] # segs \<Rightarrow> match_segments False ps segs | _ \<Rightarrow> None)"
| "match_pattern (Subtree ps) path = (case split_path path of
      [] # segs \<Rightarrow> if length segs \<le> length ps then None else match_segments True ps segs | _ \<Rightarrow> None)"

definition method_matches :: "string \<Rightarrow> string \<Rightarrow> bool" where
  "method_matches m rm \<longleftrightarrow> rm = m \<or> (m = ''GET'' \<and> rm = ''HEAD'')"

fun lookup_route :: "(string \<times> pattern \<times> access \<times> endpoint) list \<Rightarrow> string \<Rightarrow> string \<Rightarrow>
    (access \<times> endpoint \<times> (string \<times> string) list) option" where
  "lookup_route [] m path = None"
| "lookup_route ((m', pat, acc, e) # rs) m path =
     (case match_pattern pat path of
        Some vs \<Rightarrow> if method_matches m' m then Some (acc, e, vs) else lookup_route rs m path
      | None \<Rightarrow> lookup_route rs m path)"

text \<open>\<open>cleanPath\<close>: no empty, \<open>.\<close> or \<open>..\<close> segment except a trailing slash.\<close>

fun clean_segments :: "string list \<Rightarrow> string list \<Rightarrow> string list" where
  "clean_segments acc [] = rev acc"
| "clean_segments acc (x # xs) =
     (if x = [] \<or> x = ''.'' then clean_segments acc xs
      else if x = ''..'' then clean_segments (tl acc) xs
      else clean_segments (x # acc) xs)"

definition cleanPath :: "string \<Rightarrow> string" where
  "cleanPath p =
     (let np = CHR ''/'' # strings_Join (clean_segments [] (split_path p)) ''/'' in
      if p \<noteq> [] \<and> last p = CHR ''/'' \<and> np \<noteq> ''/'' then np @ ''/'' else np)"

definition allowed_methods :: "string \<Rightarrow> string list" where
  "allowed_methods path = filter (\<lambda>m. lookup_route routes m path \<noteq> None) [''DELETE'', ''GET'', ''HEAD'', ''PATCH'', ''POST'']"

definition redirect :: "string \<Rightarrow> Response" where
  "redirect path = \<lparr>rs_Status = 301, rs_Header = [(''Location'', path)], rs_Body = Empty\<rparr>"

definition dispatch :: "'s Server \<Rightarrow> (endpoint \<Rightarrow> 's Handler) \<Rightarrow> 's Handler" where
  "dispatch srv H r s =
     (let path = (if rq_Method r = ''CONNECT'' then rq_Path r else cleanPath (rq_Path r)) in
      case lookup_route routes (rq_Method r) path of
        Some (acc, e, vs) \<Rightarrow>
          if path \<noteq> rq_Path r then (Ok (redirect path), s)
          else guarded srv acc (H e) (r\<lparr>rq_PathValue := vs\<rparr>) s
      | None \<Rightarrow>
          if lookup_route routes (rq_Method r) (path @ ''/'') \<noteq> None then (Ok (redirect (path @ ''/'')), s)
          else if path \<noteq> rq_Path r then (Ok (redirect path), s)
          else if allowed_methods path \<noteq> [] then
            (Ok ((http_Error 405 ''Method Not Allowed'')\<lparr>rs_Header :=
               [(''Allow'', strings_Join (allowed_methods path) '', ''), (''Content-Type'', ''text/plain; charset=utf-8''),
                (''X-Content-Type-Options'', ''nosniff'')]\<rparr>), s)
          else (Ok (http_Error 404 ''404 page not found''), s))"

definition chain :: "'s Server \<Rightarrow> 's Handler \<Rightarrow> 's Handler" where
  [simp]: "chain srv next = logging (srv_log srv) (srv_now srv) (srv_rand srv) (recover_panics (srv_log srv) next)"

definition Routes :: "'s Server \<Rightarrow> 's Handler" where
  "Routes srv = chain srv (dispatch srv (handler_of srv))"

section \<open>The access matrix\<close>

text \<open>A role list admits a request that carries one of the roles; the other compositions admit whom
  their middleware lets through.\<close>

definition may_reach :: "access \<Rightarrow> TokenClaims option \<Rightarrow> bool" where
  "may_reach acc i = (case acc of
      Public \<Rightarrow> True
    | PerIP n \<Rightarrow> True
    | Authenticated \<Rightarrow> i \<noteq> None
    | AnyOf rs \<Rightarrow> (case i of None \<Rightarrow> False | Some c \<Rightarrow> tc_Role c \<in> set rs))"

text \<open>The access each endpoint is meant to have.\<close>

fun access_of :: "endpoint \<Rightarrow> access" where
  "access_of Healthz = Public" | "access_of SpaIndex = Public" | "access_of SpaStatic = Public"
| "access_of TenantsList = Public" | "access_of AuthLogin = PerIP 5" | "access_of AuthRefresh = PerIP 30"
| "access_of LotsList = Authenticated" | "access_of LotsCreate = Authenticated"
| "access_of CampaignsList = Authenticated" | "access_of CampaignsGet = Authenticated"
| "access_of ApplicationsList = Authenticated" | "access_of ApplicationsGet = Authenticated"
| "access_of CampaignsCreate = AnyOf [RoleAdmin, RoleAgronomist]"
| "access_of CampaignsUpdate = AnyOf [RoleAdmin, RoleAgronomist]"
| "access_of CampaignsDelete = AnyOf [RoleAdmin, RoleAgronomist]"
| "access_of ApplicationsCreate = AnyOf [RoleAdmin, RoleAgronomist, RoleProducer]"
| "access_of ApplicationsUpdate = AnyOf [RoleAdmin, RoleAgronomist, RoleProducer]"
| "access_of ApplicationsDelete = AnyOf [RoleAdmin, RoleAgronomist, RoleProducer]"
| "access_of UsersCreate = AnyOf [RoleAdmin]" | "access_of UsersList = AnyOf [RoleAdmin]"
| "access_of UsersUpdate = AnyOf [RoleAdmin]" | "access_of AuditLatest = AnyOf [RoleAdmin]"

lemma lookup_route_in: "lookup_route rs m path = Some (acc, e, vs) \<Longrightarrow> \<exists>m' pat. (m', pat, acc, e) \<in> set rs"
  by (induction rs m path rule: lookup_route.induct) (auto split: option.splits if_splits)

lemma routes_access: "(m, pat, acc, e) \<in> set routes \<Longrightarrow> acc = access_of e"
  by (auto simp: routes_def)

lemma lookup_access: "lookup_route routes m path = Some (acc, e, vs) \<Longrightarrow> acc = access_of e"
  using lookup_route_in routes_access by blast

text \<open>A handler that may not be reached does not influence the answer.\<close>

lemma guarded_unreached:
  assumes "\<not> may_reach acc (identity (srv_tokens srv) r s)"
  shows "guarded srv acc h r s = guarded srv acc h' r s"
proof (cases acc)
  case (AnyOf rs)
  show ?thesis
  proof (cases "identity (srv_tokens srv) r s")
    case None
    then show ?thesis by (simp add: AnyOf RequireAuth_unreached [of _ _ _ "RequireRole rs (limited srv 120 h)"
          "RequireRole rs (limited srv 120 h')"])
  next
    case (Some c)
    with assms AnyOf have "tc_Role c \<notin> set rs" by (simp add: may_reach_def)
    then show ?thesis by (simp add: AnyOf RequireAuth_identified [OF Some] RequireRole_def)
  qed
qed (use assms in \<open>auto simp: may_reach_def intro: RequireAuth_unreached\<close>)

lemma dispatch_unreached:
  assumes "\<not> may_reach (access_of e) (identity (srv_tokens srv) r s)"
  shows "dispatch srv (H(e := h)) r s = dispatch srv H r s"
proof -
  let ?path = "if rq_Method r = ''CONNECT'' then rq_Path r else cleanPath (rq_Path r)"
  have "guarded srv acc ((H(e := h)) e') (r\<lparr>rq_PathValue := vs\<rparr>) s = guarded srv acc (H e') (r\<lparr>rq_PathValue := vs\<rparr>) s"
    if "lookup_route routes (rq_Method r) ?path = Some (acc, e', vs)" for acc e' vs
  proof (cases "e' = e")
    case True
    with that have "acc = access_of e" using lookup_access by blast
    moreover have "identity (srv_tokens srv) (r\<lparr>rq_PathValue := vs\<rparr>) s = identity (srv_tokens srv) r s"
      by (simp add: identity_def)
    ultimately show ?thesis using assms by (intro guarded_unreached) simp
  qed simp
  then show ?thesis by (simp add: dispatch_def Let_def split: option.splits)
qed

text \<open>A forbidden role is refused before the limiter: the world is the one the verification left.\<close>

lemma forbidden_before_limit:
  assumes "identity (srv_tokens srv) r s = Some c" "tc_Role c \<notin> set rs"
  shows "guarded srv (AnyOf rs) h r s =
    (Ok (writeError 403 ''forbidden''), snd (tok_Verify (srv_tokens srv) (fst (bearerToken (rq_Authorization r))) s))"
  using assms(2) by (simp add: RequireAuth_identified [OF assms(1)] RequireRole_def)

section \<open>Answers\<close>

lemma Routes_no_panic: "fst (Routes srv r s) \<noteq> Panic p"
  by (auto simp: Routes_def logging_def recover_panics_def Let_def split: prod.splits res.splits)


end
