(* ===== verification/Farm_Services.thy ===== *)
theory Farm_Services
  imports Refresh_Token Breach
begin

text \<open>
  \<^verbatim>\<open>lot_service.go\<close>, \<^verbatim>\<open>campaign_service.go\<close> and \<^verbatim>\<open>application_service.go\<close> of
  \<^verbatim>\<open>internal/application/services\<close>. A write validates, builds the entity, calls the repository and,
  once that has succeeded, emits the audit event. The lemmas say what reaches the repository on each
  branch: nothing for an invalid input, otherwise exactly the entity that is returned, and that an
  event is emitted only after the repository has accepted the write.
\<close>

definition info_event :: "string \<Rightarrow> Event option" where
  "info_event action = Some \<lparr>ev_Action = action, ev_Severity = SeverityInfo, ev_EmitAudit = True\<rparr>"

section \<open>Lots\<close>

record 's lotService =
  lsv_lots :: "'s LotRepository"
  lsv_signals :: "'s Sink option"
  lsv_now :: "'s clock"
  lsv_rand :: "'s entropy"

definition LotService_ListByTenant :: "'s lotService \<Rightarrow> string \<Rightarrow> 's \<Rightarrow> Lot list res \<times> 's" where
  "LotService_ListByTenant svc tenantID s =
     (if tenantID = [] then (Err ErrTenantRequired, s) else lot_List (lsv_lots svc) tenantID s)"

definition LotService_Create :: "'s lotService \<Rightarrow> string \<Rightarrow> string \<Rightarrow> string \<Rightarrow> rat \<Rightarrow> string \<Rightarrow> 's \<Rightarrow> Lot res \<times> 's" where
  "LotService_Create svc tenantID actorUserID name areaHA crop s =
     (if tenantID = [] \<or> name = [] then (Err ErrInvalidInput, s)
      else if areaHA < 0 then (Err ErrInvalidInput, s)
      else let (now, s1) = lsv_now svc s in
        bindR (newUUIDish (lsv_rand svc) s1) (\<lambda>i s2.
          let lot = \<lparr>l_ID = i, l_TenantID = tenantID, l_Name = name, l_AreaHA = areaHA, l_Crop = crop,
                     l_CreatedAt = now, l_UpdatedAt = now\<rparr> in
          bindR (lot_Create (lsv_lots svc) lot s2) (\<lambda>_ s3.
          bindR (emitEvent (lsv_signals svc) tenantID actorUserID [] False (info_event ''lot.create'') [] s3) (\<lambda>_ s4.
            (Ok lot, s4)))))"

definition NewLotService :: "'s LotRepository \<Rightarrow> 's Sink option \<Rightarrow> 's clock \<Rightarrow> 's entropy \<Rightarrow> 's LotService" where
  "NewLotService lots signals now rnd =
     (let svc = \<lparr>lsv_lots = lots, lsv_signals = signals, lsv_now = now, lsv_rand = rnd\<rparr> in
      \<lparr>los_ListByTenant = LotService_ListByTenant svc, los_Create = LotService_Create svc\<rparr>)"

section \<open>Campaigns\<close>

record 's campaignService =
  csv_campaigns :: "'s CampaignRepository"
  csv_signals :: "'s Sink option"
  csv_now :: "'s clock"
  csv_rand :: "'s entropy"

definition CampaignService_List :: "'s campaignService \<Rightarrow> string \<Rightarrow> 's \<Rightarrow> Campaign list res \<times> 's" where
  "CampaignService_List svc tenantID s =
     (if tenantID = [] then (Err ErrTenantRequired, s) else cmp_List (csv_campaigns svc) tenantID s)"

definition CampaignService_GetByID :: "'s campaignService \<Rightarrow> string \<Rightarrow> string \<Rightarrow> 's \<Rightarrow> Campaign res \<times> 's" where
  "CampaignService_GetByID svc tenantID i s =
     (if tenantID = [] then (Err ErrTenantRequired, s) else cmp_FindByID (csv_campaigns svc) tenantID i s)"

definition CampaignService_Create :: "'s campaignService \<Rightarrow> string \<Rightarrow> string \<Rightarrow> CampaignInput \<Rightarrow> 's \<Rightarrow> Campaign res \<times> 's" where
  "CampaignService_Create svc tenantID actorUserID inp s =
     (if tenantID = [] then (Err ErrTenantRequired, s)
      else let (now, s1) = csv_now svc s in
        bindR (newUUIDish (csv_rand svc) s1) (\<lambda>i s2.
          let campaign = \<lparr>c_ID = i, c_TenantID = tenantID, c_Name = ci_Name inp, c_Season = ci_Season inp,
                c_StartedAt = ci_StartedAt inp, c_EndedAt = ci_EndedAt inp, c_CreatedAt = now, c_UpdatedAt = now\<rparr> in
          if \<not> Campaign_IsValid campaign then (Err ErrInvalidInput, s2)
          else bindR (cmp_Create (csv_campaigns svc) campaign s2) (\<lambda>_ s3.
               bindR (emitEvent (csv_signals svc) tenantID actorUserID [] False (info_event ''campaign.create'') [] s3) (\<lambda>_ s4.
                 (Ok campaign, s4)))))"

text \<open>\<open>CreatedAt\<close> is not set by \<open>Update\<close>.\<close>

definition CampaignService_Update :: "'s campaignService \<Rightarrow> string \<Rightarrow> string \<Rightarrow> string \<Rightarrow> CampaignInput \<Rightarrow> 's \<Rightarrow> Campaign res \<times> 's" where
  "CampaignService_Update svc tenantID actorUserID i inp s =
     (if tenantID = [] then (Err ErrTenantRequired, s)
      else let (now, s1) = csv_now svc s;
               campaign = \<lparr>c_ID = i, c_TenantID = tenantID, c_Name = ci_Name inp, c_Season = ci_Season inp,
                 c_StartedAt = ci_StartedAt inp, c_EndedAt = ci_EndedAt inp, c_CreatedAt = zero_Time, c_UpdatedAt = now\<rparr> in
          if \<not> Campaign_IsValid campaign then (Err ErrInvalidInput, s1)
          else bindR (cmp_Update (csv_campaigns svc) campaign s1) (\<lambda>_ s2.
               bindR (emitEvent (csv_signals svc) tenantID actorUserID [] False (info_event ''campaign.update'') [] s2) (\<lambda>_ s3.
                 (Ok campaign, s3))))"

definition CampaignService_Delete :: "'s campaignService \<Rightarrow> string \<Rightarrow> string \<Rightarrow> string \<Rightarrow> 's \<Rightarrow> unit res \<times> 's" where
  "CampaignService_Delete svc tenantID actorUserID i s =
     (if tenantID = [] then (Err ErrTenantRequired, s)
      else bindR (cmp_Delete (csv_campaigns svc) tenantID i s) (\<lambda>_ s1.
           bindR (emitEvent (csv_signals svc) tenantID actorUserID [] False (info_event ''campaign.delete'') [] s1) (\<lambda>_ s2.
             (Ok (), s2))))"

definition NewCampaignService :: "'s CampaignRepository \<Rightarrow> 's Sink option \<Rightarrow> 's clock \<Rightarrow> 's entropy \<Rightarrow> 's CampaignService" where
  "NewCampaignService campaigns signals now rnd =
     (let svc = \<lparr>csv_campaigns = campaigns, csv_signals = signals, csv_now = now, csv_rand = rnd\<rparr> in
      \<lparr>cas_List = CampaignService_List svc, cas_GetByID = CampaignService_GetByID svc, cas_Create = CampaignService_Create svc,
       cas_Update = CampaignService_Update svc, cas_Delete = CampaignService_Delete svc\<rparr>)"

section \<open>Applications\<close>

record 's applicationService =
  asv_applications :: "'s ApplicationRepository"
  asv_signals :: "'s Sink option"
  asv_now :: "'s clock"
  asv_rand :: "'s entropy"

definition ApplicationService_List :: "'s applicationService \<Rightarrow> string \<Rightarrow> 's \<Rightarrow> Application list res \<times> 's" where
  "ApplicationService_List svc tenantID s =
     (if tenantID = [] then (Err ErrTenantRequired, s) else app_List (asv_applications svc) tenantID s)"

definition ApplicationService_GetByID :: "'s applicationService \<Rightarrow> string \<Rightarrow> string \<Rightarrow> 's \<Rightarrow> Application res \<times> 's" where
  "ApplicationService_GetByID svc tenantID i s =
     (if tenantID = [] then (Err ErrTenantRequired, s) else app_FindByID (asv_applications svc) tenantID i s)"

text \<open>The struct literals of \<open>Create\<close> and \<open>Update\<close> with the default of \<open>AppliedAt\<close>.\<close>

definition application_of :: "string \<Rightarrow> string \<Rightarrow> ApplicationInput \<Rightarrow> time \<Rightarrow> time \<Rightarrow> Application" where
  "application_of i tenantID inp created now =
     \<lparr>a_ID = i, a_TenantID = tenantID, a_LotID = ai_LotID inp, a_CampaignID = ai_CampaignID inp,
      a_ProductName = ai_ProductName inp, a_Dose = ai_Dose inp,
      a_AppliedAt = (if IsZero (ai_AppliedAt inp) then now else ai_AppliedAt inp),
      a_OperatorID = ai_OperatorID inp, a_OperatorName = [], a_Notes = ai_Notes inp,
      a_CreatedAt = created, a_UpdatedAt = now\<rparr>"

definition ApplicationService_Create :: "'s applicationService \<Rightarrow> string \<Rightarrow> string \<Rightarrow> ApplicationInput \<Rightarrow> 's \<Rightarrow> Application res \<times> 's" where
  "ApplicationService_Create svc tenantID actorUserID inp s =
     (if tenantID = [] then (Err ErrTenantRequired, s)
      else let (now, s1) = asv_now svc s in
        bindR (newUUIDish (asv_rand svc) s1) (\<lambda>i s2.
          let app = application_of i tenantID inp now now in
          if \<not> Application_IsValid app then (Err ErrInvalidInput, s2)
          else bindR (app_Create (asv_applications svc) app s2) (\<lambda>_ s3.
               bindR (emitEvent (asv_signals svc) tenantID actorUserID [] False (info_event ''application.create'') [] s3) (\<lambda>_ s4.
                 (Ok app, s4)))))"

definition ApplicationService_Update :: "'s applicationService \<Rightarrow> string \<Rightarrow> string \<Rightarrow> string \<Rightarrow> ApplicationInput \<Rightarrow> 's \<Rightarrow> Application res \<times> 's" where
  "ApplicationService_Update svc tenantID actorUserID i inp s =
     (if tenantID = [] then (Err ErrTenantRequired, s)
      else let (now, s1) = asv_now svc s; app = application_of i tenantID inp zero_Time now in
          if \<not> Application_IsValid app then (Err ErrInvalidInput, s1)
          else bindR (app_Update (asv_applications svc) app s1) (\<lambda>_ s2.
               bindR (emitEvent (asv_signals svc) tenantID actorUserID [] False (info_event ''application.update'') [] s2) (\<lambda>_ s3.
                 (Ok app, s3))))"

definition ApplicationService_Delete :: "'s applicationService \<Rightarrow> string \<Rightarrow> string \<Rightarrow> string \<Rightarrow> 's \<Rightarrow> unit res \<times> 's" where
  "ApplicationService_Delete svc tenantID actorUserID i s =
     (if tenantID = [] then (Err ErrTenantRequired, s)
      else bindR (app_Delete (asv_applications svc) tenantID i s) (\<lambda>_ s1.
           bindR (emitEvent (asv_signals svc) tenantID actorUserID [] False (info_event ''application.delete'') [] s1) (\<lambda>_ s2.
             (Ok (), s2))))"

definition NewApplicationService :: "'s ApplicationRepository \<Rightarrow> 's Sink option \<Rightarrow> 's clock \<Rightarrow> 's entropy \<Rightarrow> 's ApplicationService" where
  "NewApplicationService applications signals now rnd =
     (let svc = \<lparr>asv_applications = applications, asv_signals = signals, asv_now = now, asv_rand = rnd\<rparr> in
      \<lparr>aps_List = ApplicationService_List svc, aps_GetByID = ApplicationService_GetByID svc, aps_Create = ApplicationService_Create svc,
       aps_Update = ApplicationService_Update svc, aps_Delete = ApplicationService_Delete svc\<rparr>)"

section \<open>Facts\<close>

lemma LotService_Create_Ok:
  assumes "LotService_Create svc t a n ar cr s = (Ok lot, s')"
  obtains s2 s3 where "lot_Create (lsv_lots svc) lot s2 = (Ok (), s3)"
    "emitEvent (lsv_signals svc) t a [] False (info_event ''lot.create'') [] s3 = (Ok (), s')"
    "Lot_IsValid lot" "l_TenantID lot = t" "l_Name lot = n" "l_AreaHA lot = ar" "l_Crop lot = cr"
    "uuid_v4_text (l_ID lot) \<or> (\<exists>b. l_ID lot = uuid_string (uuid_bits b))"
  using assms
  by (fastforce simp: LotService_Create_def Let_def bindR_Ok_iff Lot_IsValid_def newUUIDish_def
      split: if_splits prod.splits option.splits)

lemma CampaignService_Create_Ok:
  assumes "CampaignService_Create svc t a inp s = (Ok c, s')"
  obtains s2 s3 where "cmp_Create (csv_campaigns svc) c s2 = (Ok (), s3)"
    "emitEvent (csv_signals svc) t a [] False (info_event ''campaign.create'') [] s3 = (Ok (), s')"
    "Campaign_IsValid c" "c_TenantID c = t" "c_Name c = ci_Name inp" "c_StartedAt c = ci_StartedAt inp"
    "c_EndedAt c = ci_EndedAt inp"
  using assms
  by (auto simp: CampaignService_Create_def Let_def bindR_Ok_iff split: if_splits prod.splits)

lemma CampaignService_Update_Ok:
  assumes "CampaignService_Update svc t a i inp s = (Ok c, s')"
  obtains s1 s2 where "cmp_Update (csv_campaigns svc) c s1 = (Ok (), s2)"
    "emitEvent (csv_signals svc) t a [] False (info_event ''campaign.update'') [] s2 = (Ok (), s')"
    "Campaign_IsValid c" "c_ID c = i" "c_TenantID c = t" "c_CreatedAt c = zero_Time"
  using assms
  by (auto simp: CampaignService_Update_def Let_def bindR_Ok_iff split: if_splits prod.splits)

text \<open>An input that fails validation reaches neither the repository nor the sinks: the world is
  the one the clock and the entropy source left.\<close>

lemma CampaignService_Create_invalid:
  assumes "t \<noteq> []" "ci_Name inp = [] \<or> (\<exists>x y. ci_StartedAt inp = Some x \<and> ci_EndedAt inp = Some y \<and> y < x)"
    and "csv_now svc s = (now, s1)" "newUUIDish (csv_rand svc) s1 = (Ok i, s2)"
  shows "CampaignService_Create svc t a inp s = (Err ErrInvalidInput, s2)"
  using assms by (auto simp: CampaignService_Create_def Campaign_IsValid_def Before_def Let_def)

text \<open>A repository that refuses a write ends the call with its own error and no event.\<close>

lemma Update_refused:
  assumes "t \<noteq> []" "csv_now svc s = (now, s1)" "CampaignService_Update svc t a i inp s = (r, s')"
    and "\<And>c. cmp_Update (csv_campaigns svc) c s1 = (Err e, s2)"
  shows "(r, s') = (Err e, s2) \<or> (r, s') = (Err ErrInvalidInput, s1)"
  using assms by (auto simp: CampaignService_Update_def Let_def split: if_splits)

lemma Delete_refused:
  "t \<noteq> [] \<Longrightarrow> cmp_Delete (csv_campaigns svc) t i s = (Err e, s1) \<Longrightarrow> CampaignService_Delete svc t a i s = (Err e, s1)"
  "t \<noteq> [] \<Longrightarrow> app_Delete (asv_applications svc') t i s = (Err e, s1) \<Longrightarrow> ApplicationService_Delete svc' t a i s = (Err e, s1)"
  by (simp_all add: CampaignService_Delete_def ApplicationService_Delete_def)

end
