(* ===== verification/Role_Resolve.thy ===== *)
theory Role_Resolve
  imports Ports
begin

text \<open>
  \<^verbatim>\<open>internal/application/services/role_resolve.go\<close>: the single most privileged role a user holds,
  embedded in every access token. The abstract view is a linear order on the five roles
  (\<open>privilege\<close>) and the maximum of the set held; \<open>resolveRole_codes\<close>, the loop of the source,
  computes it. The locale states what \<open>ports.UserRoleRepository\<close> promises about \<open>ListByUser\<close>,
  and the lemmas inside it say what every token issuer may rely on.
\<close>

definition rolePrecedence :: "string list" where
  "rolePrecedence = [RoleAdmin, RoleAgronomist, RoleProducer, RoleAuditor, RoleHauler]"

text \<open>The loop over the decision table: the first precedence entry the user holds.\<close>

fun first_held :: "string list \<Rightarrow> string set \<Rightarrow> string" where
  "first_held [] held = []"
| "first_held (code # codes) held = (if code \<in> held then code else first_held codes held)"

definition resolveRole :: "'s UserRoleRepository \<Rightarrow> string \<Rightarrow> string \<Rightarrow> 's \<Rightarrow> string res \<times> 's" where
  "resolveRole roles tenantID userID s =
     bindR (wrapR ''resolve role'' (rol_ListByUser roles tenantID userID s)) (\<lambda>memberships s'.
       (Ok (first_held rolePrecedence (set (map ur_RoleCode memberships))), s'))"

section \<open>Privileges\<close>

datatype privilege = Hauler | Auditor | Producer | Agronomist | Admin

fun rank :: "privilege \<Rightarrow> nat" where
  "rank Hauler = 0" | "rank Auditor = 1" | "rank Producer = 2" | "rank Agronomist = 3" | "rank Admin = 4"

lemma rank_inject [simp]: "rank p = rank q \<longleftrightarrow> p = q"
  by (cases p; cases q) simp_all

instantiation privilege :: linorder
begin

definition less_eq_privilege :: "privilege \<Rightarrow> privilege \<Rightarrow> bool" where
  "less_eq_privilege p q \<longleftrightarrow> rank p \<le> rank q"

definition less_privilege :: "privilege \<Rightarrow> privilege \<Rightarrow> bool" where
  "less_privilege p q \<longleftrightarrow> rank p < rank q"

instance
  by standard (auto simp: less_eq_privilege_def less_privilege_def)

end

fun code_of :: "privilege \<Rightarrow> string" where
  "code_of Admin = RoleAdmin"
| "code_of Agronomist = RoleAgronomist"
| "code_of Producer = RoleProducer"
| "code_of Auditor = RoleAuditor"
| "code_of Hauler = RoleHauler"

lemma code_of_inject [simp]: "code_of p = code_of q \<longleftrightarrow> p = q"
  by (cases p; cases q) simp_all

lemma code_of_nonempty [simp]: "code_of p \<noteq> []"
  by (cases p) simp_all

lemma IsValidRoleCode_iff: "IsValidRoleCode c \<longleftrightarrow> c \<in> range code_of"
proof
  assume "IsValidRoleCode c"
  then show "c \<in> range code_of"
    by (auto simp: IsValidRoleCode_def image_iff) (metis code_of.simps)+
next
  assume "c \<in> range code_of"
  then obtain p where "c = code_of p" by blast
  then show "IsValidRoleCode c" by (cases p) (simp_all add: IsValidRoleCode_def)
qed

definition privileges :: "string set \<Rightarrow> privilege set" where
  "privileges held = {p. code_of p \<in> held}"

definition strongest :: "privilege set \<Rightarrow> string" where
  "strongest P = (if P = {} then [] else code_of (Max P))"

lemma finite_privileges [simp]: "finite (P :: privilege set)"
proof (rule finite_subset)
  show "P \<subseteq> {Hauler, Auditor, Producer, Agronomist, Admin}"
    using privilege.exhaust by blast
qed simp

lemma strongest_eqI:
  assumes "p \<in> P" "\<And>q. q \<in> P \<Longrightarrow> q \<le> p"
  shows "strongest P = code_of p"
  using assms Max_eqI [of P p] by (auto simp: strongest_def)

lemma first_held_sorted:
  "sorted_wrt (\<lambda>p q. q \<le> p) ps \<Longrightarrow>
     first_held (map code_of ps) held = strongest {p \<in> set ps. code_of p \<in> held}"
proof (induction ps)
  case Nil
  then show ?case by (simp add: strongest_def)
next
  case (Cons p ps)
  show ?case
  proof (cases "code_of p \<in> held")
    case True
    then have "strongest {q \<in> set (p # ps). code_of q \<in> held} = code_of p"
      using Cons.prems by (intro strongest_eqI) auto
    with True show ?thesis by simp
  next
    case False
    then have "{q \<in> set (p # ps). code_of q \<in> held} = {q \<in> set ps. code_of q \<in> held}" by auto
    with False Cons show ?thesis by simp
  qed
qed

lemma first_held_strongest: "first_held rolePrecedence held = strongest (privileges held)"
proof -
  let ?ps = "[Admin, Agronomist, Producer, Auditor, Hauler]"
  have "rolePrecedence = map code_of ?ps" by (simp add: rolePrecedence_def)
  moreover have "sorted_wrt (\<lambda>p q. q \<le> p) ?ps" by (simp add: less_eq_privilege_def)
  moreover have "p \<in> set ?ps" for p by (cases p) simp_all
  then have "{p \<in> set ?ps. code_of p \<in> held} = privileges held" by (auto simp: privileges_def)
  ultimately show ?thesis by (metis first_held_sorted)
qed

section \<open>The membership interface\<close>

text \<open>\<open>ListByUser\<close> of \<open>ports.UserRoleRepository\<close>: it only reads, and a successful call lists
  exactly the memberships the tenant sees of the user.\<close>

locale user_role_repository =
  fixes roles :: "'s UserRoleRepository"
    and view :: "'s \<Rightarrow> 'v"
    and held :: "'v \<Rightarrow> string \<Rightarrow> string \<Rightarrow> string set"
  assumes list_reads: "view (snd (rol_ListByUser roles t u s)) = view s"
    and list_held: "rol_ListByUser roles t u s = (Ok ms, s') \<Longrightarrow> ur_RoleCode ` set ms = held (view s) t u"
begin

lemma resolve_strongest:
  "resolveRole roles t u s = (Ok r, s') \<Longrightarrow> r = strongest (privileges (held (view s) t u))"
  by (auto simp: resolveRole_def bindR_Ok_iff first_held_strongest list_held)

lemma resolve_reads: "view (snd (resolveRole roles t u s)) = view s"
proof -
  have "view s1 = view s" if "rol_ListByUser roles t u s = (Ok ms, s1)" for ms s1
    using list_reads [of t u s] that by simp
  then show ?thesis
    unfolding resolveRole_def
    by (intro snd_bindR_invariant [where P = "\<lambda>w. view w = view s"]) (simp_all add: list_reads)
qed

lemma resolve_roleless:
  "resolveRole roles t u s = (Ok r, s') \<Longrightarrow> r = [] \<longleftrightarrow> privileges (held (view s) t u) = {}"
  by (drule resolve_strongest) (simp add: strongest_def)

end

end
