(* ===== verification/User_Service.thy ===== *)
theory User_Service
  imports Refresh_Token Role_Resolve Breach
begin

text \<open>
  \<^verbatim>\<open>internal/application/services/user_service.go\<close>: provisioning. \<open>CreateUser\<close> checks the role code
  before anything else, hashes, inserts the user and assigns the role in two transactions;
  \<open>ListUsers\<close> resolves the role of every user in turn and fails as soon as one cannot be resolved;
  \<open>UpdateUser\<close> rewrites the row it fetched.
\<close>

record 's userService =
  usv_users :: "'s UserRepository"
  usv_userRoles :: "'s UserRoleRepository"
  usv_hasher :: "'s PasswordHasher"
  usv_signals :: "'s Sink option"
  usv_now :: "'s clock"
  usv_rand :: "'s entropy"

definition UserService_CreateUser :: "'s userService \<Rightarrow> string \<Rightarrow> string \<Rightarrow> UserInput \<Rightarrow> 's \<Rightarrow> User res \<times> 's" where
  "UserService_CreateUser svc tenantID actorUserID inp s =
     (if tenantID = [] then (Err ErrTenantRequired, s)
      else if \<not> IsValidRoleCode (ui_Role inp) then (Err ErrInvalidInput, s)
      else bindR (wrapR ''hash password'' (hsh_Hash (usv_hasher svc) (ui_Password inp) s)) (\<lambda>hash s1.
        let (now, s2) = usv_now svc s1 in
        bindR (newUUIDish (usv_rand svc) s2) (\<lambda>i s3.
          let user = \<lparr>u_ID = i, u_TenantID = tenantID, u_Email = ui_Email inp, u_PasswordHash = hash,
                u_FullName = ui_FullName inp, u_IsActive = True, u_Role = [], u_CreatedAt = now, u_UpdatedAt = now\<rparr> in
          if \<not> User_IsValid user then (Err ErrInvalidInput, s3)
          else
            bindR (usr_Create (usv_users svc) user s3) (\<lambda>_ s4.
            bindR (rol_Assign (usv_userRoles svc)
                     \<lparr>ur_UserID = i, ur_RoleCode = ui_Role inp, ur_TenantID = tenantID\<rparr> s4) (\<lambda>_ s5.
            bindR (emitEvent (usv_signals svc) tenantID actorUserID [] False
                     (Some \<lparr>ev_Action = ''user.create'', ev_Severity = SeverityInfo, ev_EmitAudit = True\<rparr>) [] s5) (\<lambda>_ s6.
              (Ok (user\<lparr>u_Role := ui_Role inp\<rparr>), s6)))))))"

text \<open>The loop of \<open>ListUsers\<close>.\<close>

fun with_roles :: "'s UserRoleRepository \<Rightarrow> string \<Rightarrow> User list \<Rightarrow> 's \<Rightarrow> User list res \<times> 's" where
  "with_roles roles tenantID [] s = (Ok [], s)"
| "with_roles roles tenantID (u # us) s =
     bindR (resolveRole roles tenantID (u_ID u) s) (\<lambda>r s1.
     bindR (with_roles roles tenantID us s1) (\<lambda>us' s2. (Ok (u\<lparr>u_Role := r\<rparr> # us'), s2)))"

definition UserService_ListUsers :: "'s userService \<Rightarrow> string \<Rightarrow> 's \<Rightarrow> User list res \<times> 's" where
  "UserService_ListUsers svc tenantID s =
     (if tenantID = [] then (Err ErrTenantRequired, s)
      else bindR (usr_List (usv_users svc) tenantID s) (with_roles (usv_userRoles svc) tenantID))"

definition UserService_UpdateUser :: "'s userService \<Rightarrow> string \<Rightarrow> string \<Rightarrow> string \<Rightarrow> UpdateUserInput \<Rightarrow> 's \<Rightarrow> User res \<times> 's" where
  "UserService_UpdateUser svc tenantID actorUserID i inp s =
     (if tenantID = [] then (Err ErrTenantRequired, s)
      else bindR (usr_FindByID (usv_users svc) tenantID i s) (\<lambda>found s1.
        let (now, s2) = usv_now svc s1;
            user = found\<lparr>u_FullName := uui_FullName inp, u_IsActive := uui_IsActive inp, u_UpdatedAt := now\<rparr> in
        if \<not> User_IsValid user then (Err ErrInvalidInput, s2)
        else
          bindR (usr_Update (usv_users svc) user s2) (\<lambda>_ s3.
          bindR (resolveRole (usv_userRoles svc) tenantID (u_ID user) s3) (\<lambda>r s4.
            (Ok (user\<lparr>u_Role := r\<rparr>), s4)))))"

definition NewUserService :: "'s UserRepository \<Rightarrow> 's UserRoleRepository \<Rightarrow> 's PasswordHasher \<Rightarrow> 's Sink option \<Rightarrow>
    's clock \<Rightarrow> 's entropy \<Rightarrow> 's UserService" where
  "NewUserService users userRoles hasher signals now rnd =
     (let svc = \<lparr>usv_users = users, usv_userRoles = userRoles, usv_hasher = hasher, usv_signals = signals,
                 usv_now = now, usv_rand = rnd\<rparr> in
      \<lparr>uss_CreateUser = UserService_CreateUser svc, uss_ListUsers = UserService_ListUsers svc,
       uss_UpdateUser = UserService_UpdateUser svc\<rparr>)"

section \<open>Facts\<close>

text \<open>An unknown role code reaches nothing: the world is untouched.\<close>

lemma CreateUser_unknown_role:
  "t \<noteq> [] \<Longrightarrow> \<not> IsValidRoleCode (ui_Role inp) \<Longrightarrow> UserService_CreateUser svc t a inp s = (Err ErrInvalidInput, s)"
  by (simp add: UserService_CreateUser_def)

lemma CreateUser_Ok:
  assumes "UserService_CreateUser svc t a inp s = (Ok u, s')"
  obtains hash s1 s3 s4 s5 where
    "hsh_Hash (usv_hasher svc) (ui_Password inp) s = (Ok hash, s1)" "u_PasswordHash u = hash"
    "User_IsValid u" "u_TenantID u = t" "u_Email u = ui_Email inp" "u_Role u = ui_Role inp" "IsValidRoleCode (u_Role u)"
    "usr_Create (usv_users svc) (u\<lparr>u_Role := []\<rparr>) s3 = (Ok (), s4)"
    "rol_Assign (usv_userRoles svc) \<lparr>ur_UserID = u_ID u, ur_RoleCode = u_Role u, ur_TenantID = t\<rparr> s4 = (Ok (), s5)"
  using assms
  by (auto simp: UserService_CreateUser_def Let_def bindR_Ok_iff User_IsValid_def case_prod_unfold split: if_splits)

text \<open>Over a membership repository that keeps its contract, the list carries the strongest role of
  every user.\<close>

context user_role_repository
begin

lemma with_roles_strongest:
  "with_roles roles t us s = (Ok us', s') \<Longrightarrow>
     view s' = view s \<and> us' = map (\<lambda>u. u\<lparr>u_Role := strongest (privileges (held (view s) t (u_ID u)))\<rparr>) us"
proof (induction us arbitrary: s us' s')
  case Nil
  then show ?case by simp
next
  case (Cons u us)
  from Cons.prems obtain r s1 us1 where r: "resolveRole roles t (u_ID u) s = (Ok r, s1)"
    and us: "with_roles roles t us s1 = (Ok us1, s')" "us' = u\<lparr>u_Role := r\<rparr> # us1"
    by (auto simp: bindR_Ok_iff)
  have "view s1 = view s" using resolve_reads [of t "u_ID u" s] r by simp
  with Cons.IH [OF us(1)] us(2) resolve_strongest [OF r] show ?case by simp
qed

lemma ListUsers_strongest:
  assumes "UserService_ListUsers svc t s = (Ok us, s')" "usv_userRoles svc = roles"
    and "\<And>s. view (snd (usr_List (usv_users svc) t s)) = view s"
  shows "\<exists>rows s1. usr_List (usv_users svc) t s = (Ok rows, s1) \<and>
    us = map (\<lambda>u. u\<lparr>u_Role := strongest (privileges (held (view s) t (u_ID u)))\<rparr>) rows"
proof -
  from assms(1,2) obtain rows s1 where l: "usr_List (usv_users svc) t s = (Ok rows, s1)"
    and w: "with_roles roles t rows s1 = (Ok us, s')"
    by (auto simp: UserService_ListUsers_def bindR_Ok_iff split: if_splits)
  have "view s1 = view s" using assms(3) [of s] l by simp
  with with_roles_strongest [OF w] l show ?thesis by simp
qed

end

end
