(* ===== verification/Auth_Service.thy ===== *)
theory Auth_Service
  imports Refresh_Token Role_Resolve Sinks
begin

text \<open>
  \<^verbatim>\<open>internal/application/services/auth_service.go\<close>: \<open>Login\<close> and \<open>Refresh\<close>. The locale
  \<open>refresh_token_repository\<close> is the contract of \<open>ports.RefreshTokenRepository\<close> over the abstract list
  of stored tokens, with calls that may fail before or after taking effect; \<open>auth_service\<close> adds
  collaborators that leave the tokens alone. The results: a family of tokens has at most one live
  member, whatever fails in between; a rotated token that is presented again kills its family; a
  failed role resolution changes no token.
\<close>

record 's authService =
  ath_users :: "'s UserRepository"
  ath_tokens :: "'s TokenManager"
  ath_hasher :: "'s PasswordHasher"
  ath_userRoles :: "'s UserRoleRepository"
  ath_refreshTokens :: "'s RefreshTokenRepository"
  ath_signals :: "'s Sink option"
  ath_accessTTL :: duration
  ath_refreshTTL :: duration
  ath_now :: "'s clock"
  ath_rand :: "'s entropy"

text \<open>\<open>int64(d.Seconds())\<close>, for a duration whose seconds a \<open>float64\<close> holds exactly.\<close>

definition whole_seconds :: "duration \<Rightarrow> int" where
  "whole_seconds d = quot d Second"

definition token_record :: "RefreshToken \<Rightarrow> string \<Rightarrow> string \<Rightarrow> string \<Rightarrow> RefreshTokenRecord" where
  "token_record rt userID tenantID familyID =
     \<lparr>rr_ID = rt_ID rt, rr_UserID = userID, rr_TenantID = tenantID, rr_FamilyID = familyID,
      rr_TokenHash = rt_Hash rt, rr_ExpiresAt = Unix (rt_ExpiresAt rt), rr_RevokedAt = None, rr_ReplacedBy = []\<rparr>"

definition session_of :: "'s authService \<Rightarrow> string \<Rightarrow> RefreshToken \<Rightarrow> string \<Rightarrow> string \<Rightarrow> AuthSession" where
  "session_of svc access rt userID tenantID =
     \<lparr>as_AccessToken = access, as_RefreshToken = rt_Plain rt, as_ExpiresIn = whole_seconds (ath_accessTTL svc),
      as_UserID = userID, as_TenantID = tenantID, as_Role = []\<rparr>"

text \<open>\<open>Login\<close> once the password has been verified.\<close>

definition login_store :: "'s authService \<Rightarrow> User \<Rightarrow> string \<Rightarrow> RefreshToken \<Rightarrow> 's \<Rightarrow> AuthSession res \<times> 's" where
  "login_store svc user access rt s =
     bindR (wrapR ''store refresh token'' (rtk_Store (ath_refreshTokens svc)
              (token_record rt (u_ID user) (u_TenantID user) (rt_FamilyID rt)) s)) (\<lambda>_ s1.
     bindR (EmitSignal (ath_signals svc) SignalLoginSuccess False (u_TenantID user) (u_ID user) [] s1) (\<lambda>_ s2.
       (Ok (session_of svc access rt (u_ID user) (u_TenantID user)), s2)))"

definition login_issue :: "'s authService \<Rightarrow> User \<Rightarrow> 's \<Rightarrow> AuthSession res \<times> 's" where
  "login_issue svc user s =
     bindR (wrapR ''resolve role'' (resolveRole (ath_userRoles svc) (u_TenantID user) (u_ID user) s)) (\<lambda>role s1.
     bindR (wrapR ''issue access token'' (tok_Issue (ath_tokens svc)
              \<lparr>tc_UserID = u_ID user, tc_TenantID = u_TenantID user, tc_Role = role\<rparr> s1)) (\<lambda>access s2.
     bindR (wrapR ''generate refresh token''
              (NewRefreshToken (ath_rand svc) (ath_now svc) (ath_refreshTTL svc) s2)) (\<lambda>rt s3.
       login_store svc user access rt s3)))"

definition AuthService_Login :: "'s authService \<Rightarrow> string \<Rightarrow> string \<Rightarrow> string \<Rightarrow> 's \<Rightarrow> AuthSession res \<times> 's" where
  "AuthService_Login svc tenantID email password s =
     (if tenantID = [] \<or> email = [] \<or> password = [] then (Err ErrUnauthorized, s)
      else case usr_FindByEmail (ath_users svc) tenantID email s of
          (Err e, s1) \<Rightarrow> (Err ErrUnauthorized, s1)
        | (Panic p, s1) \<Rightarrow> (Panic p, s1)
        | (Ok user, s1) \<Rightarrow>
           if \<not> u_IsActive user then (Err ErrUnauthorized, s1)
           else case hsh_Verify (ath_hasher svc) (u_PasswordHash user) password s1 of
               (Panic p, s2) \<Rightarrow> (Panic p, s2)
             | (Err e, s2) \<Rightarrow> (Err ErrUnauthorized, s2)
             | (Ok ok, s2) \<Rightarrow> if \<not> ok then (Err ErrUnauthorized, s2) else login_issue svc user s2)"

text \<open>\<open>Refresh\<close>: the two acting branches and the dispatch.\<close>

definition refresh_replay :: "'s authService \<Rightarrow> Ctx \<Rightarrow> RefreshTokenRecord \<Rightarrow> 's \<Rightarrow> AuthSession res \<times> 's" where
  "refresh_replay svc ctx r s =
     bindR (wrapR ''revoke family'' (rtk_RevokeFamily (ath_refreshTokens svc) (rr_FamilyID r) s)) (\<lambda>_ s1.
     bindR (EmitSignal (ath_signals svc) SignalRefreshReplay False (rr_TenantID r) (rr_UserID r)
              (FromRequestID ctx) s1) (\<lambda>_ s2.
       (Err ErrUnauthorized, s2)))"

text \<open>Rotation, in the three stretches the proofs follow: the access token once the successor is
  stored, the swap of the two tokens, and the whole branch.\<close>

definition refresh_issue :: "'s authService \<Rightarrow> Ctx \<Rightarrow> RefreshTokenRecord \<Rightarrow> string \<Rightarrow> RefreshToken \<Rightarrow> 's \<Rightarrow> AuthSession res \<times> 's" where
  "refresh_issue svc ctx r role rt s =
     bindR (wrapR ''issue access token'' (tok_Issue (ath_tokens svc)
              \<lparr>tc_UserID = rr_UserID r, tc_TenantID = rr_TenantID r, tc_Role = role\<rparr> s)) (\<lambda>access s1.
     bindR (EmitSignal (ath_signals svc) SignalRefreshSuccess False (rr_TenantID r) (rr_UserID r)
              (FromRequestID ctx) s1) (\<lambda>_ s2.
       (Ok (session_of svc access rt (rr_UserID r) (rr_TenantID r)), s2)))"

definition refresh_swap :: "'s authService \<Rightarrow> Ctx \<Rightarrow> RefreshTokenRecord \<Rightarrow> string \<Rightarrow> RefreshToken \<Rightarrow> 's \<Rightarrow> AuthSession res \<times> 's" where
  "refresh_swap svc ctx r role rt s =
     bindR (wrapR ''revoke old refresh token''
              (rtk_Revoke (ath_refreshTokens svc) (rr_ID r) (rt_ID rt) s)) (\<lambda>_ s1.
     bindR (wrapR ''store rotated refresh token'' (rtk_Store (ath_refreshTokens svc)
              (token_record rt (rr_UserID r) (rr_TenantID r) (rr_FamilyID r)) s1)) (\<lambda>_ s2.
       refresh_issue svc ctx r role rt s2))"

definition refresh_rotate :: "'s authService \<Rightarrow> Ctx \<Rightarrow> RefreshTokenRecord \<Rightarrow> 's \<Rightarrow> AuthSession res \<times> 's" where
  "refresh_rotate svc ctx r s =
     bindR (wrapR ''resolve role'' (resolveRole (ath_userRoles svc) (rr_TenantID r) (rr_UserID r) s)) (\<lambda>role s1.
     bindR (wrapR ''generate refresh token''
              (NewRefreshToken (ath_rand svc) (ath_now svc) (ath_refreshTTL svc) s1)) (\<lambda>rt s2.
       refresh_swap svc ctx r role rt s2))"

definition AuthService_Refresh :: "'s authService \<Rightarrow> Ctx \<Rightarrow> string \<Rightarrow> 's \<Rightarrow> AuthSession res \<times> 's" where
  "AuthService_Refresh svc ctx refreshToken s =
     (if refreshToken = [] then (Err ErrUnauthorized, s)
      else case rtk_FindByHash (ath_refreshTokens svc) (HashToken refreshToken) s of
          (Panic p, s1) \<Rightarrow> (Panic p, s1)
        | (Err e, s1) \<Rightarrow>
            if errors_Is e ErrNotFound then (Err ErrUnauthorized, s1)
            else (Err (Errorf ''find refresh token'' e), s1)
        | (Ok r, s1) \<Rightarrow>
            (let (now, s2) = ath_now svc s1 in
             case DecideRotation (rr_RevokedAt r \<noteq> None) (rr_ReplacedBy r) (rr_ExpiresAt r) (Unix now) of
               RotationRejectRevoked \<Rightarrow> refresh_replay svc ctx r s2
             | RotationRejectExpired \<Rightarrow> (Err ErrUnauthorized, s2)
             | RotationAllow \<Rightarrow> refresh_rotate svc ctx r s2
             | RotationRejectInvalid \<Rightarrow> (Err ErrUnauthorized, s2)))"

text \<open>The service as the handlers see it.\<close>

definition auth_service_of :: "'s authService \<Rightarrow> 's AuthService" where
  "auth_service_of svc = \<lparr>aus_Login = (\<lambda>ctx. AuthService_Login svc), aus_Refresh = AuthService_Refresh svc\<rparr>"

section \<open>Families of tokens\<close>

definition live :: "RefreshTokenRecord \<Rightarrow> bool" where
  "live t \<longleftrightarrow> rr_RevokedAt t = None"

definition single_live :: "RefreshTokenRecord list \<Rightarrow> bool" where
  "single_live ts \<longleftrightarrow> distinct (map rr_ID ts) \<and> distinct (map rr_TokenHash ts) \<and>
     (\<forall>a \<in> set ts. \<forall>b \<in> set ts. live a \<and> live b \<and> rr_FamilyID a = rr_FamilyID b \<longrightarrow> a = b)"

definition dead_family :: "string \<Rightarrow> RefreshTokenRecord list \<Rightarrow> bool" where
  "dead_family f ts \<longleftrightarrow> (\<forall>t \<in> set ts. rr_FamilyID t = f \<longrightarrow> \<not> live t)"

definition revoked_one :: "string \<Rightarrow> string \<Rightarrow> int \<Rightarrow> RefreshTokenRecord list \<Rightarrow> RefreshTokenRecord list" where
  "revoked_one i by now ts =
     map (\<lambda>t. if rr_ID t = i then t\<lparr>rr_RevokedAt := Some now, rr_ReplacedBy := by\<rparr> else t) ts"

definition revoked_family :: "string \<Rightarrow> int \<Rightarrow> RefreshTokenRecord list \<Rightarrow> RefreshTokenRecord list" where
  "revoked_family f now ts =
     map (\<lambda>t. if rr_FamilyID t = f \<and> live t then t\<lparr>rr_RevokedAt := Some now\<rparr> else t) ts"

lemma revoked_one_ids [simp]:
  "map rr_ID (revoked_one i by now ts) = map rr_ID ts"
  "map rr_TokenHash (revoked_one i by now ts) = map rr_TokenHash ts"
  by (simp_all add: revoked_one_def)

lemma revoked_family_ids [simp]:
  "map rr_ID (revoked_family f now ts) = map rr_ID ts"
  "map rr_TokenHash (revoked_family f now ts) = map rr_TokenHash ts"
  by (simp_all add: revoked_family_def)

lemma single_live_unique:
  "single_live ts \<Longrightarrow> a \<in> set ts \<Longrightarrow> b \<in> set ts \<Longrightarrow> live a \<Longrightarrow> live b \<Longrightarrow> rr_FamilyID a = rr_FamilyID b \<Longrightarrow> a = b"
  by (auto simp: single_live_def)

text \<open>A live token of a changed list is a live token of the old one that was not touched.\<close>

lemma live_revoked_one: "t \<in> set (revoked_one i by now ts) \<Longrightarrow> live t \<Longrightarrow> t \<in> set ts \<and> rr_ID t \<noteq> i"
  by (auto simp: revoked_one_def live_def split: if_splits)

lemma live_revoked_family: "t \<in> set (revoked_family f now ts) \<Longrightarrow> live t \<Longrightarrow> t \<in> set ts \<and> rr_FamilyID t \<noteq> f"
  by (auto simp: revoked_family_def live_def split: if_splits)

lemma single_live_revoked_one: "single_live ts \<Longrightarrow> single_live (revoked_one i by now ts)"
  unfolding single_live_def [of "revoked_one i by now ts"]
  by (auto dest!: live_revoked_one intro: single_live_unique simp: single_live_def)

lemma single_live_revoked_family: "single_live ts \<Longrightarrow> single_live (revoked_family f now ts)"
  unfolding single_live_def [of "revoked_family f now ts"]
  by (auto dest!: live_revoked_family intro: single_live_unique simp: single_live_def)

lemma dead_revoked_family: "dead_family f (revoked_family f now ts)"
  by (auto simp: dead_family_def dest: live_revoked_family)

lemma dead_revoked_one:
  assumes "single_live ts" "r \<in> set ts" "live r"
  shows "dead_family (rr_FamilyID r) (revoked_one (rr_ID r) by now ts)"
  unfolding dead_family_def
proof (intro ballI impI notI)
  fix t assume t: "t \<in> set (revoked_one (rr_ID r) by now ts)" "rr_FamilyID t = rr_FamilyID r" "live t"
  from live_revoked_one [OF t(1,3)] have "t \<in> set ts" "rr_ID t \<noteq> rr_ID r" by auto
  with single_live_unique [OF assms(1) _ assms(2) t(3) assms(3) t(2)] show False by auto
qed

lemma single_live_snoc:
  assumes "single_live ts" "dead_family (rr_FamilyID t) ts" "rr_ID t \<notin> rr_ID ` set ts" "rr_TokenHash t \<notin> rr_TokenHash ` set ts"
  shows "single_live (ts @ [t])"
  using assms by (auto simp: single_live_def dead_family_def)

section \<open>The contracts\<close>

text \<open>\<open>core s\<close> is the part of the world the tokens live in, \<open>uid\<close> an identifier in the form the store
  prints it, \<open>inv\<close> the consistency of the store.\<close>

locale refresh_token_repository =
  fixes repo :: "'s RefreshTokenRepository"
    and core :: "'s \<Rightarrow> 'c"
    and tokens :: "'c \<Rightarrow> RefreshTokenRecord list"
    and inv :: "'c \<Rightarrow> bool"
    and uid :: "string \<Rightarrow> bool"
  assumes find_reads: "core (snd (rtk_FindByHash repo h s)) = core s"
    and find_Ok: "rtk_FindByHash repo h s = (Ok r, s') \<Longrightarrow> r \<in> set (tokens (core s)) \<and> rr_TokenHash r = h"
    and find_none: "rtk_FindByHash repo h s = (Err er, s') \<Longrightarrow> errors_Is er ErrNotFound \<Longrightarrow>
      h \<notin> rr_TokenHash ` set (tokens (core s))"
    and inv_uids: "inv c \<Longrightarrow> t \<in> set (tokens c) \<Longrightarrow>
      uid (rr_ID t) \<and> uid (rr_UserID t) \<and> uid (rr_TenantID t) \<and> uid (rr_FamilyID t)"
    and inv_v4: "inv c \<Longrightarrow> uuid_v4_text i \<Longrightarrow> uid i"
    and revoke_effect: "rtk_Revoke repo i by s = (x, s') \<Longrightarrow> inv (core s) \<Longrightarrow> uid i \<Longrightarrow> uid by \<Longrightarrow>
      inv (core s') \<and> ((x \<noteq> Ok () \<and> tokens (core s') = tokens (core s)) \<or>
        (\<exists>now. tokens (core s') = revoked_one i by now (tokens (core s))))"
    and family_effect: "rtk_RevokeFamily repo f s = (x, s') \<Longrightarrow> inv (core s) \<Longrightarrow> uid f \<Longrightarrow>
      inv (core s') \<and> ((x \<noteq> Ok () \<and> tokens (core s') = tokens (core s)) \<or>
        (\<exists>now. tokens (core s') = revoked_family f now (tokens (core s))))"
    and store_effect: "rtk_Store repo t s = (x, s') \<Longrightarrow> inv (core s) \<Longrightarrow>
      uid (rr_ID t) \<and> uid (rr_UserID t) \<and> uid (rr_TenantID t) \<and> uid (rr_FamilyID t) \<Longrightarrow>
      rr_RevokedAt t = None \<Longrightarrow> rr_ReplacedBy t = [] \<Longrightarrow>
      inv (core s') \<and> ((x \<noteq> Ok () \<and> tokens (core s') = tokens (core s)) \<or>
        (tokens (core s') = tokens (core s) @ [t] \<and> rr_ID t \<notin> rr_ID ` set (tokens (core s)) \<and>
         rr_TokenHash t \<notin> rr_TokenHash ` set (tokens (core s))))"

locale auth_service = refresh_token_repository "ath_refreshTokens svc" core tokens inv uid
  for svc :: "'s authService" and core :: "'s \<Rightarrow> 'c" and tokens inv uid +
  assumes user_frame: "core (snd (usr_FindByEmail (ath_users svc) tn em s)) = core s"
    and user_uids: "usr_FindByEmail (ath_users svc) tn em s = (Ok u, s') \<Longrightarrow> inv (core s) \<Longrightarrow> uid (u_ID u) \<and> uid (u_TenantID u)"
    and hasher_frame: "core (snd (hsh_Verify (ath_hasher svc) ph pw s)) = core s"
    and roles_frame: "core (snd (rol_ListByUser (ath_userRoles svc) tn us s)) = core s"
    and issue_frame: "core (snd (tok_Issue (ath_tokens svc) cl s)) = core s"
    and now_frame: "core (snd (ath_now svc s)) = core s"
    and rand_frame: "core (snd (ath_rand svc n s)) = core s"
    and rand_length: "ath_rand svc n s = (Some bs, s') \<Longrightarrow> length bs = n"
    and sink_frame: "ath_signals svc = Some emit \<Longrightarrow> core (snd (emit ev s)) = core s"
begin

lemma resolve_frame: "core (snd (resolveRole (ath_userRoles svc) t u s)) = core s"
  unfolding resolveRole_def
  by (rule snd_bindR_invariant [where P = "\<lambda>w. core w = core s"])
    (auto simp: roles_frame dest: arg_cong [where f = "\<lambda>x. core (snd x)"])

lemma emit_frame: "core (snd (EmitSignal (ath_signals svc) sg an t a r s)) = core s"
proof -
  have "core s' = core s" if "ath_signals svc = Some emit" "emit e s = (x, s')" for emit e x s'
    using sink_frame [OF that(1), of e s] that(2) by simp
  then show ?thesis
    by (auto simp: EmitSignal_def emitEvent_def split: option.splits prod.splits res.splits)
qed

lemma newUUIDish_frame: "core (snd (newUUIDish (ath_rand svc) s)) = core s"
  using rand_frame [of 16 s] by (auto simp: newUUIDish_def split: prod.splits option.splits)

lemma new_token_frame: "core (snd (NewRefreshToken (ath_rand svc) (ath_now svc) ttl s)) = core s"
proof -
  obtain b s1 where r: "ath_rand svc 32 s = (b, s1)" by fastforce
  obtain n s2 where n: "ath_now svc s1 = (n, s2)" by fastforce
  have c: "core s2 = core s" using rand_frame [of 32 s] now_frame [of s1] r n by simp
  have step: "core s' = core s2" if "newUUIDish (ath_rand svc) s2 = (x, s')" for x s'
    using newUUIDish_frame [of s2] that by simp
  have "core (snd (bindR (newUUIDish (ath_rand svc) s2) (\<lambda>i s3. bindR (newUUIDish (ath_rand svc) s3) (\<lambda>f s4.
           (Ok (tok i f), s4))))) = core s" for tok :: "string \<Rightarrow> string \<Rightarrow> RefreshToken"
    by (intro snd_bindR_invariant [where P = "\<lambda>w. core w = core s"])
      (auto simp: c newUUIDish_frame dest!: step dest: arg_cong [where f = "\<lambda>x. core (snd x)"])
  with c r n show ?thesis
    by (cases b) (auto simp: NewRefreshToken_def Let_def rand_frame dest: arg_cong [where f = "\<lambda>x. core (snd x)"])
qed

lemma new_token_uids:
  assumes "NewRefreshToken (ath_rand svc) (ath_now svc) ttl s = (Ok rt, s')" "inv (core s)"
  shows "uid (rt_ID rt) \<and> uid (rt_FamilyID rt) \<and> uuid_v4_text (rt_ID rt) \<and> uuid_v4_text (rt_FamilyID rt)"
proof -
  from assms(1) obtain s2 s3 where
    i: "newUUIDish (ath_rand svc) s2 = (Ok (rt_ID rt), s3)" "newUUIDish (ath_rand svc) s3 = (Ok (rt_FamilyID rt), s')"
    by (rule NewRefreshToken_Ok)
  have "uuid_v4_text (rt_ID rt)" by (rule newUUIDish_Ok [OF i(1)]) (auto simp: uuid_string_v4 rand_length)
  moreover have "uuid_v4_text (rt_FamilyID rt)" by (rule newUUIDish_Ok [OF i(2)]) (auto simp: uuid_string_v4 rand_length)
  ultimately show ?thesis using inv_v4 [OF assms(2)] by simp
qed

definition well :: "'s \<Rightarrow> bool" where
  "well s \<longleftrightarrow> inv (core s) \<and> single_live (tokens (core s))"

definition rotated :: "RefreshTokenRecord \<Rightarrow> RefreshToken \<Rightarrow> 's \<Rightarrow> 's \<Rightarrow> bool" where
  "rotated r rt s s' \<longleftrightarrow> (\<exists>now. tokens (core s') =
     revoked_one (rr_ID r) (rt_ID rt) now (tokens (core s)) @
       [token_record rt (rr_UserID r) (rr_TenantID r) (rr_FamilyID r)])"

text \<open>A call that does not touch the store, before a continuation.\<close>

lemma frame_step:
  assumes "core (snd r) = core s" "well s"
    and "\<And>x s'. r = (Ok x, s') \<Longrightarrow> core s' = core s \<Longrightarrow> outcome (f x s') Q well"
  shows "outcome (bindR r f) Q well"
proof (rule outcome_bindR)
  show "outcome r (\<lambda>x s'. r = (Ok x, s') \<and> core s' = core s) well"
    by (rule outcome_mono [OF outcome_frame [OF assms(1)]]) (use assms(2) in \<open>auto simp: well_def\<close>)
qed (use assms(3) in auto)

lemma store_rotated:
  assumes s1: "inv (core s1)" "tokens (core s1) = revoked_one (rr_ID r) (rt_ID rt) now (tokens (core s))"
    and s: "well s" "r \<in> set (tokens (core s))" "live r" "uid (rt_ID rt)"
  shows "outcome (rtk_Store (ath_refreshTokens svc) (token_record rt (rr_UserID r) (rr_TenantID r) (rr_FamilyID r)) s1)
    (\<lambda>_ s'. well s' \<and> rotated r rt s s') well"
proof -
  let ?t = "token_record rt (rr_UserID r) (rr_TenantID r) (rr_FamilyID r)"
  obtain x s' where st: "rtk_Store (ath_refreshTokens svc) ?t s1 = (x, s')" by fastforce
  have u: "uid (rr_ID ?t) \<and> uid (rr_UserID ?t) \<and> uid (rr_TenantID ?t) \<and> uid (rr_FamilyID ?t)"
    using s inv_uids [of "core s" r] by (simp add: token_record_def well_def)
  have sl: "single_live (tokens (core s1))" using s s1 by (simp add: well_def single_live_revoked_one)
  have dead: "dead_family (rr_FamilyID ?t) (tokens (core s1))"
    using dead_revoked_one [of "tokens (core s)" r] s s1 by (simp add: well_def token_record_def)
  from store_effect [OF st s1(1) u] have e: "inv (core s') \<and> ((x \<noteq> Ok () \<and> tokens (core s') = tokens (core s1)) \<or>
        (tokens (core s') = tokens (core s1) @ [?t] \<and> rr_ID ?t \<notin> rr_ID ` set (tokens (core s1)) \<and>
         rr_TokenHash ?t \<notin> rr_TokenHash ` set (tokens (core s1))))"
    by (simp add: token_record_def)
  then show ?thesis
    using single_live_snoc [OF sl dead] sl s1(2) st by (cases x) (auto simp: well_def rotated_def)
qed

lemma revoke_presented:
  assumes "well s" "r \<in> set (tokens (core s))" "uid i"
  shows "outcome (rtk_Revoke (ath_refreshTokens svc) (rr_ID r) i s)
    (\<lambda>_ s'. inv (core s') \<and> (\<exists>now. tokens (core s') = revoked_one (rr_ID r) i now (tokens (core s)))) well"
proof -
  obtain x s' where rv: "rtk_Revoke (ath_refreshTokens svc) (rr_ID r) i s = (x, s')" by fastforce
  from revoke_effect [OF rv] assms inv_uids [of "core s" r] single_live_revoked_one rv show ?thesis
    by (cases x) (auto simp: well_def)
qed

lemma issue_keeps:
  assumes "well s"
  shows "outcome (refresh_issue svc ctx r role rt s)
    (\<lambda>sess s'. core s' = core s \<and> as_RefreshToken sess = rt_Plain rt) well"
  unfolding refresh_issue_def
proof (rule frame_step [OF _ assms], unfold snd_wrapR, rule issue_frame)
  fix access s1 assume c: "core s1 = core s"
  with assms have w: "well s1" by (simp add: well_def)
  show "outcome (bindR (EmitSignal (ath_signals svc) SignalRefreshSuccess False (rr_TenantID r) (rr_UserID r)
              (FromRequestID ctx) s1) (\<lambda>_ s2.
       (Ok (session_of svc access rt (rr_UserID r) (rr_TenantID r)), s2)))
     (\<lambda>sess s'. core s' = core s \<and> as_RefreshToken sess = rt_Plain rt) well"
    by (rule frame_step [OF emit_frame w]) (simp add: c session_of_def)
qed

lemma swap_effect:
  assumes s: "well s" "r \<in> set (tokens (core s))" "live r" "uid (rt_ID rt)"
  shows "outcome (refresh_swap svc ctx r role rt s)
    (\<lambda>sess s'. well s' \<and> rotated r rt s s' \<and> as_RefreshToken sess = rt_Plain rt) well"
  unfolding refresh_swap_def
proof (rule outcome_bindR, unfold outcome_wrapR, rule revoke_presented [OF s(1,2,4)], elim conjE exE,
    rule outcome_bindR, unfold outcome_wrapR, rule store_rotated [OF _ _ s], assumption, assumption, elim conjE)
  fix s2 assume "well s2" "rotated r rt s s2"
  then show "outcome (refresh_issue svc ctx r role rt s2)
      (\<lambda>sess s'. well s' \<and> rotated r rt s s' \<and> as_RefreshToken sess = rt_Plain rt) well"
    by (intro outcome_mono [OF issue_keeps]) (auto simp: well_def rotated_def)
qed

lemma rotate_effect:
  assumes s: "well s" "r \<in> set (tokens (core s))" "live r"
  shows "outcome (refresh_rotate svc ctx r s)
    (\<lambda>sess s'. well s' \<and> (\<exists>rt. rotated r rt s s' \<and> uuid_v4_text (rt_ID rt) \<and>
       as_RefreshToken sess = rt_Plain rt \<and> rt_Hash rt = HashToken (rt_Plain rt))) well"
  (is "outcome _ ?Q well")
  unfolding refresh_rotate_def
proof (rule frame_step [OF _ s(1)], unfold snd_wrapR, rule resolve_frame)
  fix role s1 assume c1: "core s1 = core s"
  with s(1) have w1: "well s1" by (simp add: well_def)
  show "outcome (bindR (wrapR ''generate refresh token''
              (NewRefreshToken (ath_rand svc) (ath_now svc) (ath_refreshTTL svc) s1)) (\<lambda>rt s2.
       refresh_swap svc ctx r role rt s2)) ?Q well"
  proof (rule frame_step [OF _ w1], unfold snd_wrapR wrapR_Ok_iff, rule new_token_frame)
    fix rt s2
    assume rt: "NewRefreshToken (ath_rand svc) (ath_now svc) (ath_refreshTTL svc) s1 = (Ok rt, s2)" and c2: "core s2 = core s1"
    have u: "uid (rt_ID rt)" "uuid_v4_text (rt_ID rt)" using new_token_uids [OF rt] w1 by (simp_all add: well_def)
    have h: "rt_Hash rt = HashToken (rt_Plain rt)" using rt by (rule NewRefreshToken_Ok)
    show "outcome (refresh_swap svc ctx r role rt s2) ?Q well"
      by (rule outcome_mono [OF swap_effect [of s2 r rt]])
        (use s c1 c2 u h in \<open>auto simp: well_def rotated_def\<close>)
  qed
qed

text \<open>A replay: the family is dead when the call returns \<open>ErrUnauthorized\<close>.\<close>

lemma replay_effect:
  assumes s: "well s" "r \<in> set (tokens (core s))"
    and run: "refresh_replay svc ctx r s = (x, s')"
  shows "well s' \<and> (\<nexists>sess. x = Ok sess) \<and> (x = Err ErrUnauthorized \<longrightarrow> dead_family (rr_FamilyID r) (tokens (core s')))"
proof -
  have u: "uid (rr_FamilyID r)" using inv_uids [of "core s" r] s by (simp add: well_def)
  obtain y s1 where rf: "rtk_RevokeFamily (ath_refreshTokens svc) (rr_FamilyID r) s = (y, s1)" by fastforce
  note eff = family_effect [OF rf _ u]
  have w1: "well s1" using eff s single_live_revoked_family by (auto simp: well_def)
  from run rf show ?thesis unfolding refresh_replay_def
  proof (cases rule: bindR_cases)
    case (ok v s1')
    then have y: "y = Ok ()" "s1' = s1" using rf by auto
    with eff s have dead: "dead_family (rr_FamilyID r) (tokens (core s1))"
      by (auto simp: well_def dead_revoked_family)
    from ok(2) y show ?thesis
      using emit_frame [of SignalRefreshReplay False "rr_TenantID r" "rr_UserID r" "FromRequestID ctx" s1] w1 dead
      by (elim bindR_cases) (auto simp: well_def)
  qed (use rf w1 in \<open>auto simp: wrapR_def split: res.splits\<close>)
qed

text \<open>Every presented token, every failure: families keep at most one live token.\<close>

lemma refresh_well:
  assumes "well s" "AuthService_Refresh svc ctx p s = (x, s')"
  shows "well s'"
proof (cases "p = []")
  case True
  with assms show ?thesis by (simp add: AuthService_Refresh_def)
next
  case False
  obtain y s1 where f: "rtk_FindByHash (ath_refreshTokens svc) (HashToken p) s = (y, s1)" by fastforce
  have c1: "core s1 = core s" using find_reads [of "HashToken p" s] f by simp
  obtain now s2 where n: "ath_now svc s1 = (now, s2)" by fastforce
  have c2: "core s2 = core s" using now_frame [of s1] n c1 by simp
  have w: "well s1" "well s2" using assms c1 c2 by (simp_all add: well_def)
  show ?thesis
  proof (cases y)
    case (Ok r)
    with find_Ok f c2 have r: "r \<in> set (tokens (core s2))" by metis
    from assms(2) show ?thesis
      using outcome_any [OF rotate_effect [OF w(2) r], where P = well] replay_effect [OF w(2) r] w(2)
      by (auto simp: AuthService_Refresh_def False f n Ok DecideRotation_def live_def split: if_splits)
  qed (use assms w f False in \<open>auto simp: AuthService_Refresh_def split: if_splits\<close>)
qed

text \<open>What a successful refresh means.\<close>

lemma refresh_Ok:
  assumes "well s" "AuthService_Refresh svc ctx p s = (Ok sess, s')"
  obtains r rt where "r \<in> set (tokens (core s))" "rr_TokenHash r = HashToken p" "live r"
    "rotated r rt s s'" "uuid_v4_text (rt_ID rt)"
    "as_RefreshToken sess = rt_Plain rt" "rt_Hash rt = HashToken (rt_Plain rt)"
proof -
  obtain y s1 where f: "rtk_FindByHash (ath_refreshTokens svc) (HashToken p) s = (y, s1)" by fastforce
  have c1: "core s1 = core s" using find_reads [of "HashToken p" s] f by simp
  obtain now s2 where n: "ath_now svc s1 = (now, s2)" by fastforce
  have c2: "core s2 = core s" using now_frame [of s1] n c1 by simp
  have w: "well s2" using assms c2 by (simp add: well_def)
  from assms(2) f n obtain r where y: "y = Ok r"
    by (cases y) (auto simp: AuthService_Refresh_def split: if_splits)
  have r: "r \<in> set (tokens (core s2))" "rr_TokenHash r = HashToken p" using find_Ok f y c2 by metis+
  from assms(2) have run: "live r \<and> refresh_rotate svc ctx r s2 = (Ok sess, s')"
    using replay_effect [OF w r(1)]
    by (auto simp: AuthService_Refresh_def f n y DecideRotation_def live_def split: if_splits)
  then have lv: "live r" and ro: "refresh_rotate svc ctx r s2 = (Ok sess, s')" by blast+
  from outcome_Ok [OF rotate_effect [OF w r(1) lv] ro] obtain rt where
    "rotated r rt s2 s'" "uuid_v4_text (rt_ID rt)" "as_RefreshToken sess = rt_Plain rt" "rt_Hash rt = HashToken (rt_Plain rt)"
    by blast
  with c2 r lv show ?thesis by (intro that [of r rt]) (simp_all add: rotated_def)
qed

text \<open>A presented token whose record is revoked with a successor noted.\<close>

lemma refresh_stolen:
  assumes w: "well s" and r: "r \<in> set (tokens (core s))" "rr_TokenHash r = HashToken p" "\<not> live r" "rr_ReplacedBy r \<noteq> []"
    and run: "AuthService_Refresh svc ctx p s = (x, s')" "p \<noteq> []"
  shows "(\<nexists>sess. x = Ok sess) \<and> (x = Err ErrUnauthorized \<longrightarrow> dead_family (rr_FamilyID r) (tokens (core s')))"
proof -
  obtain y s1 where f: "rtk_FindByHash (ath_refreshTokens svc) (HashToken p) s = (y, s1)" by fastforce
  have c1: "core s1 = core s" using find_reads [of "HashToken p" s] f by simp
  obtain now s2 where n: "ath_now svc s1 = (now, s2)" by fastforce
  have c2: "core s2 = core s" using now_frame [of s1] n c1 by simp
  have w2: "well s2" "r \<in> set (tokens (core s2))" using w r c2 by (simp_all add: well_def)
  show ?thesis
  proof (cases y)
    case (Err e)
    have "\<not> errors_Is e ErrNotFound" using find_none [of "HashToken p" s e s1] f Err r by force
    with run f Err show ?thesis by (auto simp: AuthService_Refresh_def)
  next
    case (Ok r')
    with find_Ok f have r': "r' \<in> set (tokens (core s))" "rr_TokenHash r' = HashToken p" by metis+
    have "distinct (map rr_TokenHash (tokens (core s)))" using w by (simp add: well_def single_live_def)
    with r r' have "r' = r" by (auto simp: distinct_map inj_on_def)
    with run f Ok n r have "refresh_replay svc ctx r s2 = (x, s')"
      by (simp add: AuthService_Refresh_def DecideRotation_def live_def)
    from replay_effect [OF w2 this] show ?thesis by simp
  qed (use run f in \<open>auto simp: AuthService_Refresh_def\<close>)
qed

text \<open>Rotation followed by a replay of the old token: the replay is refused, and once it is
  answered \<open>ErrUnauthorized\<close> the successor handed out by the rotation is dead too.\<close>

lemma rotate_then_replay:
  assumes w: "well s" and first: "AuthService_Refresh svc ctx p s = (Ok sess, s1)"
    and same: "core s2 = core s1" and second: "AuthService_Refresh svc ctx' p s2 = (x, s3)"
  shows "(\<nexists>sess'. x = Ok sess') \<and>
    (x = Err ErrUnauthorized \<longrightarrow> (\<exists>t \<in> set (tokens (core s1)). live t \<and>
       rr_TokenHash t = HashToken (as_RefreshToken sess) \<and> dead_family (rr_FamilyID t) (tokens (core s3))))"
proof -
  have ne: "p \<noteq> []" using first by (auto simp: AuthService_Refresh_def)
  obtain r rt where r: "r \<in> set (tokens (core s))" "rr_TokenHash r = HashToken p" "live r"
    and rot: "rotated r rt s s1" and v4: "uuid_v4_text (rt_ID rt)"
    and sess: "as_RefreshToken sess = rt_Plain rt" "rt_Hash rt = HashToken (rt_Plain rt)"
    using refresh_Ok [OF w first] by metis
  from rot obtain now where ts: "tokens (core s1) = revoked_one (rr_ID r) (rt_ID rt) now (tokens (core s)) @
      [token_record rt (rr_UserID r) (rr_TenantID r) (rr_FamilyID r)]" by (auto simp: rotated_def)
  let ?r = "r\<lparr>rr_RevokedAt := Some now, rr_ReplacedBy := rt_ID rt\<rparr>"
  let ?t = "token_record rt (rr_UserID r) (rr_TenantID r) (rr_FamilyID r)"
  have "?r \<in> set (tokens (core s1))" using r by (auto simp: ts revoked_one_def)
  moreover have "rt_ID rt \<noteq> []" using v4 by (auto simp: uuid_v4_text_def)
  moreover have "well s2" using refresh_well [OF w first] same by (simp add: well_def)
  ultimately have "(\<nexists>sess'. x = Ok sess') \<and> (x = Err ErrUnauthorized \<longrightarrow> dead_family (rr_FamilyID ?r) (tokens (core s3)))"
    using refresh_stolen [of s2 ?r p ctx' x s3] second same ne r by (simp add: live_def)
  moreover have "?t \<in> set (tokens (core s1))" by (simp add: ts)
  ultimately show ?thesis
    by (auto simp: token_record_def live_def sess intro!: bexI [of _ ?t])
qed

text \<open>\<open>Login\<close> appends at most one token; only for a user who is active and whose password verified.\<close>

definition opened :: "User \<Rightarrow> 's \<Rightarrow> 's \<Rightarrow> bool" where
  "opened u s s' \<longleftrightarrow> inv (core s') \<and> (\<exists>t. tokens (core s') = tokens (core s) @ [t] \<and> live t \<and>
     rr_ID t \<notin> rr_ID ` set (tokens (core s)) \<and> rr_TokenHash t \<notin> rr_TokenHash ` set (tokens (core s)) \<and>
     rr_UserID t = u_ID u \<and> rr_TenantID t = u_TenantID u \<and> uuid_v4_text (rr_FamilyID t))"

definition idle :: "'s \<Rightarrow> 's \<Rightarrow> bool" where
  "idle s s' \<longleftrightarrow> inv (core s') \<and> tokens (core s') = tokens (core s)"

lemma frame_bind:
  assumes "core (snd r) = core s" "\<And>s'. core s' = core s \<Longrightarrow> E s'"
    and "\<And>x s'. r = (Ok x, s') \<Longrightarrow> core s' = core s \<Longrightarrow> outcome (f x s') Q E"
  shows "outcome (bindR r f) Q E"
proof (rule outcome_bindR)
  show "outcome r (\<lambda>x s'. r = (Ok x, s') \<and> core s' = core s) E"
    by (rule outcome_mono [OF outcome_frame [OF assms(1)]]) (use assms(2) in auto)
qed (use assms(3) in auto)

lemma login_store_effect:
  assumes s: "inv (core s)" "uid (u_ID user)" "uid (u_TenantID user)"
    and rt: "uid (rt_ID rt)" "uid (rt_FamilyID rt)" "uuid_v4_text (rt_FamilyID rt)"
  shows "outcome (login_store svc user access rt s) (\<lambda>_ s'. opened user s s') (\<lambda>s'. idle s s' \<or> opened user s s')"
proof -
  let ?t = "token_record rt (u_ID user) (u_TenantID user) (rt_FamilyID rt)"
  obtain x s1 where st: "rtk_Store (ath_refreshTokens svc) ?t s = (x, s1)" by fastforce
  have u: "uid (rr_ID ?t) \<and> uid (rr_UserID ?t) \<and> uid (rr_TenantID ?t) \<and> uid (rr_FamilyID ?t)"
    using s rt by (simp add: token_record_def)
  from store_effect [OF st s(1) u] have e: "(x \<noteq> Ok () \<and> idle s s1) \<or> opened user s s1"
    using rt(3) by (auto simp: token_record_def idle_def opened_def live_def)
  show ?thesis
    unfolding login_store_def
  proof (rule outcome_bindR, unfold outcome_wrapR)
    show "outcome (rtk_Store (ath_refreshTokens svc) ?t s) (\<lambda>_ s'. opened user s s') (\<lambda>s'. idle s s' \<or> opened user s s')"
      using st e by (cases x) auto
    fix s2 assume "opened user s s2"
    then have o: "core s' = core s2 \<Longrightarrow> opened user s s'" for s' by (simp add: opened_def)
    show "outcome (bindR (EmitSignal (ath_signals svc) SignalLoginSuccess False (u_TenantID user) (u_ID user) [] s2)
       (\<lambda>_ s2. (Ok (session_of svc access rt (u_ID user) (u_TenantID user)), s2)))
       (\<lambda>_ s'. opened user s s') (\<lambda>s'. idle s s' \<or> opened user s s')"
      by (rule frame_bind [OF emit_frame]) (simp_all add: o)
  qed
qed

lemma login_issue_effect:
  assumes s: "inv (core s)" "uid (u_ID user)" "uid (u_TenantID user)"
  shows "outcome (login_issue svc user s) (\<lambda>_ s'. opened user s s') (\<lambda>s'. idle s s' \<or> opened user s s')"
    (is "outcome _ ?Q ?E")
proof -
  have i: "?E s'" if "core s' = core s" for s' using that s by (simp add: idle_def)
  have store: "outcome (login_store svc user access rt s3) ?Q ?E"
    if "NewRefreshToken (ath_rand svc) (ath_now svc) (ath_refreshTTL svc) s2 = (Ok rt, s3)"
      "core s2 = core s" "core s3 = core s" for access rt s2 s3
  proof -
    have u: "uid (rt_ID rt)" "uid (rt_FamilyID rt)" "uuid_v4_text (rt_FamilyID rt)"
      using new_token_uids [OF that(1)] that(2) s(1) by simp_all
    have "inv (core s3)" using that(3) s(1) by simp
    from outcome_mono [OF login_store_effect [OF this s(2,3) u, of access], of ?Q ?E] that(3)
    show ?thesis by (simp add: opened_def idle_def)
  qed
  have gen: "outcome (bindR (wrapR ''generate refresh token''
              (NewRefreshToken (ath_rand svc) (ath_now svc) (ath_refreshTTL svc) s2)) (\<lambda>rt s3. login_store svc user access rt s3)) ?Q ?E"
    if c: "core s2 = core s" for s2 access
    by (rule frame_bind, unfold snd_wrapR wrapR_Ok_iff, rule new_token_frame)
      (use c i store in auto)
  have iss: "outcome (bindR (wrapR ''issue access token'' (tok_Issue (ath_tokens svc) cl s1)) (\<lambda>access s2.
      bindR (wrapR ''generate refresh token''
              (NewRefreshToken (ath_rand svc) (ath_now svc) (ath_refreshTTL svc) s2)) (\<lambda>rt s3. login_store svc user access rt s3))) ?Q ?E"
    if c: "core s1 = core s" for s1 cl
    by (rule frame_bind, unfold snd_wrapR wrapR_Ok_iff, rule issue_frame) (use c i gen in auto)
  show ?thesis
    unfolding login_issue_def
    by (rule frame_bind, unfold snd_wrapR wrapR_Ok_iff, rule resolve_frame) (use i iss in auto)
qed

lemma login_effect:
  assumes "AuthService_Login svc t e p s = (x, s')" "inv (core s)"
  shows "idle s s' \<and> (\<nexists>sess. x = Ok sess) \<or>
    (\<exists>u sb sc. usr_FindByEmail (ath_users svc) t e s = (Ok u, sb) \<and> u_IsActive u \<and>
       hsh_Verify (ath_hasher svc) (u_PasswordHash u) p sb = (Ok True, sc) \<and>
       (idle s s' \<and> (\<nexists>sess. x = Ok sess) \<or> opened u s s'))"
proof (cases "t = [] \<or> e = [] \<or> p = []")
  case True
  with assms show ?thesis by (auto simp: AuthService_Login_def idle_def)
next
  case False
  obtain y s1 where f: "usr_FindByEmail (ath_users svc) t e s = (y, s1)" by fastforce
  have c1: "core s1 = core s" using user_frame [of t e s] f by simp
  show ?thesis
  proof (cases "\<exists>u. y = Ok u \<and> u_IsActive u")
    case False
    with assms f c1 \<open>\<not> (t = [] \<or> e = [] \<or> p = [])\<close> show ?thesis
      by (cases y) (auto simp: AuthService_Login_def idle_def)
  next
    case True
    then obtain u where u: "y = Ok u" "u_IsActive u" by blast
    obtain z s2 where h: "hsh_Verify (ath_hasher svc) (u_PasswordHash u) p s1 = (z, s2)" by fastforce
    have c2: "core s2 = core s" using hasher_frame [of "u_PasswordHash u" p s1] h c1 by simp
    have ids: "uid (u_ID u)" "uid (u_TenantID u)" using user_uids f u assms(2) by blast+
    show ?thesis
    proof (cases "z = Ok True")
      case False
      then show ?thesis using assms f u h c2 \<open>\<not> (t = [] \<or> e = [] \<or> p = [])\<close>
        by (cases z) (auto simp: AuthService_Login_def idle_def)
    next
      case True
      then have li: "login_issue svc u s2 = (x, s')"
        using assms f u h \<open>\<not> (t = [] \<or> e = [] \<or> p = [])\<close> by (simp add: AuthService_Login_def)
      have "inv (core s2)" using assms(2) c2 by simp
      from login_issue_effect [OF this ids] li c2
      have "idle s s' \<and> (\<nexists>sess. x = Ok sess) \<or> opened u s s'"
        by (cases x) (auto simp: idle_def opened_def)
      with f u h True show ?thesis by blast
    qed
  qed
qed

end

end
