(* ===== verification/Api_Frames.thy ===== *)
theory Api_Frames
  imports Router Farm_Services User_Service Auth_Service
begin

text \<open>
  What a request can do to the world. \<open>tenant_frame\<close> is the interface between a reflexive and
  transitive relation \<open>K\<close> on worlds and everything a request of tenant \<open>t\<close> runs on: the clock, the
  entropy source, the log and the signal sink take a world only to one related to it. Inside it, a
  service over repositories that keep to \<open>K\<close> keeps to \<open>K\<close>, a handler over such a service too, and so
  does the whole dispatcher for a request whose token names \<open>t\<close>. With \<open>K s s' = (v s' = v s)\<close> this
  says what a request leaves alone; with \<open>K\<close> the steps of an abstract machine, what it may do.
\<close>

locale tenant_frame =
  fixes K :: "'s \<Rightarrow> 's \<Rightarrow> bool" and t :: string and sink :: "'s Sink option" and now :: "'s clock" and rnd :: "'s entropy"
    and lg :: "'s Logger"
  assumes K_refl [simp, intro!]: "K s s"
    and K_trans: "K s s1 \<Longrightarrow> K s1 s2 \<Longrightarrow> K s s2"
    and K_now [simp, intro!]: "K s (snd (now s))"
    and K_rnd [simp, intro!]: "K s (snd (rnd n s))"
    and K_log [simp, intro!]: "K s (lg l s)"
    and K_sink: "sink = Some k \<Longrightarrow> se_TenantID ev = t \<or> se_TenantID ev = [] \<Longrightarrow> K s (snd (k ev s))"
begin

text \<open>A body is followed call by call.\<close>

lemma K_bindR:
  assumes "K s (snd r)" "\<And>x s1. r = (Ok x, s1) \<Longrightarrow> K s1 (snd (f x s1))"
  shows "K s (snd (bindR r f))"
  using assms K_trans by (cases r; cases "fst r") auto

lemma K_pair:
  assumes "K s (snd p)" "\<And>x s1. p = (x, s1) \<Longrightarrow> K s1 (snd (f x s1))"
  shows "K s (snd (case p of (x, s1) \<Rightarrow> f x s1))"
  using assms K_trans by (cases p) auto

lemma K_if: "(b \<Longrightarrow> K s (snd x)) \<Longrightarrow> (\<not> b \<Longrightarrow> K s (snd y)) \<Longrightarrow> K s (snd (if b then x else y))"
  by simp

lemma K_res:
  assumes "\<And>v. x = Ok v \<Longrightarrow> K s (snd (f v))" "\<And>e. x = Err e \<Longrightarrow> K s (snd (g e))" "\<And>p. x = Panic p \<Longrightarrow> K s (snd (h p))"
  shows "K s (snd (case x of Ok v \<Rightarrow> f v | Err e \<Rightarrow> g e | Panic p \<Rightarrow> h p))"
  using assms by (cases x) simp_all

lemma K_option:
  assumes "x = None \<Longrightarrow> K s (snd a)" "\<And>v. x = Some v \<Longrightarrow> K s (snd (f v))"
  shows "K s (snd (case x of None \<Rightarrow> a | Some v \<Rightarrow> f v))"
  using assms by (cases x) simp_all

lemmas K_steps = K_bindR K_pair K_if K_res K_option

lemma K_logs [simp, intro!]: "K s (log_Info lg m as s)" "K s (log_Warn lg m as s)" "K s (log_Error lg m as s)"
  by (simp_all add: log_defs)

lemma K_emit_any:
  assumes "\<And>k ev s. sink = Some k \<Longrightarrow> se_TenantID ev = t' \<Longrightarrow> K s (snd (k ev s))"
  shows "K s (snd (emitEvent sink t' a sg an e r s))"
  using assms by (auto simp: emitEvent_def intro!: K_steps)

lemma K_emitEvent [simp, intro!]: "t' = t \<or> t' = [] \<Longrightarrow> K s (snd (emitEvent sink t' a sg an e r s))"
  by (rule K_emit_any) (auto intro: K_sink)

lemma K_EmitSignal [simp, intro!]: "t' = t \<or> t' = [] \<Longrightarrow> K s (snd (EmitSignal sink sg an t' a r s))"
  by (simp add: EmitSignal_def)

lemma K_uuid [simp, intro!]: "K s (snd (newUUIDish rnd s))"
  unfolding newUUIDish_def by (auto intro!: K_steps)

lemma K_NewID [simp, intro!]: "K s (snd (NewID rnd s))"
  unfolding NewID_def by (auto intro!: K_steps)

section \<open>Services\<close>

text \<open>Lots.\<close>

lemma K_lot_reads:
  assumes "\<And>s. K s (snd (lot_List repo t s))"
  shows "K s (snd (los_ListByTenant (NewLotService repo sink now rnd) t s))"
  using assms by (simp add: NewLotService_def LotService_ListByTenant_def Let_def)

lemma K_lot_writes:
  assumes "\<And>l s. l_TenantID l = t \<Longrightarrow> Lot_IsValid l \<Longrightarrow> K s (snd (lot_Create repo l s))"
  shows "K s (snd (los_Create (NewLotService repo sink now rnd) t a n ar cr s))"
  using assms
  by (auto simp: NewLotService_def LotService_Create_def Let_def Lot_IsValid_def intro!: K_steps)

text \<open>Campaigns.\<close>

lemma K_campaign_reads:
  assumes "\<And>i s. K s (snd (cmp_FindByID repo t i s))" "\<And>s. K s (snd (cmp_List repo t s))"
  shows "K s (snd (cas_List (NewCampaignService repo sink now rnd) t s))"
    and "K s (snd (cas_GetByID (NewCampaignService repo sink now rnd) t i s))"
  using assms by (simp_all add: NewCampaignService_def CampaignService_List_def CampaignService_GetByID_def Let_def)

lemma K_campaign_create:
  assumes "\<And>x s. c_TenantID x = t \<Longrightarrow> Campaign_IsValid x \<Longrightarrow> K s (snd (cmp_Create repo x s))"
  shows "K s (snd (cas_Create (NewCampaignService repo sink now rnd) t a inp s))"
  using assms by (auto simp: NewCampaignService_def CampaignService_Create_def Let_def intro!: K_steps)

lemma K_campaign_update:
  assumes "\<And>x s. c_TenantID x = t \<Longrightarrow> Campaign_IsValid x \<Longrightarrow> K s (snd (cmp_Update repo x s))"
  shows "K s (snd (cas_Update (NewCampaignService repo sink now rnd) t a i inp s))"
  using assms by (auto simp: NewCampaignService_def CampaignService_Update_def Let_def intro!: K_steps)

lemma K_campaign_delete:
  assumes "\<And>i s. K s (snd (cmp_Delete repo t i s))"
  shows "K s (snd (cas_Delete (NewCampaignService repo sink now rnd) t a i s))"
  using assms by (auto simp: NewCampaignService_def CampaignService_Delete_def Let_def intro!: K_steps)

text \<open>Applications.\<close>

lemma application_of_tenant [simp]: "a_TenantID (application_of i t inp c n) = t"
  by (simp add: application_of_def)

lemma K_application_reads:
  assumes "\<And>i s. K s (snd (app_FindByID repo t i s))" "\<And>s. K s (snd (app_List repo t s))"
  shows "K s (snd (aps_List (NewApplicationService repo sink now rnd) t s))"
    and "K s (snd (aps_GetByID (NewApplicationService repo sink now rnd) t i s))"
  using assms by (simp_all add: NewApplicationService_def ApplicationService_List_def ApplicationService_GetByID_def Let_def)

lemma K_application_create:
  assumes "\<And>x s. a_TenantID x = t \<Longrightarrow> Application_IsValid x \<Longrightarrow> K s (snd (app_Create repo x s))"
  shows "K s (snd (aps_Create (NewApplicationService repo sink now rnd) t a inp s))"
  using assms by (auto simp: NewApplicationService_def ApplicationService_Create_def Let_def intro!: K_steps)

lemma K_application_update:
  assumes "\<And>x s. a_TenantID x = t \<Longrightarrow> Application_IsValid x \<Longrightarrow> K s (snd (app_Update repo x s))"
  shows "K s (snd (aps_Update (NewApplicationService repo sink now rnd) t a i inp s))"
  using assms by (auto simp: NewApplicationService_def ApplicationService_Update_def Let_def intro!: K_steps)

lemma K_application_delete:
  assumes "\<And>i s. K s (snd (app_Delete repo t i s))"
  shows "K s (snd (aps_Delete (NewApplicationService repo sink now rnd) t a i s))"
  using assms by (auto simp: NewApplicationService_def ApplicationService_Delete_def Let_def intro!: K_steps)

text \<open>Users. A role is granted to the account just created, and the row an update writes is the row
  it has read but for the name, the flag and the time.\<close>

lemma K_resolveRole:
  assumes "\<And>u s. K s (snd (rol_ListByUser roles t u s))"
  shows "K s (snd (resolveRole roles t u s))"
  using assms by (auto simp: resolveRole_def intro!: K_steps)

lemma K_with_roles:
  assumes "\<And>u s. K s (snd (rol_ListByUser roles t u s))"
  shows "K s (snd (with_roles roles t us s))"
  by (induction us arbitrary: s) (auto intro!: K_steps K_resolveRole [OF assms])

lemma K_user_reads:
  assumes "\<And>s. K s (snd (usr_List repo t s))" "\<And>u s. K s (snd (rol_ListByUser roles t u s))"
  shows "K s (snd (uss_ListUsers (NewUserService repo roles hasher sink now rnd) t s))"
  using assms by (auto simp: NewUserService_def UserService_ListUsers_def Let_def intro!: K_steps K_with_roles)

lemma K_user_create:
  assumes "\<And>u s. u_TenantID u = t \<Longrightarrow> User_IsValid u \<Longrightarrow> K s (snd (usr_Create repo u s))"
    and "\<And>u m s s'. u_TenantID u = t \<Longrightarrow> usr_Create repo u s = (Ok (), s') \<Longrightarrow> ur_UserID m = u_ID u \<Longrightarrow> ur_TenantID m = t \<Longrightarrow>
      K s' (snd (rol_Assign roles m s'))"
    and "\<And>p s. K s (snd (hsh_Hash hasher p s))"
  shows "K s (snd (uss_CreateUser (NewUserService repo roles hasher sink now rnd) t a inp s))"
proof -
  have "K s4 (snd (rol_Assign roles \<lparr>ur_UserID = u_ID u, ur_RoleCode = c, ur_TenantID = t\<rparr> s4))"
    if "usr_Create repo u s3 = (Ok (), s4)" "u_TenantID u = t" for u s3 s4 c
    using assms(2) [OF that(2,1)] by simp
  note grant = this [where u = "\<lparr>u_ID = _, u_TenantID = t, u_Email = _, u_PasswordHash = _, u_FullName = _, u_IsActive = _,
    u_Role = _, u_CreatedAt = _, u_UpdatedAt = _\<rparr>", simplified]
  show ?thesis using assms(1,3)
    by (auto simp: NewUserService_def UserService_CreateUser_def Let_def intro!: K_steps grant)
qed

lemma K_user_update:
  assumes "\<And>i s. K s (snd (usr_FindByID repo t i s))" "\<And>u s. K s (snd (rol_ListByUser roles t u s))"
    and "\<And>i s u s' n s'' fn ac. usr_FindByID repo t i s = (Ok u, s') \<Longrightarrow> now s' = (n, s'') \<Longrightarrow>
      User_IsValid (u\<lparr>u_FullName := fn, u_IsActive := ac, u_UpdatedAt := n\<rparr>) \<Longrightarrow>
      K s'' (snd (usr_Update repo (u\<lparr>u_FullName := fn, u_IsActive := ac, u_UpdatedAt := n\<rparr>) s''))"
  shows "K s (snd (uss_UpdateUser (NewUserService repo roles hasher sink now rnd) t a i upd s))"
  using assms
  by (auto simp: NewUserService_def UserService_UpdateUser_def Let_def intro!: K_steps K_resolveRole)

text \<open>Sessions.\<close>

lemma K_NewRefreshToken: "K s (snd (NewRefreshToken rnd now ttl s))"
  unfolding NewRefreshToken_def Let_def by (auto intro!: K_steps)

end

text \<open>The authentication service emits for the tenant of the user or the token it finds, so its frame
  asks the sink to keep to \<open>K\<close> whatever the tenant.\<close>

locale auth_frame = tenant_frame K t "ath_signals svc" "ath_now svc" "ath_rand svc" lg
  for K :: "'s \<Rightarrow> 's \<Rightarrow> bool" and t :: string and svc :: "'s authService" and lg :: "'s Logger" +
  assumes K_any_sink: "ath_signals svc = Some k \<Longrightarrow> K s (snd (k ev s))"
    and K_find [simp, intro!]: "K s (snd (usr_FindByEmail (ath_users svc) tn em s))"
      "K s (snd (hsh_Verify (ath_hasher svc) h p s))" "K s (snd (rol_ListByUser (ath_userRoles svc) tn u s))"
      "K s (snd (tok_Issue (ath_tokens svc) c s))" "K s (snd (rtk_FindByHash (ath_refreshTokens svc) p s))"
    and K_tokens [simp, intro!]: "rr_RevokedAt tok = None \<Longrightarrow> K s (snd (rtk_Store (ath_refreshTokens svc) tok s))"
      "K s (snd (rtk_Revoke (ath_refreshTokens svc) i j s))" "K s (snd (rtk_RevokeFamily (ath_refreshTokens svc) i s))"
begin

lemma K_EmitAny [simp, intro!]: "K s (snd (EmitSignal (ath_signals svc) sg an t' a r s))"
  unfolding EmitSignal_def by (rule K_emit_any) (rule K_any_sink)

lemma K_role [simp, intro!]: "K s (snd (resolveRole (ath_userRoles svc) tn u s))"
  by (auto simp: resolveRole_def intro!: K_steps)

lemma token_record_live [simp]: "rr_RevokedAt (token_record rt u tn f) = None"
  by (simp add: token_record_def)

lemma K_issue: "K s (snd (login_issue svc u s))"
  by (auto simp: login_issue_def login_store_def intro!: K_steps K_NewRefreshToken)

lemma K_Login: "K s (snd (AuthService_Login svc tn em p s))"
  by (auto simp: AuthService_Login_def intro!: K_steps K_issue)

lemma K_replay: "K s (snd (refresh_replay svc ctx r s))"
  by (auto simp: refresh_replay_def intro!: K_steps)

lemma K_rotate: "K s (snd (refresh_rotate svc ctx r s))"
  by (auto simp: refresh_rotate_def refresh_swap_def refresh_issue_def intro!: K_steps K_NewRefreshToken)

lemma K_Refresh: "K s (snd (AuthService_Refresh svc ctx p s))"
proof -
  have "K s1 (snd (case d of RotationRejectRevoked \<Rightarrow> refresh_replay svc ctx r s1 | RotationRejectExpired \<Rightarrow> (Err ErrUnauthorized, s1)
      | RotationAllow \<Rightarrow> refresh_rotate svc ctx r s1 | RotationRejectInvalid \<Rightarrow> (Err ErrUnauthorized, s1)))" for d r s1
    by (cases d) (simp_all add: K_replay K_rotate)
  then show ?thesis by (auto simp: AuthService_Refresh_def Let_def intro!: K_steps)
qed

end

context tenant_frame
begin

section \<open>Handlers\<close>

lemma K_answer:
  assumes "K s (snd out)" "\<And>e s1. K s1 (snd (bad e s1))"
  shows "K s (snd (answer_with bad good out))"
  using assms K_trans by (cases out; cases "fst out") auto

lemma K_tenant_scoped: "K s (snd (h (TenantIDFrom (rq_Ctx r)) r s)) \<Longrightarrow> K s (snd (tenant_scoped h r s))"
  by (simp add: tenant_scoped_def Let_def)

lemma K_with_body: "(\<And>req. K s (snd (h req r s))) \<Longrightarrow> K s (snd (with_body fs z h r s))"
  by (simp add: with_body_def split: option.splits)

lemma K_error_writers [simp, intro!]:
  "K s (snd (log_and_500 lg op as e s))" "K s (snd (writeCampaignError lg op t' e s))"
  "K s (snd (writeApplicationError lg op t' e s))" "K s (snd (writeUserError lg op t' e s))"
  "K s (snd (writeAuditError lg op t' e s))"
  by (simp_all add: log_and_500_def writeApplicationError_def writeUserError_def writeCampaignError_def writeAuditError_def)

end

text \<open>The call behind an endpoint keeps to \<open>K\<close> when it is made for tenant \<open>t\<close>.\<close>

fun backend_still :: "'s Server \<Rightarrow> ('s \<Rightarrow> 's \<Rightarrow> bool) \<Rightarrow> string \<Rightarrow> endpoint \<Rightarrow> bool" where
  "backend_still srv K t Healthz \<longleftrightarrow> True"
| "backend_still srv K t SpaIndex \<longleftrightarrow> True"
| "backend_still srv K t SpaStatic \<longleftrightarrow> True"
| "backend_still srv K t TenantsList \<longleftrightarrow> (\<forall>s. K s (snd (tnt_List (srv_tenants srv) s)))"
| "backend_still srv K t AuthLogin \<longleftrightarrow> (\<forall>c tn e p s. K s (snd (aus_Login (srv_auth srv) c tn e p s)))"
| "backend_still srv K t AuthRefresh \<longleftrightarrow> (\<forall>c p s. K s (snd (aus_Refresh (srv_auth srv) c p s)))"
| "backend_still srv K t LotsList \<longleftrightarrow> (\<forall>s. K s (snd (los_ListByTenant (srv_lots srv) t s)))"
| "backend_still srv K t LotsCreate \<longleftrightarrow> (\<forall>a n ar cr s. K s (snd (los_Create (srv_lots srv) t a n ar cr s)))"
| "backend_still srv K t CampaignsList \<longleftrightarrow> (\<forall>s. K s (snd (cas_List (srv_campaigns srv) t s)))"
| "backend_still srv K t CampaignsGet \<longleftrightarrow> (\<forall>i s. K s (snd (cas_GetByID (srv_campaigns srv) t i s)))"
| "backend_still srv K t CampaignsCreate \<longleftrightarrow> (\<forall>a inp s. K s (snd (cas_Create (srv_campaigns srv) t a inp s)))"
| "backend_still srv K t CampaignsUpdate \<longleftrightarrow> (\<forall>a i inp s. K s (snd (cas_Update (srv_campaigns srv) t a i inp s)))"
| "backend_still srv K t CampaignsDelete \<longleftrightarrow> (\<forall>a i s. K s (snd (cas_Delete (srv_campaigns srv) t a i s)))"
| "backend_still srv K t ApplicationsList \<longleftrightarrow> (\<forall>s. K s (snd (aps_List (srv_applications srv) t s)))"
| "backend_still srv K t ApplicationsGet \<longleftrightarrow> (\<forall>i s. K s (snd (aps_GetByID (srv_applications srv) t i s)))"
| "backend_still srv K t ApplicationsCreate \<longleftrightarrow> (\<forall>a inp s. K s (snd (aps_Create (srv_applications srv) t a inp s)))"
| "backend_still srv K t ApplicationsUpdate \<longleftrightarrow> (\<forall>a i inp s. K s (snd (aps_Update (srv_applications srv) t a i inp s)))"
| "backend_still srv K t ApplicationsDelete \<longleftrightarrow> (\<forall>a i s. K s (snd (aps_Delete (srv_applications srv) t a i s)))"
| "backend_still srv K t UsersCreate \<longleftrightarrow> (\<forall>a inp s. K s (snd (uss_CreateUser (srv_users srv) t a inp s)))"
| "backend_still srv K t UsersList \<longleftrightarrow> (\<forall>s. K s (snd (uss_ListUsers (srv_users srv) t s)))"
| "backend_still srv K t UsersUpdate \<longleftrightarrow> (\<forall>a i inp s. K s (snd (uss_UpdateUser (srv_users srv) t a i inp s)))"
| "backend_still srv K t AuditLatest \<longleftrightarrow> (\<forall>n s. K s (snd (aud_Latest (srv_audit srv) t n s)))"

lemmas handler_defs = Health_def TenantsHandler_List_def AuthHandler_Login_def AuthHandler_Refresh_def
  LotsHandler_List_def LotsHandler_Create_def CampaignsHandler_List_def CampaignsHandler_GetByID_def
  CampaignsHandler_Create_def CampaignsHandler_Update_def CampaignsHandler_Delete_def ApplicationsHandler_List_def
  ApplicationsHandler_GetByID_def ApplicationsHandler_Create_def ApplicationsHandler_Update_def
  ApplicationsHandler_Delete_def UsersHandler_List_def UsersHandler_Create_def UsersHandler_Update_def
  AuditHandler_Latest_def

definition authenticated :: "access \<Rightarrow> bool" where
  "authenticated acc \<longleftrightarrow> (case acc of Authenticated \<Rightarrow> True | AnyOf rs \<Rightarrow> True | _ \<Rightarrow> False)"

text \<open>The world the dispatcher starts from: the clock has been read and a request id drawn.\<close>

definition accepted :: "'s Server \<Rightarrow> 's \<Rightarrow> 's" where
  "accepted srv s = snd (NewID (srv_rand srv) (snd (srv_now srv s)))"

locale server_frame = tenant_frame K t "srv_signals srv" "srv_now srv" "srv_rand srv" "srv_log srv"
  for K :: "'s \<Rightarrow> 's \<Rightarrow> bool" and t :: string and srv :: "'s Server" +
  assumes K_Verify [simp, intro!]: "K s (snd (tok_Verify (srv_tokens srv) tok s))"
    and K_Allow: "srv_rateLimiter srv = Some allow \<Longrightarrow> K s (snd (allow k n d s))"
begin

lemma K_handler:
  assumes "backend_still srv K t e" "authenticated (access_of e) \<Longrightarrow> TenantIDFrom (rq_Ctx r) = t"
  shows "K s (snd (handler_of srv e r s))"
  using assms
  by (cases e) (auto simp: handler_defs authenticated_def intro!: K_answer K_tenant_scoped K_with_body)

lemma K_limited:
  assumes "\<And>s. K s (snd (h r s))" "TenantIDFrom (rq_Ctx r) = t \<or> TenantIDFrom (rq_Ctx r) = []"
  shows "K s (snd (limited srv n h r s))"
proof -
  have "K s1 (snd (emitRateLimitExceeded srv r s1))" for s1
    using assms(2) by (simp add: emitRateLimitExceeded_def Let_def)
  then show ?thesis using assms(1)
    by (auto simp: limited_def rateLimit_def Let_def intro!: K_steps K_Allow)
qed

lemma K_RequireAuth:
  assumes "\<And>c s1. identity (srv_tokens srv) r s = Some c \<Longrightarrow>
      K s1 (snd (g (r\<lparr>rq_Ctx := WithIdentity (rq_Ctx r) (tc_UserID c) (tc_TenantID c) (tc_Role c)\<rparr>) s1))"
  shows "K s (snd (RequireAuth (srv_tokens srv) g r s))"
proof (cases "identity (srv_tokens srv) r s")
  case (Some c)
  show ?thesis unfolding RequireAuth_identified [OF Some] by (rule K_trans [OF K_Verify assms [OF Some]])
next
  case None
  have "K s s'" if "tok_Verify (srv_tokens srv) tok s = (x, s')" for tok x s'
    using K_Verify [of s tok] that by simp
  with None show ?thesis
    by (cases "bearerToken (rq_Authorization r)") (auto simp: RequireAuth_def identity_def split: prod.splits res.splits if_splits)
qed

text \<open>A request reaches its handler with the identity its token verifies to.\<close>

lemma K_guarded:
  assumes anon: "TenantIDFrom (rq_Ctx r) = []"
    and ident: "\<And>c. identity (srv_tokens srv) r s = Some c \<Longrightarrow> tc_TenantID c = t"
    and h: "\<And>r' s. may_reach acc (identity (srv_tokens srv) r s0) \<Longrightarrow> (authenticated acc \<Longrightarrow> TenantIDFrom (rq_Ctx r') = t) \<Longrightarrow>
      K s (snd (h r' s))"
    and s0: "s0 = s"
  shows "K s (snd (guarded srv acc h r s))"
proof (cases acc)
  case Public
  then show ?thesis using h by (simp add: may_reach_def authenticated_def)
next
  case (PerIP n)
  have "K s (snd (limited srv n h r s))"
    by (rule K_limited) (use h PerIP anon in \<open>simp_all add: may_reach_def authenticated_def\<close>)
  then show ?thesis by (simp add: PerIP)
next
  case Authenticated
  show ?thesis unfolding Authenticated guarded.simps requireAuth_def
  proof (rule K_RequireAuth)
    fix c s1 assume c: "identity (srv_tokens srv) r s = Some c"
    show "K s1 (snd (limited srv 120 h (r\<lparr>rq_Ctx := WithIdentity (rq_Ctx r) (tc_UserID c) (tc_TenantID c) (tc_Role c)\<rparr>) s1))"
      by (rule K_limited) (use h Authenticated c ident s0 in \<open>simp_all add: may_reach_def authenticated_def\<close>)
  qed
next
  case (AnyOf rs)
  show ?thesis unfolding AnyOf guarded.simps requireAuth_def requireRole_def
  proof (rule K_RequireAuth)
    fix c s1 assume c: "identity (srv_tokens srv) r s = Some c"
    have "K s1 (snd (limited srv 120 h (r\<lparr>rq_Ctx := WithIdentity (rq_Ctx r) (tc_UserID c) (tc_TenantID c) (tc_Role c)\<rparr>) s1))"
      if "tc_Role c \<in> set rs"
      by (rule K_limited) (use h AnyOf c ident s0 that in \<open>simp_all add: may_reach_def authenticated_def\<close>)
    then show "K s1 (snd (RequireRole rs (limited srv 120 h) (r\<lparr>rq_Ctx := WithIdentity (rq_Ctx r) (tc_UserID c) (tc_TenantID c) (tc_Role c)\<rparr>) s1))"
      by (simp add: RequireRole_def)
  qed
qed

lemma K_dispatch:
  assumes anon: "TenantIDFrom (rq_Ctx r) = []"
    and ident: "\<And>c. identity (srv_tokens srv) r s = Some c \<Longrightarrow> tc_TenantID c = t"
    and h: "\<And>e vs. lookup_route routes (rq_Method r) (rq_Path r) = Some (access_of e, e, vs) \<Longrightarrow>
      may_reach (access_of e) (identity (srv_tokens srv) r s) \<Longrightarrow> backend_still srv K t e"
  shows "K s (snd (dispatch srv (handler_of srv) r s))"
proof -
  have "K s (snd (guarded srv acc (handler_of srv e) (r\<lparr>rq_PathValue := vs\<rparr>) s))"
    if l: "lookup_route routes (rq_Method r) (rq_Path r) = Some (acc, e, vs)" for acc e vs
  proof (rule K_guarded [OF _ _ _ refl])
    have a: "acc = access_of e" using l lookup_access by blast
    have i: "identity (srv_tokens srv) (r\<lparr>rq_PathValue := vs\<rparr>) s = identity (srv_tokens srv) r s"
      by (simp add: identity_def)
    show "TenantIDFrom (rq_Ctx (r\<lparr>rq_PathValue := vs\<rparr>)) = []" using anon by simp
    show "tc_TenantID c = t" if "identity (srv_tokens srv) (r\<lparr>rq_PathValue := vs\<rparr>) s = Some c" for c
      using that ident i by simp
    show "K s' (snd (handler_of srv e r' s'))"
      if "may_reach acc (identity (srv_tokens srv) (r\<lparr>rq_PathValue := vs\<rparr>) s)"
        "authenticated acc \<Longrightarrow> TenantIDFrom (rq_Ctx r') = t" for r' s'
      by (rule K_handler) (use that h [of e vs] l a i in simp_all)
  qed
  then show ?thesis by (auto simp: dispatch_def Let_def split: option.splits)
qed

lemma K_recover: "K s (snd (next r s)) \<Longrightarrow> K s (snd (recover_panics (srv_log srv) next r s))"
  using K_trans by (auto simp: recover_panics_def split: prod.splits res.splits)

lemma K_Routes:
  assumes "rq_Ctx r = Background"
    and "\<And>c. identity (srv_tokens srv) r (accepted srv s) = Some c \<Longrightarrow> tc_TenantID c = t"
    and "\<And>e vs. lookup_route routes (rq_Method r) (rq_Path r) = Some (access_of e, e, vs) \<Longrightarrow>
      may_reach (access_of e) (identity (srv_tokens srv) r (accepted srv s)) \<Longrightarrow> backend_still srv K t e"
  shows "K s (snd (Routes srv r s))"
proof -
  obtain rid s2 where n: "NewID (srv_rand srv) (snd (srv_now srv s)) = (rid, s2)" by fastforce
  have s2: "accepted srv s = s2" "K s s2" using n K_trans [OF K_now K_NewID, of s] by simp_all (simp_all add: accepted_def)
  let ?r = "r\<lparr>rq_Ctx := WithRequestID (rq_Ctx r) rid\<rparr>"
  have i: "identity (srv_tokens srv) ?r s2 = identity (srv_tokens srv) r s2" by (simp add: identity_def)
  have "K s2 (snd (recover_panics (srv_log srv) (dispatch srv (handler_of srv)) ?r s2))"
    by (rule K_recover, rule K_dispatch) (use assms i s2 in simp_all)
  moreover obtain x s3 where "recover_panics (srv_log srv) (dispatch srv (handler_of srv)) ?r s2 = (x, s3)" by fastforce
  ultimately show ?thesis
    using n s2 K_trans [OF s2(2)] K_trans [OF K_trans [OF s2(2)]] K_trans [OF K_now K_logs(1)]
    by (cases x) (simp_all add: Routes_def logging_def Let_def case_prod_unfold)
qed

end

end
