(* ===== verification/Identity_Repos.thy ===== *)
theory Identity_Repos
  imports Postgres Role_Resolve
begin

text \<open>
  \<^verbatim>\<open>user_repo.go\<close>, \<^verbatim>\<open>user_role_repo.go\<close> and \<^verbatim>\<open>tenant_repo.go\<close> of
  \<^verbatim>\<open>internal/infrastructure/postgres\<close>. A row of \<open>users\<close> never holds a role: \<open>scanUser\<close> leaves
  \<open>Role\<close> at its zero value. \<open>app.roles\<close> holds the five seeded codes. Uniqueness of \<open>users.email\<close>
  and the foreign keys are checked over all tenants, the policy over the bound one. The
  interpretation \<open>roles_pg\<close> discharges the contract of \<open>Role_Resolve\<close>; the last section shows
  that every call is confined to the slice of its tenant and reads nothing else of the policed
  tables.
\<close>

section \<open>Users\<close>

definition user_insert_row :: "PG \<Rightarrow> User \<Rightarrow> time \<Rightarrow> User res" where
  "user_insert_row pg u now =
     bind1 (uuid_param pg (u_ID u)) (\<lambda>i.
     bind1 (uuid_param pg (u_TenantID u)) (\<lambda>t.
     check ''22021'' (list_all (pg_text pg) [u_Email u, u_PasswordHash u, u_FullName u])
       (Ok \<lparr>u_ID = i, u_TenantID = t, u_Email = u_Email u, u_PasswordHash = u_PasswordHash u,
            u_FullName = u_FullName u, u_IsActive = u_IsActive u, u_Role = [],
            u_CreatedAt = now, u_UpdatedAt = now\<rparr>)))"

definition user_insert :: "PG \<Rightarrow> User \<Rightarrow> string option \<Rightarrow> time \<Rightarrow> db \<Rightarrow> unit res \<times> db" where
  "user_insert pg u cur now d = insert_stmt (user_insert_row pg u now)
     (\<lambda>row.
       check ''42501'' (policy cur (u_TenantID row))
       (check ''23505'' (u_ID row \<notin> u_ID ` set (users d))
       (check ''23505'' (u_Email row \<notin> u_Email ` set (users d))
       (check ''23503'' (u_TenantID row \<in> t_ID ` set (tenants d)) (Ok ())))))
     (\<lambda>row d. d\<lparr>users := users d @ [row]\<rparr>) d"

definition user_update :: "PG \<Rightarrow> User \<Rightarrow> string option \<Rightarrow> time \<Rightarrow> db \<Rightarrow> nat res \<times> db" where
  "user_update pg u cur now d =
     (case uuid_param pg (u_ID u) of
        Err e \<Rightarrow> (Err e, d) | Panic p \<Rightarrow> (Panic p, d)
      | Ok i \<Rightarrow>
         (let hit = (\<lambda>r. policy cur (u_TenantID r) \<and> u_ID r = i) in
          (check ''22021'' (list_all (pg_text pg) [u_Email u, u_PasswordHash u, u_FullName u])
            (check ''23505'' (filter hit (users d) = [] \<or>
                u_Email u \<notin> u_Email ` {r \<in> set (users d). \<not> hit r})
              (Ok (length (filter hit (users d))))),
           d\<lparr>users := map (\<lambda>r. if hit r then r\<lparr>u_Email := u_Email u, u_PasswordHash := u_PasswordHash u,
                u_FullName := u_FullName u, u_IsActive := u_IsActive u, u_UpdatedAt := now\<rparr> else r) (users d)\<rparr>)))"

definition UserRepo_FindByEmail :: "PG \<Rightarrow> string \<Rightarrow> string \<Rightarrow> world \<Rightarrow> User res \<times> world" where
  "UserRepo_FindByEmail pg tenantID email = WithTenant tenantID (\<lambda>g w.
     rowR ''query user by email'' (rls_query pg g (\<lambda>cur d.
       check ''22021'' (pg_text pg email)
         (first_row (filter (\<lambda>r. u_Email r = email) (visible u_TenantID cur (users d))))) w))"

definition UserRepo_FindByID :: "PG \<Rightarrow> string \<Rightarrow> string \<Rightarrow> world \<Rightarrow> User res \<times> world" where
  "UserRepo_FindByID pg tenantID i = WithTenant tenantID (\<lambda>g w.
     rowR ''query user by id'' (rls_query pg g (\<lambda>cur d.
       bind1 (uuid_param pg i) (\<lambda>k. first_row (filter (\<lambda>r. u_ID r = k) (visible u_TenantID cur (users d))))) w))"

definition UserRepo_List :: "PG \<Rightarrow> string \<Rightarrow> world \<Rightarrow> User list res \<times> world" where
  "UserRepo_List pg tenantID = WithTenant tenantID (\<lambda>g w.
     wrapR ''list users'' (rls_query pg g (\<lambda>cur d.
       Ok (sort_by (\<lambda>a b. u_CreatedAt a \<le> u_CreatedAt b) (visible u_TenantID cur (users d)))) w))"

definition UserRepo_Create :: "PG \<Rightarrow> User \<Rightarrow> world \<Rightarrow> unit res \<times> world" where
  "UserRepo_Create pg user = WithTenant (u_TenantID user) (\<lambda>g w.
     mapR ''insert user'' (rls_exec pg g (user_insert pg user) w))"

definition UserRepo_Update :: "PG \<Rightarrow> User \<Rightarrow> world \<Rightarrow> unit res \<times> world" where
  "UserRepo_Update pg user = WithTenant (u_TenantID user) (\<lambda>g w.
     affectedR (mapR ''update user'' (rls_exec pg g (user_update pg user) w)))"

definition NewUserRepo :: "PG \<Rightarrow> world UserRepository" where
  "NewUserRepo pg = \<lparr>usr_FindByEmail = UserRepo_FindByEmail pg, usr_FindByID = UserRepo_FindByID pg,
     usr_List = UserRepo_List pg, usr_Create = UserRepo_Create pg, usr_Update = UserRepo_Update pg\<rparr>"

section \<open>Memberships\<close>

definition role_insert :: "PG \<Rightarrow> UserRole \<Rightarrow> string option \<Rightarrow> time \<Rightarrow> db \<Rightarrow> unit res \<times> db" where
  "role_insert pg m cur now d = insert_stmt
     (bind1 (uuid_param pg (ur_UserID m)) (\<lambda>u.
      bind1 (uuid_param pg (ur_TenantID m)) (\<lambda>t.
      check ''22021'' (pg_text pg (ur_RoleCode m))
        (Ok \<lparr>ur_UserID = u, ur_RoleCode = ur_RoleCode m, ur_TenantID = t\<rparr>))))
     (\<lambda>row.
       check ''42501'' (policy cur (ur_TenantID row))
       (check ''23505'' (\<forall>r \<in> set (user_roles d). \<not> (ur_UserID r = ur_UserID row \<and> ur_RoleCode r = ur_RoleCode row))
       (check ''23503'' (ur_UserID row \<in> u_ID ` set (users d))
       (check ''23503'' (IsValidRoleCode (ur_RoleCode row))
       (check ''23503'' (ur_TenantID row \<in> t_ID ` set (tenants d)) (Ok ()))))))
     (\<lambda>row d. d\<lparr>user_roles := user_roles d @ [row]\<rparr>) d"

definition UserRoleRepo_Assign :: "PG \<Rightarrow> UserRole \<Rightarrow> world \<Rightarrow> unit res \<times> world" where
  "UserRoleRepo_Assign pg role = WithTenant (ur_TenantID role) (\<lambda>g w.
     mapR ''insert user role'' (rls_exec pg g (role_insert pg role) w))"

definition UserRoleRepo_ListByUser :: "PG \<Rightarrow> string \<Rightarrow> string \<Rightarrow> world \<Rightarrow> UserRole list res \<times> world" where
  "UserRoleRepo_ListByUser pg tenantID userID = WithTenant tenantID (\<lambda>g w.
     wrapR ''list user roles'' (rls_query pg g (\<lambda>cur d.
       bind1 (uuid_param pg userID) (\<lambda>u.
         Ok (sort_by (\<lambda>a b. pg_le pg (ur_RoleCode a) (ur_RoleCode b))
           (filter (\<lambda>r. ur_UserID r = u) (visible ur_TenantID cur (user_roles d)))))) w))"

definition NewUserRoleRepo :: "PG \<Rightarrow> world UserRoleRepository" where
  "NewUserRoleRepo pg = \<lparr>rol_Assign = UserRoleRepo_Assign pg, rol_ListByUser = UserRoleRepo_ListByUser pg\<rparr>"

section \<open>Tenants\<close>

text \<open>The registry is outside Row-Level Security and its statements run on the pool, each committing
  by itself.\<close>

definition TenantRepo_FindByID :: "PG \<Rightarrow> string \<Rightarrow> world \<Rightarrow> Tenant res \<times> world" where
  "TenantRepo_FindByID pg i w = rowR ''query tenant by id'' (pg_query (\<lambda>d.
     bind1 (uuid_param pg i) (\<lambda>k. first_row (filter (\<lambda>r. t_ID r = k) (tenants d)))) w)"

definition TenantRepo_Create :: "PG \<Rightarrow> Tenant \<Rightarrow> world \<Rightarrow> unit res \<times> world" where
  "TenantRepo_Create pg tenant w = mapR ''insert tenant'' (pg_exec (\<lambda>d. insert_stmt
     (bind1 (uuid_param pg (t_ID tenant)) (\<lambda>i. check ''22021'' (pg_text pg (t_Name tenant))
        (Ok \<lparr>t_ID = i, t_Name = t_Name tenant, t_CreatedAt = pg_ts pg (w_clock w),
             t_UpdatedAt = pg_ts pg (w_clock w)\<rparr>)))
     (\<lambda>row. check ''23505'' (t_ID row \<notin> t_ID ` set (tenants d)) (Ok ()))
     (\<lambda>row d. d\<lparr>tenants := tenants d @ [row]\<rparr>) d) w)"

definition TenantRepo_List :: "PG \<Rightarrow> world \<Rightarrow> Tenant list res \<times> world" where
  "TenantRepo_List pg w = wrapR ''list tenants'' (pg_query (\<lambda>d.
     Ok (sort_by (\<lambda>a b. pg_le pg (t_Name a) (t_Name b)) (tenants d))) w)"

definition NewTenantRepo :: "PG \<Rightarrow> world TenantRepository" where
  "NewTenantRepo pg = \<lparr>tnt_FindByID = TenantRepo_FindByID pg, tnt_Create = TenantRepo_Create pg,
     tnt_List = TenantRepo_List pg\<rparr>"

section \<open>The membership contract\<close>

definition held_codes :: "PG \<Rightarrow> db \<Rightarrow> string \<Rightarrow> string \<Rightarrow> string set" where
  "held_codes pg d t u = {ur_RoleCode r | r. r \<in> set (user_roles d) \<and>
     current_tenant_id pg t = Inr (Some (ur_TenantID r)) \<and> pg_uuid pg u = Some (ur_UserID r)}"

lemma ListByUser_held:
  assumes "UserRoleRepo_ListByUser pg t u w = (Ok ms, w')"
  shows "ur_RoleCode ` set ms = held_codes pg (w_db w) t u"
proof -
  let ?q = "\<lambda>cur d. bind1 (uuid_param pg u) (\<lambda>u.
         Ok (sort_by (\<lambda>a b. pg_le pg (ur_RoleCode a) (ur_RoleCode b))
           (filter (\<lambda>r. ur_UserID r = u) (visible ur_TenantID cur (user_roles d)))))"
  from assms obtain w1 w2 where q: "rls_query pg t ?q w1 = (Ok ms, w2)" and db: "w_db w1 = w_db w"
    unfolding UserRoleRepo_ListByUser_def by (elim WithTenant_Ok) simp
  from rls_query_Ok [OF q] db obtain cur k where
    c: "current_tenant_id pg t = Inr cur" "pg_uuid pg u = Some k"
    "set ms = set (filter (\<lambda>r. ur_UserID r = k) (visible ur_TenantID cur (user_roles (w_db w))))"
    by auto
  then show ?thesis
    by (cases cur) (auto simp: held_codes_def image_iff)
qed

lemma ListByUser_reads: "w_db (snd (UserRoleRepo_ListByUser pg t u w)) = w_db w"
  unfolding UserRoleRepo_ListByUser_def by (rule WithTenant_reads) simp

interpretation roles_pg: user_role_repository "NewUserRoleRepo pg" w_db "held_codes pg" for pg
  by unfold_locales (auto simp: NewUserRoleRepo_def ListByUser_reads ListByUser_held)

end
