(* ===== verification/Farm_Repos.thy ===== *)
theory Farm_Repos
  imports Postgres
begin

text \<open>
  \<^verbatim>\<open>lot_repo.go\<close>, \<^verbatim>\<open>campaign_repo.go\<close> and \<^verbatim>\<open>application_repo.go\<close> of
  \<^verbatim>\<open>internal/infrastructure/postgres\<close>. The primary keys are \<open>(id, tenant_id)\<close>; \<open>lot_id\<close> and
  \<open>campaign_id\<close> of an application are not foreign keys, \<open>operator_id\<close> is one into \<open>users\<close>. A row
  of \<open>applications\<close> stores no operator name: the scalar subselect of \<open>applicationColumns\<close> reads
  it under the same policy, so the operator of another tenant has no name.
\<close>

section \<open>Lots\<close>

definition lot_insert :: "PG \<Rightarrow> Lot \<Rightarrow> string option \<Rightarrow> time \<Rightarrow> db \<Rightarrow> unit res \<times> db" where
  "lot_insert pg l cur now d = insert_stmt
     (bind1 (uuid_param pg (l_ID l)) (\<lambda>i.
      bind1 (uuid_param pg (l_TenantID l)) (\<lambda>t.
      check ''22021'' (list_all (pg_text pg) [l_Name l, l_Crop l])
      (case pg_numeric pg (l_AreaHA l) of
         None \<Rightarrow> Err (PgError ''22003'')
       | Some a \<Rightarrow> Ok \<lparr>l_ID = i, l_TenantID = t, l_Name = l_Name l, l_AreaHA = a, l_Crop = l_Crop l,
            l_CreatedAt = now, l_UpdatedAt = now\<rparr>))))
     (\<lambda>row.
       check ''42501'' (policy cur (l_TenantID row))
       (check ''23505'' (\<forall>r \<in> set (lots d). \<not> (l_ID r = l_ID row \<and> l_TenantID r = l_TenantID row))
       (check ''23503'' (l_TenantID row \<in> t_ID ` set (tenants d)) (Ok ()))))
     (\<lambda>row d. d\<lparr>lots := lots d @ [row]\<rparr>) d"

definition LotRepo_FindByID :: "PG \<Rightarrow> string \<Rightarrow> string \<Rightarrow> world \<Rightarrow> Lot res \<times> world" where
  "LotRepo_FindByID pg tenantID i = WithTenant tenantID (\<lambda>g w.
     rowR ''query lot by id'' (rls_query pg g (\<lambda>cur d.
       bind1 (uuid_param pg i) (\<lambda>k. bind1 (uuid_param pg tenantID) (\<lambda>t.
         first_row (filter (\<lambda>r. l_ID r = k \<and> l_TenantID r = t) (visible l_TenantID cur (lots d)))))) w))"

definition LotRepo_List :: "PG \<Rightarrow> string \<Rightarrow> world \<Rightarrow> Lot list res \<times> world" where
  "LotRepo_List pg tenantID = WithTenant tenantID (\<lambda>g w.
     wrapR ''list lots'' (rls_query pg g (\<lambda>cur d.
       bind1 (uuid_param pg tenantID) (\<lambda>t.
         Ok (sort_by (\<lambda>a b. pg_le pg (l_Name a) (l_Name b))
           (filter (\<lambda>r. l_TenantID r = t) (visible l_TenantID cur (lots d)))))) w))"

definition LotRepo_Create :: "PG \<Rightarrow> Lot \<Rightarrow> world \<Rightarrow> unit res \<times> world" where
  "LotRepo_Create pg lot = WithTenant (l_TenantID lot) (\<lambda>g w.
     mapR ''insert lot'' (rls_exec pg g (lot_insert pg lot) w))"

definition NewLotRepo :: "PG \<Rightarrow> world LotRepository" where
  "NewLotRepo pg = \<lparr>lot_FindByID = LotRepo_FindByID pg, lot_List = LotRepo_List pg,
     lot_Create = LotRepo_Create pg\<rparr>"

section \<open>Campaigns\<close>

definition campaign_insert :: "PG \<Rightarrow> Campaign \<Rightarrow> string option \<Rightarrow> time \<Rightarrow> db \<Rightarrow> unit res \<times> db" where
  "campaign_insert pg c cur now d = insert_stmt
     (bind1 (uuid_param pg (c_ID c)) (\<lambda>i.
      bind1 (uuid_param pg (c_TenantID c)) (\<lambda>t.
      check ''22021'' (list_all (pg_text pg) [c_Name c, c_Season c])
        (Ok \<lparr>c_ID = i, c_TenantID = t, c_Name = c_Name c, c_Season = c_Season c,
             c_StartedAt = map_option (pg_date pg) (c_StartedAt c),
             c_EndedAt = map_option (pg_date pg) (c_EndedAt c),
             c_CreatedAt = now, c_UpdatedAt = now\<rparr>))))
     (\<lambda>row.
       check ''42501'' (policy cur (c_TenantID row))
       (check ''23505'' (\<forall>r \<in> set (campaigns d). \<not> (c_ID r = c_ID row \<and> c_TenantID r = c_TenantID row))
       (check ''23503'' (c_TenantID row \<in> t_ID ` set (tenants d)) (Ok ()))))
     (\<lambda>row d. d\<lparr>campaigns := campaigns d @ [row]\<rparr>) d"

text \<open>\<open>UPDATE\<close> and \<open>DELETE\<close> affect the visible rows with the id and report how many those were.\<close>

definition campaign_update :: "PG \<Rightarrow> Campaign \<Rightarrow> string option \<Rightarrow> time \<Rightarrow> db \<Rightarrow> nat res \<times> db" where
  "campaign_update pg c cur now d =
     (case uuid_param pg (c_ID c) of
        Err e \<Rightarrow> (Err e, d) | Panic p \<Rightarrow> (Panic p, d)
      | Ok i \<Rightarrow>
         (let hit = (\<lambda>r. policy cur (c_TenantID r) \<and> c_ID r = i) in
          (check ''22021'' (list_all (pg_text pg) [c_Name c, c_Season c])
             (Ok (length (filter hit (campaigns d)))),
           d\<lparr>campaigns := map (\<lambda>r. if hit r then r\<lparr>c_Name := c_Name c, c_Season := c_Season c,
                c_StartedAt := map_option (pg_date pg) (c_StartedAt c),
                c_EndedAt := map_option (pg_date pg) (c_EndedAt c), c_UpdatedAt := now\<rparr> else r)
              (campaigns d)\<rparr>)))"

definition campaign_delete :: "PG \<Rightarrow> string \<Rightarrow> string option \<Rightarrow> time \<Rightarrow> db \<Rightarrow> nat res \<times> db" where
  "campaign_delete pg k cur now d =
     (case uuid_param pg k of
        Err e \<Rightarrow> (Err e, d) | Panic p \<Rightarrow> (Panic p, d)
      | Ok i \<Rightarrow>
         (let hit = (\<lambda>r. policy cur (c_TenantID r) \<and> c_ID r = i) in
          (Ok (length (filter hit (campaigns d))),
           d\<lparr>campaigns := filter (\<lambda>r. \<not> hit r) (campaigns d)\<rparr>)))"

definition CampaignRepo_FindByID :: "PG \<Rightarrow> string \<Rightarrow> string \<Rightarrow> world \<Rightarrow> Campaign res \<times> world" where
  "CampaignRepo_FindByID pg tenantID i = WithTenant tenantID (\<lambda>g w.
     rowR ''query campaign by id'' (rls_query pg g (\<lambda>cur d.
       bind1 (uuid_param pg i) (\<lambda>k.
         first_row (filter (\<lambda>r. c_ID r = k) (visible c_TenantID cur (campaigns d))))) w))"

text \<open>\<open>ORDER BY started_at DESC NULLS LAST\<close>\<close>

definition started_desc :: "Campaign \<Rightarrow> Campaign \<Rightarrow> bool" where
  "started_desc a b = (case (c_StartedAt a, c_StartedAt b) of
      (Some x, Some y) \<Rightarrow> y \<le> x
    | (None, Some y) \<Rightarrow> False
    | _ \<Rightarrow> True)"

definition CampaignRepo_List :: "PG \<Rightarrow> string \<Rightarrow> world \<Rightarrow> Campaign list res \<times> world" where
  "CampaignRepo_List pg tenantID = WithTenant tenantID (\<lambda>g w.
     wrapR ''list campaigns'' (rls_query pg g (\<lambda>cur d.
       Ok (sort_by started_desc (visible c_TenantID cur (campaigns d)))) w))"

definition CampaignRepo_Create :: "PG \<Rightarrow> Campaign \<Rightarrow> world \<Rightarrow> unit res \<times> world" where
  "CampaignRepo_Create pg c = WithTenant (c_TenantID c) (\<lambda>g w.
     mapR ''insert campaign'' (rls_exec pg g (campaign_insert pg c) w))"

definition CampaignRepo_Update :: "PG \<Rightarrow> Campaign \<Rightarrow> world \<Rightarrow> unit res \<times> world" where
  "CampaignRepo_Update pg c = WithTenant (c_TenantID c) (\<lambda>g w.
     affectedR (mapR ''update campaign'' (rls_exec pg g (campaign_update pg c) w)))"

definition CampaignRepo_Delete :: "PG \<Rightarrow> string \<Rightarrow> string \<Rightarrow> world \<Rightarrow> unit res \<times> world" where
  "CampaignRepo_Delete pg tenantID i = WithTenant tenantID (\<lambda>g w.
     affectedR (mapR ''delete campaign'' (rls_exec pg g (campaign_delete pg i) w)))"

definition NewCampaignRepo :: "PG \<Rightarrow> world CampaignRepository" where
  "NewCampaignRepo pg = \<lparr>cmp_FindByID = CampaignRepo_FindByID pg, cmp_List = CampaignRepo_List pg,
     cmp_Create = CampaignRepo_Create pg, cmp_Update = CampaignRepo_Update pg,
     cmp_Delete = CampaignRepo_Delete pg\<rparr>"

section \<open>Applications\<close>

definition nullableUUID :: "string \<Rightarrow> string option" where
  "nullableUUID i = (if i = [] then None else Some i)"

text \<open>The row the parameters convert to; a NULL operator is kept as the empty text.\<close>

definition application_row :: "PG \<Rightarrow> Application \<Rightarrow> string \<Rightarrow> string \<Rightarrow> time \<Rightarrow> time \<Rightarrow> Application res" where
  "application_row pg a i t created now =
     bind1 (uuid_param pg (a_LotID a)) (\<lambda>l.
     bind1 (uuid_param pg (a_CampaignID a)) (\<lambda>c.
     bind1 (case nullableUUID (a_OperatorID a) of None \<Rightarrow> Ok [] | Some u \<Rightarrow> uuid_param pg u) (\<lambda>op.
     check ''22021'' (list_all (pg_text pg) [a_ProductName a, a_Dose a, a_Notes a])
       (Ok \<lparr>a_ID = i, a_TenantID = t, a_LotID = l, a_CampaignID = c, a_ProductName = a_ProductName a,
            a_Dose = a_Dose a, a_AppliedAt = pg_ts pg (a_AppliedAt a), a_OperatorID = op,
            a_OperatorName = [], a_Notes = a_Notes a, a_CreatedAt = created, a_UpdatedAt = now\<rparr>))))"

definition operator_exists :: "db \<Rightarrow> Application \<Rightarrow> bool" where
  "operator_exists d row \<longleftrightarrow> a_OperatorID row = [] \<or> a_OperatorID row \<in> u_ID ` set (users d)"

definition application_insert :: "PG \<Rightarrow> Application \<Rightarrow> string option \<Rightarrow> time \<Rightarrow> db \<Rightarrow> unit res \<times> db" where
  "application_insert pg a cur now d = insert_stmt
     (bind1 (uuid_param pg (a_ID a)) (\<lambda>i. bind1 (uuid_param pg (a_TenantID a)) (\<lambda>t.
        application_row pg a i t now now)))
     (\<lambda>row.
       check ''42501'' (policy cur (a_TenantID row))
       (check ''23505'' (\<forall>r \<in> set (applications d). \<not> (a_ID r = a_ID row \<and> a_TenantID r = a_TenantID row))
       (check ''23503'' (a_TenantID row \<in> t_ID ` set (tenants d))
       (check ''23503'' (operator_exists d row) (Ok ())))))
     (\<lambda>row d. d\<lparr>applications := applications d @ [row]\<rparr>) d"

definition application_update :: "PG \<Rightarrow> Application \<Rightarrow> string option \<Rightarrow> time \<Rightarrow> db \<Rightarrow> nat res \<times> db" where
  "application_update pg a cur now d =
     (case bind1 (uuid_param pg (a_ID a)) (\<lambda>i. application_row pg a i [] zero_Time now) of
        Err e \<Rightarrow> (Err e, d) | Panic p \<Rightarrow> (Panic p, d)
      | Ok new \<Rightarrow>
         (let hit = (\<lambda>r. policy cur (a_TenantID r) \<and> a_ID r = a_ID new) in
          (check ''23503'' (filter hit (applications d) = [] \<or> operator_exists d new)
             (Ok (length (filter hit (applications d)))),
           d\<lparr>applications := map (\<lambda>r. if hit r then new\<lparr>a_TenantID := a_TenantID r,
                a_CreatedAt := a_CreatedAt r\<rparr> else r) (applications d)\<rparr>)))"

definition application_delete :: "PG \<Rightarrow> string \<Rightarrow> string option \<Rightarrow> time \<Rightarrow> db \<Rightarrow> nat res \<times> db" where
  "application_delete pg k cur now d =
     (case uuid_param pg k of
        Err e \<Rightarrow> (Err e, d) | Panic p \<Rightarrow> (Panic p, d)
      | Ok i \<Rightarrow>
         (let hit = (\<lambda>r. policy cur (a_TenantID r) \<and> a_ID r = i) in
          (Ok (length (filter hit (applications d))),
           d\<lparr>applications := filter (\<lambda>r. \<not> hit r) (applications d)\<rparr>)))"

definition scan_application :: "string option \<Rightarrow> db \<Rightarrow> Application \<Rightarrow> Application" where
  "scan_application cur d r = r\<lparr>a_OperatorName :=
     (case filter (\<lambda>u. a_OperatorID r \<noteq> [] \<and> u_ID u = a_OperatorID r) (visible u_TenantID cur (users d)) of
        [] \<Rightarrow> [] | u # _ \<Rightarrow> u_FullName u)\<rparr>"

definition ApplicationRepo_FindByID :: "PG \<Rightarrow> string \<Rightarrow> string \<Rightarrow> world \<Rightarrow> Application res \<times> world" where
  "ApplicationRepo_FindByID pg tenantID i = WithTenant tenantID (\<lambda>g w.
     rowR ''query application by id'' (rls_query pg g (\<lambda>cur d.
       bind1 (uuid_param pg i) (\<lambda>k.
         first_row (map (scan_application cur d)
           (filter (\<lambda>r. a_ID r = k) (visible a_TenantID cur (applications d)))))) w))"

definition ApplicationRepo_List :: "PG \<Rightarrow> string \<Rightarrow> world \<Rightarrow> Application list res \<times> world" where
  "ApplicationRepo_List pg tenantID = WithTenant tenantID (\<lambda>g w.
     wrapR ''list applications'' (rls_query pg g (\<lambda>cur d.
       Ok (map (scan_application cur d) (sort_by (\<lambda>a b. a_AppliedAt b \<le> a_AppliedAt a)
         (visible a_TenantID cur (applications d))))) w))"

definition ApplicationRepo_Create :: "PG \<Rightarrow> Application \<Rightarrow> world \<Rightarrow> unit res \<times> world" where
  "ApplicationRepo_Create pg a = WithTenant (a_TenantID a) (\<lambda>g w.
     mapR ''insert application'' (rls_exec pg g (application_insert pg a) w))"

definition ApplicationRepo_Update :: "PG \<Rightarrow> Application \<Rightarrow> world \<Rightarrow> unit res \<times> world" where
  "ApplicationRepo_Update pg a = WithTenant (a_TenantID a) (\<lambda>g w.
     affectedR (mapR ''update application'' (rls_exec pg g (application_update pg a) w)))"

definition ApplicationRepo_Delete :: "PG \<Rightarrow> string \<Rightarrow> string \<Rightarrow> world \<Rightarrow> unit res \<times> world" where
  "ApplicationRepo_Delete pg tenantID i = WithTenant tenantID (\<lambda>g w.
     affectedR (mapR ''delete application'' (rls_exec pg g (application_delete pg i) w)))"

definition NewApplicationRepo :: "PG \<Rightarrow> world ApplicationRepository" where
  "NewApplicationRepo pg = \<lparr>app_FindByID = ApplicationRepo_FindByID pg, app_List = ApplicationRepo_List pg,
     app_Create = ApplicationRepo_Create pg, app_Update = ApplicationRepo_Update pg,
     app_Delete = ApplicationRepo_Delete pg\<rparr>"

end
