(* ===== verification/Isolation.thy ===== *)
theory Isolation
  imports Identity_Repos Farm_Repos Audit_Repo
begin

text \<open>
  Tenant isolation of the PostgreSQL adapters. \<open>write_call\<close> and \<open>read_call\<close> enumerate the calls on
  policed tables the repositories offer, \<open>run_write\<close> and \<open>run_read\<close> execute them. A write of one
  tenant leaves the slice of every other tenant as it was; what a read returns is a function of
  the slice of its tenant, and it changes nothing; without a tenant nothing is read and nothing
  is written.
\<close>

datatype write_call =
    CreateUser User | UpdateUser User | AssignRole UserRole
  | CreateLot Lot
  | CreateCampaign Campaign | UpdateCampaign Campaign | DeleteCampaign string string
  | CreateApplication Application | UpdateApplication Application | DeleteApplication string string
  | AppendAudit AuditEntry

fun write_tenant :: "write_call \<Rightarrow> string" where
  "write_tenant (CreateUser u) = u_TenantID u"
| "write_tenant (UpdateUser u) = u_TenantID u"
| "write_tenant (AssignRole r) = ur_TenantID r"
| "write_tenant (CreateLot l) = l_TenantID l"
| "write_tenant (CreateCampaign c) = c_TenantID c"
| "write_tenant (UpdateCampaign c) = c_TenantID c"
| "write_tenant (DeleteCampaign t i) = t"
| "write_tenant (CreateApplication a) = a_TenantID a"
| "write_tenant (UpdateApplication a) = a_TenantID a"
| "write_tenant (DeleteApplication t i) = t"
| "write_tenant (AppendAudit e) = ae_TenantID e"

fun run_write :: "PG \<Rightarrow> write_call \<Rightarrow> world \<Rightarrow> unit res \<times> world" where
  "run_write pg (CreateUser u) = UserRepo_Create pg u"
| "run_write pg (UpdateUser u) = UserRepo_Update pg u"
| "run_write pg (AssignRole r) = UserRoleRepo_Assign pg r"
| "run_write pg (CreateLot l) = LotRepo_Create pg l"
| "run_write pg (CreateCampaign c) = CampaignRepo_Create pg c"
| "run_write pg (UpdateCampaign c) = CampaignRepo_Update pg c"
| "run_write pg (DeleteCampaign t i) = CampaignRepo_Delete pg t i"
| "run_write pg (CreateApplication a) = ApplicationRepo_Create pg a"
| "run_write pg (UpdateApplication a) = ApplicationRepo_Update pg a"
| "run_write pg (DeleteApplication t i) = ApplicationRepo_Delete pg t i"
| "run_write pg (AppendAudit e) = AuditRepo_Append pg e"

datatype read_call =
    UserByEmail string string | UserByID string string | Users string | Roles string string
  | LotByID string string | Lots string
  | CampaignByID string string | Campaigns string
  | ApplicationByID string string | Applications string
  | AuditTail string | AuditAll string | AuditRecent string int

datatype reply =
    RUser User | RUsers "User list" | RRoles "UserRole list" | RLot Lot | RLots "Lot list"
  | RCampaign Campaign | RCampaigns "Campaign list"
  | RApplication Application | RApplications "Application list"
  | RTail "AuditEntry option" | REntries "AuditEntry option list"

fun read_tenant :: "read_call \<Rightarrow> string" where
  "read_tenant (UserByEmail t x) = t" | "read_tenant (UserByID t x) = t" | "read_tenant (Users t) = t"
| "read_tenant (Roles t x) = t" | "read_tenant (LotByID t x) = t" | "read_tenant (Lots t) = t"
| "read_tenant (CampaignByID t x) = t" | "read_tenant (Campaigns t) = t"
| "read_tenant (ApplicationByID t x) = t" | "read_tenant (Applications t) = t"
| "read_tenant (AuditTail t) = t" | "read_tenant (AuditAll t) = t" | "read_tenant (AuditRecent t n) = t"

definition reply :: "('a \<Rightarrow> reply) \<Rightarrow> 'a res \<times> world \<Rightarrow> reply res \<times> world" where
  "reply f r = bindR r (\<lambda>x w. (Ok (f x), w))"

fun run_read :: "PG \<Rightarrow> read_call \<Rightarrow> world \<Rightarrow> reply res \<times> world" where
  "run_read pg (UserByEmail t x) w = reply RUser (UserRepo_FindByEmail pg t x w)"
| "run_read pg (UserByID t x) w = reply RUser (UserRepo_FindByID pg t x w)"
| "run_read pg (Users t) w = reply RUsers (UserRepo_List pg t w)"
| "run_read pg (Roles t x) w = reply RRoles (UserRoleRepo_ListByUser pg t x w)"
| "run_read pg (LotByID t x) w = reply RLot (LotRepo_FindByID pg t x w)"
| "run_read pg (Lots t) w = reply RLots (LotRepo_List pg t w)"
| "run_read pg (CampaignByID t x) w = reply RCampaign (CampaignRepo_FindByID pg t x w)"
| "run_read pg (Campaigns t) w = reply RCampaigns (CampaignRepo_List pg t w)"
| "run_read pg (ApplicationByID t x) w = reply RApplication (ApplicationRepo_FindByID pg t x w)"
| "run_read pg (Applications t) w = reply RApplications (ApplicationRepo_List pg t w)"
| "run_read pg (AuditTail t) w = reply RTail (AuditRepo_Tail pg t w)"
| "run_read pg (AuditAll t) w = reply REntries (AuditRepo_ListByTenant pg t w)"
| "run_read pg (AuditRecent t n) w = reply REntries (AuditRepo_ListRecent pg t n w)"

lemma snd_reply [simp]: "snd (reply f r) = snd r"
  by (cases r; cases "fst r") (auto simp: reply_def bindR_def)

lemma fst_reply: "fst r = fst r' \<Longrightarrow> fst (reply f r) = fst (reply f r')"
  by (cases r; cases r'; cases "fst r") (auto simp: reply_def bindR_def)

section \<open>Writes\<close>

lemma filter_map_update:
  assumes "\<And>r. P (f r) = P r" "\<And>r. P r \<Longrightarrow> f r = r"
  shows "filter P (map f xs) = filter P xs"
  using assms by (induction xs) auto

lemma filter_unhit:
  "cur \<noteq> Some t \<Longrightarrow> filter (\<lambda>r. (policy cur (f r) \<longrightarrow> Q r) \<and> f r = t) rows = filter (\<lambda>r. f r = t) rows"
  by (rule filter_cong) (auto dest: policy_self)

lemma stmt_slices:
  "user_insert pg u cur now d = (Ok x, d') \<Longrightarrow> cur \<noteq> Some t \<Longrightarrow> tenant_slice t d' = tenant_slice t d"
  "role_insert pg m cur now d = (Ok x, d') \<Longrightarrow> cur \<noteq> Some t \<Longrightarrow> tenant_slice t d' = tenant_slice t d"
  "lot_insert pg l cur now d = (Ok x, d') \<Longrightarrow> cur \<noteq> Some t \<Longrightarrow> tenant_slice t d' = tenant_slice t d"
  "campaign_insert pg c cur now d = (Ok x, d') \<Longrightarrow> cur \<noteq> Some t \<Longrightarrow> tenant_slice t d' = tenant_slice t d"
  "application_insert pg a cur now d = (Ok x, d') \<Longrightarrow> cur \<noteq> Some t \<Longrightarrow> tenant_slice t d' = tenant_slice t d"
  "audit_insert pg e cur now d = (Ok x, d') \<Longrightarrow> cur \<noteq> Some t \<Longrightarrow> tenant_slice t d' = tenant_slice t d"
  unfolding user_insert_def role_insert_def lot_insert_def campaign_insert_def application_insert_def audit_insert_def
    insert_stmt_Ok
  by (auto simp: tenant_slice_def dest!: policy_self)

lemma update_slices:
  "user_update pg u cur now d = (Ok n, d') \<Longrightarrow> cur \<noteq> Some t \<Longrightarrow> tenant_slice t d' = tenant_slice t d"
  "campaign_update pg c cur now d = (Ok n, d') \<Longrightarrow> cur \<noteq> Some t \<Longrightarrow> tenant_slice t d' = tenant_slice t d"
  "application_update pg a cur now d = (Ok n, d') \<Longrightarrow> cur \<noteq> Some t \<Longrightarrow> tenant_slice t d' = tenant_slice t d"
  unfolding user_update_def campaign_update_def application_update_def
  by (auto simp: tenant_slice_def Let_def split: res.splits
      intro!: filter_map_update dest!: policy_self)

lemma delete_slices:
  "campaign_delete pg k cur now d = (Ok n, d') \<Longrightarrow> cur \<noteq> Some t \<Longrightarrow> tenant_slice t d' = tenant_slice t d"
  "application_delete pg k cur now d = (Ok n, d') \<Longrightarrow> cur \<noteq> Some t \<Longrightarrow> tenant_slice t d' = tenant_slice t d"
  unfolding campaign_delete_def application_delete_def
  by (auto simp: tenant_slice_def Let_def filter_unhit split: res.splits)

lemmas write_defs = UserRepo_Create_def UserRepo_Update_def UserRoleRepo_Assign_def LotRepo_Create_def
  CampaignRepo_Create_def CampaignRepo_Update_def CampaignRepo_Delete_def ApplicationRepo_Create_def
  ApplicationRepo_Update_def ApplicationRepo_Delete_def AuditRepo_Append_def

lemma write_bodies:
  "confined pg (\<lambda>g w. mapR m (rls_exec pg g (user_insert pg u) w))"
  "confined pg (\<lambda>g w. affectedR (mapR m (rls_exec pg g (user_update pg u) w)))"
  "confined pg (\<lambda>g w. mapR m (rls_exec pg g (role_insert pg r) w))"
  "confined pg (\<lambda>g w. mapR m (rls_exec pg g (lot_insert pg l) w))"
  "confined pg (\<lambda>g w. mapR m (rls_exec pg g (campaign_insert pg c) w))"
  "confined pg (\<lambda>g w. affectedR (mapR m (rls_exec pg g (campaign_update pg c) w)))"
  "confined pg (\<lambda>g w. affectedR (mapR m (rls_exec pg g (campaign_delete pg i) w)))"
  "confined pg (\<lambda>g w. mapR m (rls_exec pg g (application_insert pg a) w))"
  "confined pg (\<lambda>g w. affectedR (mapR m (rls_exec pg g (application_update pg a) w)))"
  "confined pg (\<lambda>g w. affectedR (mapR m (rls_exec pg g (application_delete pg i) w)))"
  "confined pg (\<lambda>g w. mapR m (rls_exec pg g (audit_insert pg e) w))"
  by (intro confined_affectedR confined_mapR confined_exec; (erule stmt_slices update_slices delete_slices, assumption))+

lemma run_write_slice:
  assumes "current_tenant_id pg (write_tenant c) \<noteq> Inr (Some u)"
  shows "tenant_slice u (w_db (snd (run_write pg c w))) = tenant_slice u (w_db w)"
  using assms by (cases c) (simp_all add: write_defs WithTenant_confined [where pg = pg] write_bodies)

lemma run_write_rollback:
  assumes "run_write pg c w = (r, w')" "r \<noteq> Ok ()" "\<forall>e. LostAck e \<notin> set (w_faults w)"
  shows "w_db w' = w_db w"
proof -
  have r: "\<nexists>x. r = Ok x" using assms(2) by auto
  note rb = WithTenant_rollback [OF _ assms(3) _ r]
  from assms(1) show ?thesis
    by (cases c) (simp_all only: run_write.simps write_defs, (erule rb [rotated], rule consumes_insert consumes_update)+)
qed

text \<open>Without a tenant no statement changes a row.\<close>

lemma tenantless_inserts:
  "user_insert pg u None now d \<noteq> (Ok x, d')" "role_insert pg m None now d \<noteq> (Ok x, d')"
  "lot_insert pg l None now d \<noteq> (Ok x, d')" "campaign_insert pg c None now d \<noteq> (Ok x, d')"
  "application_insert pg a None now d \<noteq> (Ok x, d')" "audit_insert pg e None now d \<noteq> (Ok x, d')"
  by (simp_all add: user_insert_def role_insert_def lot_insert_def campaign_insert_def application_insert_def
      audit_insert_def insert_stmt_Ok)

lemma tenantless_updates:
  "user_update pg u None now d = (Ok n, d') \<Longrightarrow> n = 0"
  "campaign_update pg c None now d = (Ok n, d') \<Longrightarrow> n = 0"
  "application_update pg a None now d = (Ok n, d') \<Longrightarrow> n = 0"
  "campaign_delete pg k None now d = (Ok n, d') \<Longrightarrow> n = 0"
  "application_delete pg k None now d = (Ok n, d') \<Longrightarrow> n = 0"
  by (auto simp: user_update_def campaign_update_def application_update_def campaign_delete_def
      application_delete_def Let_def split: res.splits)

definition never_ok :: "(string \<Rightarrow> world \<Rightarrow> unit res \<times> world) \<Rightarrow> bool" where
  "never_ok fn \<longleftrightarrow> (\<forall>w x w'. fn [] w \<noteq> (Ok x, w'))"

lemma never_ok_insert: "(\<And>now d x d'. q None now d \<noteq> (Ok x, d')) \<Longrightarrow> never_ok (\<lambda>g w. mapR m (rls_exec pg g q w))"
  by (auto simp: never_ok_def dest!: rls_exec_Ok)

lemma never_ok_update:
  "(\<And>now d n d'. q None now d = (Ok n, d') \<Longrightarrow> n = 0) \<Longrightarrow> never_ok (\<lambda>g w. affectedR (mapR m (rls_exec pg g q w)))"
  by (auto simp: never_ok_def affectedR_Ok dest!: rls_exec_Ok)

lemma WithTenant_never_ok:
  assumes "never_ok fn"
  shows "fst (WithTenant [] fn w) \<noteq> Ok x \<and> w_db (snd (WithTenant [] fn w)) = w_db w"
proof -
  obtain r w' where r: "WithTenant [] fn w = (r, w')" by fastforce
  have "r \<noteq> Ok x" using r assms WithTenant_Ok [of "[]" fn w x w'] by (auto simp: never_ok_def)
  with WithTenant_db [OF r] r assms show ?thesis by (auto simp: never_ok_def)
qed

lemma run_write_tenantless:
  assumes "write_tenant c = []"
  shows "fst (run_write pg c w) \<noteq> Ok () \<and> w_db (snd (run_write pg c w)) = w_db w"
  using assms
  by (cases c) (simp_all only: run_write.simps write_tenant.simps write_defs,
    (rule WithTenant_never_ok, rule never_ok_insert never_ok_update, (rule tenantless_inserts | erule tenantless_updates))+)

section \<open>Reads\<close>

lemmas read_defs = UserRepo_FindByEmail_def UserRepo_FindByID_def UserRepo_List_def UserRoleRepo_ListByUser_def
  LotRepo_FindByID_def LotRepo_List_def CampaignRepo_FindByID_def CampaignRepo_List_def
  ApplicationRepo_FindByID_def ApplicationRepo_List_def
  AuditRepo_Tail_def AuditRepo_ListByTenant_def AuditRepo_ListRecent_def

lemma run_read_db: "w_db (snd (run_read pg c w)) = w_db w"
  by (cases c) (simp_all add: read_defs, (rule WithTenant_reads, simp)+)

lemma slice_scan:
  assumes "tenant_slice t d1 = tenant_slice t d2"
  shows "scan_application (Some t) d1 = scan_application (Some t) d2"
proof -
  have "filter (\<lambda>r. u_TenantID r = t) (users d1) = filter (\<lambda>r. u_TenantID r = t) (users d2)"
    using assms by (simp add: tenant_slice_def)
  then show ?thesis by (intro ext) (simp only: scan_application_def visible_Some)
qed

lemma read_bodies:
  "localised pg (\<lambda>g w. rowR m (rls_query pg g (\<lambda>cur d.
       check c b (first_row (filter P (visible u_TenantID cur (users d))))) w))"
  "localised pg (\<lambda>g w. rowR m (rls_query pg g (\<lambda>cur d.
       bind1 r (\<lambda>k. first_row (filter (P' k) (visible u_TenantID cur (users d))))) w))"
  "localised pg (\<lambda>g w. wrapR m (rls_query pg g (\<lambda>cur d. Ok (sort_by le (visible u_TenantID cur (users d)))) w))"
  "localised pg (\<lambda>g w. wrapR m (rls_query pg g (\<lambda>cur d.
       bind1 r (\<lambda>u. Ok (sort_by le' (filter (R u) (visible ur_TenantID cur (user_roles d)))))) w))"
  "localised pg (\<lambda>g w. rowR m (rls_query pg g (\<lambda>cur d.
       bind1 r (\<lambda>k. bind1 r' (\<lambda>t. first_row (filter (L k t) (visible l_TenantID cur (lots d)))))) w))"
  "localised pg (\<lambda>g w. wrapR m (rls_query pg g (\<lambda>cur d.
       bind1 r (\<lambda>t. Ok (sort_by lel (filter (L' t) (visible l_TenantID cur (lots d)))))) w))"
  "localised pg (\<lambda>g w. rowR m (rls_query pg g (\<lambda>cur d.
       bind1 r (\<lambda>k. first_row (filter (C k) (visible c_TenantID cur (campaigns d))))) w))"
  "localised pg (\<lambda>g w. wrapR m (rls_query pg g (\<lambda>cur d. Ok (sort_by lec (visible c_TenantID cur (campaigns d)))) w))"
  "localised pg (\<lambda>g w. rowR m (rls_query pg g (\<lambda>cur d. bind1 r (\<lambda>k.
       first_row (map (scan_application cur d) (filter (A k) (visible a_TenantID cur (applications d)))))) w))"
  "localised pg (\<lambda>g w. wrapR m (rls_query pg g (\<lambda>cur d.
       Ok (map (scan_application cur d) (sort_by lea (visible a_TenantID cur (applications d))))) w))"
  "localised pg (\<lambda>g w. maybeR m (rls_query pg g (\<lambda>cur d.
       bind1 (first_row (sort_by leq (visible r_tenant_id cur (audit_log d)))) F) w))"
  "localised pg (\<lambda>g w. wrapR m (rls_query pg g (\<lambda>cur d.
       Ok (map G (sort_by leq (visible r_tenant_id cur (audit_log d))))) w))"
  "localised pg (\<lambda>g w. wrapR m (rls_query pg g (\<lambda>cur d.
       check c b (Ok (map G (take n (sort_by leq (visible r_tenant_id cur (audit_log d))))))) w))"
  by (intro localised_rowR localised_wrapR localised_maybeR localised_query;
      (frule slice_scan)?; simp add: tenant_slice_def first_row_def)+

lemma run_read_local:
  assumes "\<And>u. current_tenant_id pg (read_tenant c) = Inr (Some u) \<Longrightarrow> tenant_slice u d1 = tenant_slice u d2"
  shows "fst (run_read pg c (w\<lparr>w_db := d1\<rparr>)) = fst (run_read pg c (w\<lparr>w_db := d2\<rparr>))"
  using assms
  by (cases c) (simp_all add: read_defs, (intro fst_reply WithTenant_localised [where pg = pg] read_bodies; simp)+)

text \<open>How many rows an answer shows.\<close>

fun reply_rows :: "reply \<Rightarrow> nat" where
  "reply_rows (RUsers us) = length us" | "reply_rows (RRoles ms) = length ms" | "reply_rows (RLots ls) = length ls"
| "reply_rows (RCampaigns cs) = length cs" | "reply_rows (RApplications as) = length as"
| "reply_rows (RTail t) = (if t = None then 0 else 1)" | "reply_rows (REntries es) = length es"
| "reply_rows (RUser u) = 1" | "reply_rows (RLot l) = 1" | "reply_rows (RCampaign c) = 1" | "reply_rows (RApplication a) = 1"

lemma tenantless_queries:
  "WithTenant [] (\<lambda>g w. rowR m (rls_query pg g q w)) w = (Ok x, w') \<Longrightarrow> \<exists>d. q None d = Ok x"
  "WithTenant [] (\<lambda>g w. wrapR m (rls_query pg g q w)) w = (Ok x, w') \<Longrightarrow> \<exists>d. q None d = Ok x"
  "WithTenant [] (\<lambda>g w. maybeR m (rls_query pg g q w)) w = (Ok y, w') \<Longrightarrow> y = None \<or> (\<exists>d x. y = Some x \<and> q None d = Ok x)"
  by (elim WithTenant_Ok; auto simp: maybeR_Ok dest!: rls_query_Ok split: option.splits)+

lemma reply_Ok: "reply f r = (Ok x, w) \<longleftrightarrow> (\<exists>y. r = (Ok y, w) \<and> x = f y)"
  by (cases r; cases "fst r") (auto simp: reply_def bindR_def)

lemma run_read_tenantless:
  assumes "read_tenant c = []" "run_read pg c w = (Ok rep, w')"
  shows "reply_rows rep = 0"
  using assms
  by (cases c) (auto simp: read_defs reply_Ok dest!: tenantless_queries)

end
