(* ===== verification/Refresh_Store.thy ===== *)
theory Refresh_Store
  imports Postgres Auth_Service
begin

text \<open>
  \<^verbatim>\<open>internal/infrastructure/auth/refresh.go\<close>: the store of refresh tokens over
  \<open>app.refresh_tokens\<close>, which is outside Row-Level Security; every statement runs on the pool and
  commits by itself. \<open>revoked_at\<close> and \<open>expires_at\<close> are only ever read as Unix seconds, which is what a
  row of the model holds. The interpretation \<open>refresh_pg\<close> discharges the contract the
  authentication service is proved against.
\<close>

definition token_insert :: "PG \<Rightarrow> RefreshTokenRecord \<Rightarrow> db \<Rightarrow> unit res \<times> db" where
  "token_insert pg t d = insert_stmt
     (bind1 (uuid_param pg (rr_ID t)) (\<lambda>i. bind1 (uuid_param pg (rr_UserID t)) (\<lambda>u.
      bind1 (uuid_param pg (rr_TenantID t)) (\<lambda>tn. bind1 (uuid_param pg (rr_FamilyID t)) (\<lambda>f.
      check ''22021'' (pg_text pg (rr_TokenHash t))
        (Ok \<lparr>rr_ID = i, rr_UserID = u, rr_TenantID = tn, rr_FamilyID = f, rr_TokenHash = rr_TokenHash t,
             rr_ExpiresAt = rr_ExpiresAt t, rr_RevokedAt = None, rr_ReplacedBy = []\<rparr>))))))
     (\<lambda>row.
       check ''23505'' (rr_ID row \<notin> rr_ID ` set (refresh_tokens d))
       (check ''23505'' (rr_TokenHash row \<notin> rr_TokenHash ` set (refresh_tokens d))
       (check ''23503'' (rr_UserID row \<in> u_ID ` set (users d))
       (check ''23503'' (rr_TenantID row \<in> t_ID ` set (tenants d)) (Ok ())))))
     (\<lambda>row d. d\<lparr>refresh_tokens := refresh_tokens d @ [row]\<rparr>) d"

definition RefreshTokenStore_Store :: "PG \<Rightarrow> RefreshTokenRecord \<Rightarrow> world \<Rightarrow> unit res \<times> world" where
  "RefreshTokenStore_Store pg t w = wrapR ''store refresh token'' (pg_exec (token_insert pg t) w)"

definition RefreshTokenStore_FindByHash :: "PG \<Rightarrow> string \<Rightarrow> world \<Rightarrow> RefreshTokenRecord res \<times> world" where
  "RefreshTokenStore_FindByHash pg h w = rowR ''find refresh token'' (pg_query (\<lambda>d.
     check ''22021'' (pg_text pg h) (first_row (filter (\<lambda>t. rr_TokenHash t = h) (refresh_tokens d)))) w)"

definition RefreshTokenStore_Revoke :: "PG \<Rightarrow> string \<Rightarrow> string \<Rightarrow> world \<Rightarrow> unit res \<times> world" where
  "RefreshTokenStore_Revoke pg i replacedBy w = wrapR ''revoke refresh token'' (pg_exec (\<lambda>d.
     (case bind1 (uuid_param pg i) (\<lambda>k. bind1 (uuid_param pg replacedBy) (\<lambda>r. Ok (k, r))) of
        Err e \<Rightarrow> (Err e, d) | Panic p \<Rightarrow> (Panic p, d)
      | Ok (k, r) \<Rightarrow> (Ok (), d\<lparr>refresh_tokens := map (\<lambda>t. if rr_ID t = k
            then t\<lparr>rr_RevokedAt := Some (Unix (pg_ts pg (w_clock w))), rr_ReplacedBy := r\<rparr> else t)
            (refresh_tokens d)\<rparr>))) w)"

definition RefreshTokenStore_RevokeFamily :: "PG \<Rightarrow> string \<Rightarrow> world \<Rightarrow> unit res \<times> world" where
  "RefreshTokenStore_RevokeFamily pg f w = wrapR ''revoke refresh family'' (pg_exec (\<lambda>d.
     (case uuid_param pg f of
        Err e \<Rightarrow> (Err e, d) | Panic p \<Rightarrow> (Panic p, d)
      | Ok k \<Rightarrow> (Ok (), d\<lparr>refresh_tokens := map (\<lambda>t. if rr_FamilyID t = k \<and> rr_RevokedAt t = None
            then t\<lparr>rr_RevokedAt := Some (Unix (pg_ts pg (w_clock w)))\<rparr> else t)
            (refresh_tokens d)\<rparr>))) w)"

definition NewRefreshTokenStore :: "PG \<Rightarrow> world RefreshTokenRepository" where
  "NewRefreshTokenStore pg = \<lparr>rtk_Store = RefreshTokenStore_Store pg, rtk_FindByHash = RefreshTokenStore_FindByHash pg,
     rtk_Revoke = RefreshTokenStore_Revoke pg, rtk_RevokeFamily = RefreshTokenStore_RevokeFamily pg\<rparr>"

section \<open>The contract\<close>

text \<open>Everything but the audit trail, which the signal sinks write.\<close>

definition business :: "world \<Rightarrow> db" where
  "business w = (w_db w)\<lparr>audit_log := [], audit_serial := 0\<rparr>"

definition canonical_id :: "PG \<Rightarrow> string \<Rightarrow> bool" where
  "canonical_id pg i \<longleftrightarrow> pg_uuid pg i = Some i"

text \<open>Identifiers in the tables are in the form the database prints, which a version 4 UUID in lower
  case is.\<close>

definition ids_canonical :: "PG \<Rightarrow> db \<Rightarrow> bool" where
  "ids_canonical pg d \<longleftrightarrow> (\<forall>i. uuid_v4_text i \<longrightarrow> canonical_id pg i) \<and>
     (\<forall>t \<in> set (refresh_tokens d). canonical_id pg (rr_ID t) \<and> canonical_id pg (rr_UserID t) \<and>
        canonical_id pg (rr_TenantID t) \<and> canonical_id pg (rr_FamilyID t)) \<and>
     (\<forall>u \<in> set (users d). canonical_id pg (u_ID u) \<and> canonical_id pg (u_TenantID u))"

lemma business_tokens [simp]:
  "refresh_tokens (business w) = refresh_tokens (w_db w)" "users (business w) = users (w_db w)"
  by (simp_all add: business_def)

lemma business_cong: "w_db w' = w_db w \<Longrightarrow> business w' = business w"
  by (simp add: business_def)

lemma pg_exec_result:
  "pg_exec q w = (x, w') \<Longrightarrow> (w_db w' = w_db w \<and> (\<nexists>y. x = Ok y)) \<or> (\<exists>y. q (w_db w) = (Ok y, w_db w'))"
  by (auto simp: pg_exec_def roundtrip_db split: prod.splits fault.splits res.splits)

lemma wrapR_result: "wrapR m r = (x, s) \<Longrightarrow> \<exists>y. r = (y, s) \<and> ((\<exists>v. y = Ok v) \<longleftrightarrow> (\<exists>v. x = Ok v))"
  by (cases r; cases "fst r") auto

text \<open>What each statement leaves, whether or not its answer arrives.\<close>

lemma tokens_outcome:
  assumes "(w_db w' = w_db w \<and> (\<nexists>y. x = Ok y)) \<or> w_db w' = (w_db w)\<lparr>refresh_tokens := ts\<rparr>" "ids_canonical pg (business w)"
    and "\<And>t. t \<in> set ts \<Longrightarrow> canonical_id pg (rr_ID t) \<and> canonical_id pg (rr_UserID t) \<and> canonical_id pg (rr_TenantID t) \<and> canonical_id pg (rr_FamilyID t)"
  shows "ids_canonical pg (business w') \<and> ((x \<noteq> Ok () \<and> refresh_tokens (business w') = refresh_tokens (business w)) \<or>
    refresh_tokens (business w') = ts)"
  using assms by (auto simp: ids_canonical_def business_def)

lemma canonical_revoked:
  assumes "ids_canonical pg (business w)"
  shows "t \<in> set (revoked_one i k now (refresh_tokens (w_db w))) \<Longrightarrow> canonical_id pg (rr_ID t) \<and> canonical_id pg (rr_UserID t) \<and> canonical_id pg (rr_TenantID t) \<and> canonical_id pg (rr_FamilyID t)"
    "t \<in> set (revoked_family f now (refresh_tokens (w_db w))) \<Longrightarrow> canonical_id pg (rr_ID t) \<and> canonical_id pg (rr_UserID t) \<and> canonical_id pg (rr_TenantID t) \<and> canonical_id pg (rr_FamilyID t)"
  using assms by (auto simp: ids_canonical_def business_def revoked_one_def revoked_family_def)

lemma Revoke_outcome:
  assumes "RefreshTokenStore_Revoke pg i next_id w = (x, w')" "canonical_id pg i" "canonical_id pg next_id"
  shows "(w_db w' = w_db w \<and> (\<nexists>y. x = Ok y)) \<or>
    w_db w' = (w_db w)\<lparr>refresh_tokens := revoked_one i next_id (Unix (pg_ts pg (w_clock w))) (refresh_tokens (w_db w))\<rparr>"
  using assms by (auto simp: RefreshTokenStore_Revoke_def canonical_id_def uuid_param_def revoked_one_def
      dest!: wrapR_result pg_exec_result)

lemma RevokeFamily_outcome:
  assumes "RefreshTokenStore_RevokeFamily pg f w = (x, w')" "canonical_id pg f"
  shows "(w_db w' = w_db w \<and> (\<nexists>y. x = Ok y)) \<or>
    w_db w' = (w_db w)\<lparr>refresh_tokens := revoked_family f (Unix (pg_ts pg (w_clock w))) (refresh_tokens (w_db w))\<rparr>"
  using assms by (auto simp: RefreshTokenStore_RevokeFamily_def canonical_id_def uuid_param_def revoked_family_def live_def
      dest!: wrapR_result pg_exec_result)

lemma Store_outcome:
  assumes "RefreshTokenStore_Store pg t w = (x, w')"
    and "canonical_id pg (rr_ID t) \<and> canonical_id pg (rr_UserID t) \<and> canonical_id pg (rr_TenantID t) \<and> canonical_id pg (rr_FamilyID t)"
    and "rr_RevokedAt t = None" "rr_ReplacedBy t = []"
  shows "(w_db w' = w_db w \<and> (\<nexists>y. x = Ok y)) \<or>
    (w_db w' = (w_db w)\<lparr>refresh_tokens := refresh_tokens (w_db w) @ [t]\<rparr> \<and> rr_ID t \<notin> rr_ID ` set (refresh_tokens (w_db w)) \<and>
     rr_TokenHash t \<notin> rr_TokenHash ` set (refresh_tokens (w_db w)))"
  using assms by (auto simp: RefreshTokenStore_Store_def canonical_id_def token_insert_def insert_stmt_Ok
      dest!: wrapR_result pg_exec_result)

lemma FindByHash_found:
  assumes "RefreshTokenStore_FindByHash pg h w = (Ok r, w')"
  shows "r \<in> set (refresh_tokens (w_db w)) \<and> rr_TokenHash r = h"
proof -
  from assms have "pg_query (\<lambda>d. check ''22021'' (pg_text pg h)
      (first_row (filter (\<lambda>t. rr_TokenHash t = h) (refresh_tokens d)))) w = (Ok r, w')"
    by (simp add: RefreshTokenStore_FindByHash_def)
  from pg_query_Ok [OF this] have "r \<in> set (filter (\<lambda>t. rr_TokenHash t = h) (refresh_tokens (w_db w)))"
    by (auto intro: hd_in_set simp del: set_filter)
  then show ?thesis by simp
qed

lemma FindByHash_missing:
  assumes "RefreshTokenStore_FindByHash pg h w = (Err er, w')" "errors_Is er ErrNotFound"
  shows "h \<notin> rr_TokenHash ` set (refresh_tokens (w_db w))"
proof -
  let ?q = "\<lambda>d. check ''22021'' (pg_text pg h) (first_row (filter (\<lambda>t. rr_TokenHash t = h) (refresh_tokens d)))"
  from assms obtain e0 where q: "pg_query ?q w = (Err e0, w')"
    and er: "er = (if errors_Is e0 ErrNoRows then ErrNotFound else Errorf ''find refresh token'' e0)"
    by (cases "pg_query ?q w"; cases "fst (pg_query ?q w)")
      (auto simp: RefreshTokenStore_FindByHash_def rowR_def split: if_splits)
  from pg_exec_Err [OF q [unfolded pg_query_def]]
  have "(\<exists>m. e0 = ErrText m) \<or> ?q (w_db w) = Err e0" by auto
  moreover have "e0 = ErrNoRows \<or> e0 = PgError ''22021''" if "?q (w_db w) = Err e0"
    using that by (auto simp: check_def first_row_def split: if_splits list.splits)
  ultimately have "?q (w_db w) = Err ErrNoRows" using assms(2) er by auto
  then show ?thesis by (auto simp: check_def first_row_def filter_empty_conv split: if_splits list.splits)
qed

interpretation refresh_pg: refresh_token_repository "NewRefreshTokenStore pg" business refresh_tokens
  "ids_canonical pg" "canonical_id pg" for pg
proof
  fix h w
  show "business (snd (rtk_FindByHash (NewRefreshTokenStore pg) h w)) = business w"
    by (rule business_cong) (simp add: NewRefreshTokenStore_def RefreshTokenStore_FindByHash_def)
next
  fix i next_id w x w'
  assume r: "rtk_Revoke (NewRefreshTokenStore pg) i next_id w = (x, w')" "ids_canonical pg (business w)"
    and c: "canonical_id pg i" "canonical_id pg next_id"
  from r(1) have "RefreshTokenStore_Revoke pg i next_id w = (x, w')" by (simp add: NewRefreshTokenStore_def)
  from tokens_outcome [OF Revoke_outcome [OF this c] r(2) canonical_revoked(1) [OF r(2)]]
  show "ids_canonical pg (business w') \<and> ((x \<noteq> Ok () \<and> refresh_tokens (business w') = refresh_tokens (business w)) \<or>
        (\<exists>now. refresh_tokens (business w') = revoked_one i next_id now (refresh_tokens (business w))))"
    by auto
next
  fix f w x w'
  assume r: "rtk_RevokeFamily (NewRefreshTokenStore pg) f w = (x, w')" "ids_canonical pg (business w)"
    and c: "canonical_id pg f"
  from r(1) have "RefreshTokenStore_RevokeFamily pg f w = (x, w')" by (simp add: NewRefreshTokenStore_def)
  from tokens_outcome [OF RevokeFamily_outcome [OF this c] r(2) canonical_revoked(2) [OF r(2)]]
  show "ids_canonical pg (business w') \<and> ((x \<noteq> Ok () \<and> refresh_tokens (business w') = refresh_tokens (business w)) \<or>
        (\<exists>now. refresh_tokens (business w') = revoked_family f now (refresh_tokens (business w))))"
    by auto
next
  fix t w x w'
  assume r: "rtk_Store (NewRefreshTokenStore pg) t w = (x, w')" "ids_canonical pg (business w)"
    and c: "canonical_id pg (rr_ID t) \<and> canonical_id pg (rr_UserID t) \<and> canonical_id pg (rr_TenantID t) \<and> canonical_id pg (rr_FamilyID t)"
    and n: "rr_RevokedAt t = None" "rr_ReplacedBy t = []"
  from Store_outcome [OF _ c n] r c
  show "ids_canonical pg (business w') \<and> ((x \<noteq> Ok () \<and> refresh_tokens (business w') = refresh_tokens (business w)) \<or>
        (refresh_tokens (business w') = refresh_tokens (business w) @ [t] \<and> rr_ID t \<notin> rr_ID ` set (refresh_tokens (business w)) \<and>
         rr_TokenHash t \<notin> rr_TokenHash ` set (refresh_tokens (business w))))"
    by (fastforce simp: NewRefreshTokenStore_def ids_canonical_def business_def)
qed (auto simp: ids_canonical_def NewRefreshTokenStore_def dest: FindByHash_found FindByHash_missing)

end
