(* ===== verification/Password.thy ===== *)
theory Password
  imports Ports
begin

text \<open>
  \<^verbatim>\<open>internal/infrastructure/auth/password.go\<close>: Argon2id hashes in PHC format. \<open>argon2.IDKey\<close> is the
  parameter \<open>kdf\<close> (password, salt, time, memory, threads, key length), whose outcome may be a panic; the
  source relies on it returning as many bytes as asked. \<open>strings.Split\<close> and \<open>fmt.Sscanf\<close> are
  modelled: a literal matches itself, \<open>%d\<close> skips blanks, takes a sign and decimal digits within
  \<open>int64\<close>, and input after the last directive is ignored. \<open>Verify_Hash\<close> is the round trip: a hash
  verifies exactly the passwords with the same derived key.
\<close>

type_synonym argon2_IDKey = "string \<Rightarrow> byte list \<Rightarrow> 32 word \<Rightarrow> 32 word \<Rightarrow> 8 word \<Rightarrow> 32 word \<Rightarrow> byte list res"

definition ArgonMemory :: int where "ArgonMemory = 64 * 1024"
definition ArgonTime :: int where "ArgonTime = 1"
definition ArgonThreads :: int where "ArgonThreads = 4"
definition ArgonKeyLen :: nat where "ArgonKeyLen = 32"
definition ArgonSaltLen :: nat where "ArgonSaltLen = 16"
definition argonVersion :: int where "argonVersion = 0x13"

section \<open>Splitting and scanning\<close>

fun strings_Split :: "char \<Rightarrow> string \<Rightarrow> string list" where
  "strings_Split c [] = [[]]"
| "strings_Split c (x # xs) =
     (if x = c then [] # strings_Split c xs
      else case strings_Split c xs of p # ps \<Rightarrow> (x # p) # ps | [] \<Rightarrow> [[x]])"

definition is_digit :: "char \<Rightarrow> bool" where
  "is_digit c \<longleftrightarrow> 48 \<le> (of_char c :: nat) \<and> (of_char c :: nat) \<le> 57"

definition is_blank :: "char \<Rightarrow> bool" where
  "is_blank c \<longleftrightarrow> c \<in> {CHR 0x09, CHR 0x0B, CHR 0x0C, CHR 0x0D, CHR '' ''}"

definition scan_int :: "string \<Rightarrow> (int \<times> string) option" where
  "scan_int s =
     (let s1 = dropWhile is_blank s;
          (neg, s2) = (case s1 of c # r \<Rightarrow> if c = CHR ''-'' then (True, r) else if c = CHR ''+'' then (False, r) else (False, s1)
                       | [] \<Rightarrow> (False, []));
          ds = takeWhile is_digit s2;
          v = (if neg then - int (dec_value ds) else int (dec_value ds)) in
      if ds = [] then None
      else if v < - (2 ^ 63) \<or> 2 ^ 63 \<le> v then None
      else Some (v, dropWhile is_digit s2))"

fun strip_prefix :: "string \<Rightarrow> string \<Rightarrow> string option" where
  "strip_prefix [] s = Some s"
| "strip_prefix (p # ps) [] = None"
| "strip_prefix (p # ps) (c # cs) = (if p = c then strip_prefix ps cs else None)"

text \<open>A format of literals, each followed by \<open>%d\<close>.\<close>

fun Sscanf :: "string list \<Rightarrow> string \<Rightarrow> int list option" where
  "Sscanf [] s = Some []"
| "Sscanf (l # ls) s = (case strip_prefix l s of
      None \<Rightarrow> None
    | Some r \<Rightarrow> (case scan_int r of
          None \<Rightarrow> None
        | Some (i, r') \<Rightarrow> map_option (Cons i) (Sscanf ls r')))"

section \<open>Hash and Verify\<close>

definition phc_string :: "byte list \<Rightarrow> byte list \<Rightarrow> string" where
  "phc_string salt key =
     ''$argon2id$v='' @ FormatInt argonVersion @ ''$m='' @ FormatInt ArgonMemory @ '',t='' @ FormatInt ArgonTime @
     '',p='' @ FormatInt ArgonThreads @ ''$'' @ b64_EncodeToString alpha_std salt @ ''$'' @
     b64_EncodeToString alpha_std key"

definition PasswordHasher_Hash :: "argon2_IDKey \<Rightarrow> 's entropy \<Rightarrow> string \<Rightarrow> 's \<Rightarrow> string res \<times> 's" where
  "PasswordHasher_Hash kdf rnd password s = (case rnd ArgonSaltLen s of
      (None, s1) \<Rightarrow> (Err (Errorf ''hash: crypto/rand'' (ErrText ''entropy'')), s1)
    | (Some salt, s1) \<Rightarrow>
        (bind1 (kdf password salt (word_of_int ArgonTime) (word_of_int ArgonMemory) (word_of_int ArgonThreads)
                    (of_nat ArgonKeyLen)) (\<lambda>key. Ok (phc_string salt key)), s1))"

definition phc_verify :: "argon2_IDKey \<Rightarrow> string \<Rightarrow> string \<Rightarrow> bool res" where
  "phc_verify kdf encoded password =
     (let parts = strings_Split CHR ''$'' encoded in
      if length parts \<noteq> 6 \<or> parts ! 1 \<noteq> ''argon2id'' then Err (ErrText ''verify: not an argon2id PHC string'')
      else if Sscanf [''v=''] (parts ! 2) \<noteq> Some [argonVersion] then Err (ErrText ''verify: unsupported argon2 version'')
      else case Sscanf [''m='', '',t='', '',p=''] (parts ! 3) of
          Some [m, t, p] \<Rightarrow>
           (case b64_DecodeString alpha_std (parts ! 4) of
              None \<Rightarrow> Err (ErrText ''verify: malformed salt'')
            | Some salt \<Rightarrow>
               (case b64_DecodeString alpha_std (parts ! 5) of
                  None \<Rightarrow> Err (ErrText ''verify: malformed hash'')
                | Some want \<Rightarrow>
                    bind1 (kdf password salt (word_of_int t) (word_of_int m) (word_of_int p) (of_nat (length want)))
                      (\<lambda>got. Ok (got = want))))
        | _ \<Rightarrow> Err (ErrText ''verify: malformed parameters''))"

definition PasswordHasher_Verify :: "argon2_IDKey \<Rightarrow> string \<Rightarrow> string \<Rightarrow> 's \<Rightarrow> bool res \<times> 's" where
  "PasswordHasher_Verify kdf encoded password s = (phc_verify kdf encoded password, s)"

definition NewPasswordHasher :: "argon2_IDKey \<Rightarrow> 's entropy \<Rightarrow> 's PasswordHasher" where
  "NewPasswordHasher kdf rnd = \<lparr>hsh_Hash = PasswordHasher_Hash kdf rnd, hsh_Verify = PasswordHasher_Verify kdf\<rparr>"

definition ValidatePhcFormat :: "string \<Rightarrow> int \<times> int \<times> int \<times> bool" where
  "ValidatePhcFormat encoded =
     (let parts = strings_Split CHR ''$'' encoded in
      if length parts \<noteq> 6 \<or> parts ! 1 \<noteq> ''argon2id'' then (0, 0, 0, False)
      else case Sscanf [''m='', '',t='', '',p=''] (parts ! 3) of
          Some [m, t, p] \<Rightarrow> (m, t, p, True)
        | _ \<Rightarrow> (0, 0, 0, False))"

section \<open>The round trip\<close>

lemma strings_Split_last: "c \<notin> set x \<Longrightarrow> strings_Split c x = [x]"
  by (induction x) auto

lemma strings_Split_sep: "c \<notin> set x \<Longrightarrow> strings_Split c (x @ c # r) = x # strings_Split c r"
  by (induction x) auto

lemma no_dollar_std: "CHR ''$'' \<notin> set (b64_EncodeToString alpha_std bs)"
  using b64_encode_chars [OF b64_alphabet_std, of bs] by (auto simp: alpha_std_def)

lemma phc_parts:
  "strings_Split CHR ''$'' (phc_string salt key) =
     [[], ''argon2id'', ''v=19'', ''m=65536,t=1,p=4'', b64_EncodeToString alpha_std salt, b64_EncodeToString alpha_std key]"
proof -
  have ver: "FormatInt argonVersion = ''19''" "FormatInt ArgonMemory = ''65536''" "FormatInt ArgonTime = ''1''"
    "FormatInt ArgonThreads = ''4''"
    by (simp_all add: FormatInt_def argonVersion_def ArgonMemory_def ArgonTime_def ArgonThreads_def dec_digits.simps
        digit_char_def char_of_eq_iff)
  have "strings_Split CHR ''$'' (b64_EncodeToString alpha_std salt @ CHR ''$'' # b64_EncodeToString alpha_std key) =
      [b64_EncodeToString alpha_std salt, b64_EncodeToString alpha_std key]"
    by (simp add: strings_Split_sep strings_Split_last no_dollar_std)
  then show ?thesis by (simp add: phc_string_def ver)
qed

lemma phc_scan:
  "Sscanf [''v=''] ''v=19'' = Some [argonVersion]"
  "Sscanf [''m='', '',t='', '',p=''] ''m=65536,t=1,p=4'' = Some [ArgonMemory, ArgonTime, ArgonThreads]"
  by (simp_all add: scan_int_def is_blank_def is_digit_def dec_value_def argonVersion_def ArgonMemory_def
      ArgonTime_def ArgonThreads_def Let_def)

lemma phc_verify_string:
  "phc_verify kdf (phc_string salt key) password =
     bind1 (kdf password salt (word_of_int ArgonTime) (word_of_int ArgonMemory) (word_of_int ArgonThreads)
        (of_nat (length key))) (\<lambda>got. Ok (got = key))"
  using phc_scan by (simp add: phc_verify_def phc_parts Let_def b64_roundtrip b64_alphabet_std)

lemma ValidatePhcFormat_string: "ValidatePhcFormat (phc_string salt key) = (65536, 1, 4, True)"
  using phc_scan by (simp add: ValidatePhcFormat_def phc_parts ArgonMemory_def ArgonTime_def ArgonThreads_def)

lemma Hash_Ok:
  assumes "PasswordHasher_Hash kdf rnd password s = (Ok h, s')"
  obtains salt key where "rnd ArgonSaltLen s = (Some salt, s')" "h = phc_string salt key"
    "kdf password salt (word_of_int ArgonTime) (word_of_int ArgonMemory) (word_of_int ArgonThreads) (of_nat ArgonKeyLen) = Ok key"
  using assms by (auto simp: PasswordHasher_Hash_def split: prod.splits option.splits)

lemma Verify_Hash:
  assumes "PasswordHasher_Hash kdf rnd password s = (Ok h, s1)"
    and "\<And>pw salt t m p n key. kdf pw salt t m p n = Ok key \<Longrightarrow> length key = unat n"
  shows "\<exists>salt key. kdf password salt 1 65536 4 32 = Ok key \<and>
    (\<forall>other. phc_verify kdf h other = bind1 (kdf other salt 1 65536 4 32) (\<lambda>got. Ok (got = key)))"
proof -
  from assms(1) obtain salt key where h: "h = phc_string salt key"
    and k: "kdf password salt 1 65536 4 32 = Ok key"
    by (rule Hash_Ok) (simp add: ArgonTime_def ArgonMemory_def ArgonThreads_def ArgonKeyLen_def)
  from assms(2) [OF k] have "length key = 32" by simp
  then show ?thesis using k
    by (intro exI [of _ salt] exI [of _ key])
      (simp add: h phc_verify_string ArgonTime_def ArgonMemory_def ArgonThreads_def)
qed

lemma Verify_frame: "snd (PasswordHasher_Verify kdf h pw s) = s"
  by (simp add: PasswordHasher_Verify_def)

end
