(* ===== verification/Jwt.thy ===== *)
theory Jwt
  imports Ports
begin

text \<open>
  \<^verbatim>\<open>internal/infrastructure/auth/jwt.go\<close>. The library golang-jwt is the parameter \<open>JWT\<close>:
  \<open>jwt_sign\<close> is \<open>SignedString\<close> for an algorithm, a key and claims, \<open>jwt_Parse\<close> is \<open>jwt.Parse\<close> with the
  key function and the library's reading of the clock; it yields the claims (\<open>None\<close> when they are
  no \<open>MapClaims\<close>) and the \<open>Valid\<close> flag. What the source relies on is \<open>jwt_laws\<close>: the key function is
  consulted with the algorithm of the token's header and its error fails the parse, and a token that
  was signed parses under its key until it expires.
\<close>

datatype claim = CString string | CNumber int

type_synonym MapClaims = "(string \<times> claim) list"

text \<open>\<open>SigningMethodHS256\<close> is the only method value the source names.\<close>

datatype signing_method = HS256 | OtherMethod string

type_synonym keyfunc = "signing_method \<Rightarrow> string res"

record JWT =
  jwt_sign :: "signing_method \<Rightarrow> string \<Rightarrow> MapClaims \<Rightarrow> string res"
  jwt_Parse :: "string \<Rightarrow> keyfunc \<Rightarrow> time \<Rightarrow> (MapClaims option \<times> bool) res"

record 's tokenManager =
  jm_secret :: string
  jm_ttl :: duration
  jm_now :: "'s clock"

definition NewTokenManager :: "string \<Rightarrow> duration \<Rightarrow> 's clock \<Rightarrow> 's tokenManager res" where
  "NewTokenManager secret ttl clk =
     (if secret = [] then Err (ErrText ''auth: JWT secret must not be empty'')
      else Ok \<lparr>jm_secret = secret, jm_ttl = ttl, jm_now = clk\<rparr>)"

definition claims_map :: "TokenClaims \<Rightarrow> time \<Rightarrow> duration \<Rightarrow> MapClaims" where
  "claims_map c now ttl =
     [(''sub'', CString (tc_UserID c)), (''tenant_id'', CString (tc_TenantID c)), (''role'', CString (tc_Role c)),
      (''iat'', CNumber (Unix now)), (''exp'', CNumber (Unix (Add now ttl)))]"

definition TokenManager_Issue :: "JWT \<Rightarrow> 's tokenManager \<Rightarrow> TokenClaims \<Rightarrow> 's \<Rightarrow> string res \<times> 's" where
  "TokenManager_Issue jw m c s =
     (let (now, s1) = jm_now m s in (jwt_sign jw HS256 (jm_secret m) (claims_map c now (jm_ttl m)), s1))"

definition hs256_only :: "'s tokenManager \<Rightarrow> keyfunc" where
  "hs256_only m alg = (if alg \<noteq> HS256 then Err (ErrText ''auth: unexpected signing method'') else Ok (jm_secret m))"

text \<open>A claim read as a string: \<open>""\<close> when absent or of another type.\<close>

definition claim_string :: "MapClaims \<Rightarrow> string \<Rightarrow> string" where
  "claim_string cs k = (case map_of cs k of Some (CString v) \<Rightarrow> v | _ \<Rightarrow> [])"

definition TokenManager_Verify :: "JWT \<Rightarrow> 's tokenManager \<Rightarrow> 's clock \<Rightarrow> string \<Rightarrow> 's \<Rightarrow> TokenClaims res \<times> 's" where
  "TokenManager_Verify jw m libclk tokenString s =
     (let (now, s1) = libclk s in
      case jwt_Parse jw tokenString (hs256_only m) now of
        Panic p \<Rightarrow> (Panic p, s1)
      | Err e \<Rightarrow> (Err ErrUnauthorized, s1)
      | Ok (None, valid) \<Rightarrow> (Err ErrUnauthorized, s1)
      | Ok (Some claims, valid) \<Rightarrow>
          if \<not> valid then (Err ErrUnauthorized, s1)
          else (let sub = claim_string claims ''sub''; tenantID = claim_string claims ''tenant_id'';
                    role = claim_string claims ''role'' in
                if sub = [] \<or> tenantID = [] then (Err ErrUnauthorized, s1)
                else (Ok \<lparr>tc_UserID = sub, tc_TenantID = tenantID, tc_Role = role\<rparr>, s1)))"

definition jwt_manager :: "JWT \<Rightarrow> 's tokenManager \<Rightarrow> 's clock \<Rightarrow> 's TokenManager" where
  "jwt_manager jw m libclk = \<lparr>tok_Issue = TokenManager_Issue jw m, tok_Verify = TokenManager_Verify jw m libclk\<rparr>"

section \<open>Facts\<close>

text \<open>The documented behaviour of the library. \<open>header t\<close> is the algorithm named in the header of \<open>t\<close>.\<close>

definition jwt_laws :: "JWT \<Rightarrow> (string \<Rightarrow> signing_method) \<Rightarrow> bool" where
  "jwt_laws jw header \<longleftrightarrow>
     (\<forall>t kf now e. kf (header t) = Err e \<longrightarrow> (\<exists>e'. jwt_Parse jw t kf now = Err e')) \<and>
     (\<forall>alg key cs t kf now x. jwt_sign jw alg key cs = Ok t \<longrightarrow> kf alg = Ok key \<longrightarrow>
        map_of cs ''exp'' = Some (CNumber x) \<longrightarrow> now < x * Second \<longrightarrow> jwt_Parse jw t kf now = Ok (Some cs, True))"

lemma claim_string_claims_map:
  "claim_string (claims_map c now ttl) ''sub'' = tc_UserID c"
  "claim_string (claims_map c now ttl) ''tenant_id'' = tc_TenantID c"
  "claim_string (claims_map c now ttl) ''role'' = tc_Role c"
  by (simp_all add: claim_string_def claims_map_def)

lemma Verify_Issue:
  assumes laws: "jwt_laws jw header"
    and iss: "TokenManager_Issue jw m c s = (Ok t, s')" "jm_now m s = (now, s1)"
    and ids: "tc_UserID c \<noteq> []" "tc_TenantID c \<noteq> []"
    and clk: "libclk w = (later, w1)" "later < Unix (Add now (jm_ttl m)) * Second"
  shows "TokenManager_Verify jw m libclk t w = (Ok c, w1)"
proof -
  have "jwt_sign jw HS256 (jm_secret m) (claims_map c now (jm_ttl m)) = Ok t"
    using iss by (simp add: TokenManager_Issue_def)
  moreover have "hs256_only m HS256 = Ok (jm_secret m)" by (simp add: hs256_only_def)
  moreover have "map_of (claims_map c now (jm_ttl m)) ''exp'' = Some (CNumber (Unix (Add now (jm_ttl m))))"
    by (simp add: claims_map_def)
  ultimately have "jwt_Parse jw t (hs256_only m) later = Ok (Some (claims_map c now (jm_ttl m)), True)"
    using laws clk(2) unfolding jwt_laws_def by blast
  then show ?thesis
    using clk(1) ids by (simp add: TokenManager_Verify_def claim_string_claims_map)
qed

lemma Verify_other_method:
  assumes "jwt_laws jw header" "header t \<noteq> HS256"
  shows "fst (TokenManager_Verify jw m libclk t w) = Err ErrUnauthorized"
proof -
  obtain now w1 where c: "libclk w = (now, w1)" by fastforce
  have "hs256_only m (header t) = Err (ErrText ''auth: unexpected signing method'')"
    using assms(2) by (simp add: hs256_only_def)
  with assms(1) obtain e where "jwt_Parse jw t (hs256_only m) now = Err e" unfolding jwt_laws_def by blast
  with c show ?thesis by (simp add: TokenManager_Verify_def)
qed

text \<open>Whatever the library answers, accepted claims name a user and a tenant.\<close>

lemma Verify_Ok_identified:
  "TokenManager_Verify jw m libclk t w = (Ok c, w') \<Longrightarrow> tc_UserID c \<noteq> [] \<and> tc_TenantID c \<noteq> []"
  by (auto simp: TokenManager_Verify_def Let_def split: prod.splits res.splits option.splits if_splits)

lemma Verify_errors:
  "TokenManager_Verify jw m libclk t w = (Err e, w') \<Longrightarrow> e = ErrUnauthorized"
  by (auto simp: TokenManager_Verify_def Let_def split: prod.splits res.splits option.splits if_splits)

end
