(* ===== verification/Wiring.thy ===== *)
theory Wiring
  imports Isolation Refresh_Store Password Jwt
begin

text \<open>
  The composition root, \<open>run\<close> in \<^verbatim>\<open>cmd/api/main.go\<close>: every port bound to its adapter on the shared
  world. \<open>libs\<close> collects what is not part of the repository: PostgreSQL and pgx, \<open>encoding/json\<close>,
  Argon2 and golang-jwt. The interpretations give the services' contracts for this
  wiring: the fan-out of the two sinks is fail-open and never touches a business table, and the
  authentication service runs on the real stores.
\<close>

record libs =
  lib_pg :: PG
  lib_json :: json_norm
  lib_kdf :: argon2_IDKey
  lib_jwt :: JWT

definition accessTokenTTL :: duration where "accessTokenTTL = 15 * Minute"
definition refreshTokenTTL :: duration where "refreshTokenTTL = 30 * 24 * 60 * Minute"

definition api_audit :: "libs \<Rightarrow> world AuditService" where
  "api_audit l = NewAuditService (lib_json l) (NewAuditRepo (lib_pg l)) world_log world_now"

definition api_signals :: "libs \<Rightarrow> world Sink" where
  "api_signals l = NewFanOut (Some world_log)
     [Some (''*services.SlogSink'', NewSlogSink (Some world_log)),
      Some (''*services.AuditSink'', NewAuditSink (Some (api_audit l)) (Some world_log))]"

lemma api_signals_eq:
  "api_signals l = fanOut_Emit world_log
     [Some (''*services.SlogSink'', SlogSink_Emit world_log),
      Some (''*services.AuditSink'', AuditSink_Emit (Some (api_audit l)) world_log)]"
  by (simp add: api_signals_def NewFanOut_def NewSlogSink_def NewAuditSink_def or_discard_def)

definition api_tokenManager :: "libs \<Rightarrow> string \<Rightarrow> world TokenManager" where
  "api_tokenManager l secret = jwt_manager (lib_jwt l)
     \<lparr>jm_secret = secret, jm_ttl = accessTokenTTL, jm_now = world_now\<rparr> world_now"

definition api_auth :: "libs \<Rightarrow> string \<Rightarrow> world authService" where
  "api_auth l secret =
     \<lparr>ath_users = NewUserRepo (lib_pg l), ath_tokens = api_tokenManager l secret,
      ath_hasher = NewPasswordHasher (lib_kdf l) world_rand, ath_userRoles = NewUserRoleRepo (lib_pg l),
      ath_refreshTokens = NewRefreshTokenStore (lib_pg l), ath_signals = Some (api_signals l),
      ath_accessTTL = accessTokenTTL, ath_refreshTTL = refreshTokenTTL, ath_now = world_now, ath_rand = world_rand\<rparr>"

section \<open>The sinks\<close>

lemma audit_insert_business:
  "audit_insert pg e cur now d = (Ok u, d') \<Longrightarrow> d'\<lparr>audit_log := [], audit_serial := 0\<rparr> = d\<lparr>audit_log := [], audit_serial := 0\<rparr>"
  by (auto simp: audit_insert_def insert_stmt_Ok)

lemma Append_business: "business (snd (AuditRepo_Append pg e w)) = business w"
proof -
  obtain r w' where ap: "AuditRepo_Append pg e w = (r, w')" by fastforce
  from append_db [OF ap] ap show ?thesis
    by (auto simp: business_def dest!: audit_insert_business)
qed

lemma business_log [simp]: "business (world_log l w) = business w"
  by (simp add: business_def)

lemma business_now [simp]: "business (snd (world_now w)) = business w"
  by (simp add: business_def)

lemma business_rand [simp]: "business (snd (world_rand n w)) = business w"
  by (simp add: business_def)

lemma Record_business: "business (snd (aud_Record (api_audit l) t a ac et ei p sv w)) = business w"
proof -
  have "business (snd (AuditService_Record (lib_json l) (audit_wiring (lib_pg l)) t a ac et ei p sv w)) = business w"
    by (rule Record_frame) (simp_all add: audit_wiring_def NewAuditRepo_def Append_business business_cong [OF audit_reads(1)])
  then show ?thesis by (simp add: api_audit_def NewAuditService_def Let_def audit_wiring_def)
qed

interpretation api_sink: signal_sink "api_signals l" business for l
proof
  show "fst (api_signals l ev w) = Ok ()" for ev w
    by (simp add: api_signals_eq fanOut_Ok del: fanOut_Emit.simps)
  show "business (snd (api_signals l ev w)) = business w" for ev w
    unfolding api_signals_eq
  proof (rule fanOut_invariant [where I = "\<lambda>w'. business w' = business w"])
    fix T k w'
    assume k: "Some (T, k) \<in> set [Some (''*services.SlogSink'', SlogSink_Emit world_log),
      Some (''*services.AuditSink'', AuditSink_Emit (Some (api_audit l)) world_log)]" and w': "business w' = business w"
    then consider "k = SlogSink_Emit world_log" | "k = AuditSink_Emit (Some (api_audit l)) world_log" by auto
    then show "business (snd (k ev w')) = business w"
    proof cases
      case 1
      then show ?thesis using w' by (simp add: SlogSink_invariant [where I = "\<lambda>w'. business w' = business w"])
    next
      case 2
      show ?thesis unfolding 2
        by (rule AuditSink_invariant [where I = "\<lambda>w'. business w' = business w"]) (auto simp: w' Record_business)
    qed
  qed simp_all
qed

section \<open>Authentication\<close>

lemma FindByEmail_db: "w_db (snd (UserRepo_FindByEmail pg t e w)) = w_db w"
  using run_read_db [of pg "UserByEmail t e" w] by simp

lemma FindByEmail_user:
  assumes "UserRepo_FindByEmail pg t e w = (Ok u, w')"
  shows "u \<in> set (users (w_db w)) \<and> u_Email u = e \<and> current_tenant_id pg t = Inr (Some (u_TenantID u))"
proof -
  from assms obtain w1 w2 where q: "rls_query pg t (\<lambda>cur d. check ''22021'' (pg_text pg e)
         (first_row (filter (\<lambda>r. u_Email r = e) (visible u_TenantID cur (users d))))) w1 = (Ok u, w2)"
    and db: "w_db w1 = w_db w"
    unfolding UserRepo_FindByEmail_def by (elim WithTenant_Ok) simp
  from rls_query_Ok [OF q] db obtain cur where cur: "current_tenant_id pg t = Inr cur"
    "filter (\<lambda>r. u_Email r = e) (visible u_TenantID cur (users (w_db w))) \<noteq> []"
    "u = hd (filter (\<lambda>r. u_Email r = e) (visible u_TenantID cur (users (w_db w))))" by auto
  then have "u \<in> set (filter (\<lambda>r. u_Email r = e) (visible u_TenantID cur (users (w_db w))))"
    by (metis hd_in_set)
  with cur(1) show ?thesis by (cases cur) auto
qed

interpretation api_auth: auth_service "api_auth l secret" business refresh_tokens "ids_canonical (lib_pg l)"
  "canonical_id (lib_pg l)" for l secret
proof (unfold auth_service_def, intro conjI)
  show "refresh_token_repository (ath_refreshTokens (api_auth l secret)) business refresh_tokens
     (ids_canonical (lib_pg l)) (canonical_id (lib_pg l))"
    using refresh_pg.refresh_token_repository_axioms by (simp add: api_auth_def)
  show "auth_service_axioms (api_auth l secret) business (ids_canonical (lib_pg l)) (canonical_id (lib_pg l))"
  proof
    fix tn em w u w'
    assume "usr_FindByEmail (ath_users (api_auth l secret)) tn em w = (Ok u, w')" "ids_canonical (lib_pg l) (business w)"
    then show "canonical_id (lib_pg l) (u_ID u) \<and> canonical_id (lib_pg l) (u_TenantID u)"
      using FindByEmail_user by (fastforce simp: api_auth_def NewUserRepo_def ids_canonical_def)
  next
    fix emit ev w
    assume "ath_signals (api_auth l secret) = Some emit"
    then have "emit = api_signals l" by (simp add: api_auth_def)
    then show "business (snd (emit ev w)) = business w" by (simp only: api_sink.emit_core)
  next
    fix cl w
    show "business (snd (tok_Issue (ath_tokens (api_auth l secret)) cl w)) = business w"
      by (simp add: api_auth_def api_tokenManager_def jwt_manager_def TokenManager_Issue_def world_now_def)
  qed (simp_all add: api_auth_def NewUserRepo_def NewUserRoleRepo_def NewPasswordHasher_def Verify_frame
      business_cong [OF FindByEmail_db] business_cong [OF ListByUser_reads] world_rand_length)
qed

end
