(* ===== verification/Api_Server.thy ===== *)
theory Api_Server
  imports Api_Frames Wiring
begin

text \<open>
  \<open>run\<close> in \<^verbatim>\<open>cmd/api/main.go\<close>, second half: the services and the HTTP server on the real
  adapters. The interpretations instantiate the frames of \<open>Api_Frames\<close>: what belongs to another
  tenant, the accounts, and everything but sessions and the audit trail.
\<close>

definition api_lots :: "libs \<Rightarrow> world LotService" where
  "api_lots l = NewLotService (NewLotRepo (lib_pg l)) (Some (api_signals l)) world_now world_rand"

definition api_campaigns :: "libs \<Rightarrow> world CampaignService" where
  "api_campaigns l = NewCampaignService (NewCampaignRepo (lib_pg l)) (Some (api_signals l)) world_now world_rand"

definition api_applications :: "libs \<Rightarrow> world ApplicationService" where
  "api_applications l = NewApplicationService (NewApplicationRepo (lib_pg l)) (Some (api_signals l)) world_now world_rand"

definition api_users :: "libs \<Rightarrow> world UserService" where
  "api_users l = NewUserService (NewUserRepo (lib_pg l)) (NewUserRoleRepo (lib_pg l))
     (NewPasswordHasher (lib_kdf l) world_rand) (Some (api_signals l)) world_now world_rand"

definition api_server :: "libs \<Rightarrow> string \<Rightarrow> (Request \<Rightarrow> Response) \<Rightarrow> world Server" where
  "api_server l secret spa = NewServer (auth_service_of (api_auth l secret)) (api_tokenManager l secret) (api_lots l)
     (api_campaigns l) (api_applications l) (api_users l) (api_audit l) (NewTenantRepo (lib_pg l)) (Some world_Allow)
     (Some (api_signals l)) world_log world_now world_rand spa"

lemma api_server_simps [simp]:
  "srv_auth (api_server l secret spa) = auth_service_of (api_auth l secret)"
  "srv_tokens (api_server l secret spa) = api_tokenManager l secret"
  "srv_lots (api_server l secret spa) = api_lots l" "srv_campaigns (api_server l secret spa) = api_campaigns l"
  "srv_applications (api_server l secret spa) = api_applications l" "srv_users (api_server l secret spa) = api_users l"
  "srv_audit (api_server l secret spa) = api_audit l" "srv_tenants (api_server l secret spa) = NewTenantRepo (lib_pg l)"
  "srv_rateLimiter (api_server l secret spa) = Some world_Allow" "srv_signals (api_server l secret spa) = Some (api_signals l)"
  "srv_log (api_server l secret spa) = world_log" "srv_now (api_server l secret spa) = world_now"
  "srv_rand (api_server l secret spa) = world_rand" "srv_spa (api_server l secret spa) = spa"
  by (simp_all add: api_server_def NewServer_def)

section \<open>Statements and transactions\<close>

lemma WithTenant_frame:
  assumes "\<And>w. v (w_db (snd (fn t w))) = v (w_db w)"
  shows "v (w_db (snd (WithTenant t fn w))) = v (w_db w)"
proof -
  obtain r w' where r: "WithTenant t fn w = (r, w')" by fastforce
  from WithTenant_db [OF r] show ?thesis
  proof (elim disjE exE conjE)
    fix w1 x w2 assume "fn t w1 = (Ok x, w2)" "w_db w1 = w_db w" "w_db w' = w_db w2"
    with assms [of w1] r show ?thesis by simp
  qed (simp add: r)
qed

lemma rls_exec_frame:
  assumes "\<And>cur now d x d'. q cur now d = (Ok x, d') \<Longrightarrow> v d' = v d"
  shows "v (w_db (snd (rls_exec pg g q w))) = v (w_db w)"
proof -
  obtain r w' where r: "rls_exec pg g q w = (r, w')" by fastforce
  from rls_exec_db [OF r] assms show ?thesis by (auto simp: r)
qed

text \<open>The tables a statement on a policed table does not write.\<close>

lemma insert_others:
  "user_insert pg u cur now d = (Ok x, d') \<Longrightarrow> d' = d\<lparr>users := users d'\<rparr>"
  "role_insert pg m cur now d = (Ok x, d') \<Longrightarrow> d' = d\<lparr>user_roles := user_roles d'\<rparr>"
  "lot_insert pg lt cur now d = (Ok x, d') \<Longrightarrow> d' = d\<lparr>lots := lots d'\<rparr>"
  "campaign_insert pg c cur now d = (Ok x, d') \<Longrightarrow> d' = d\<lparr>campaigns := campaigns d'\<rparr>"
  "application_insert pg a cur now d = (Ok x, d') \<Longrightarrow> d' = d\<lparr>applications := applications d'\<rparr>"
  "audit_insert pg e cur now d = (Ok x, d') \<Longrightarrow> d' = d\<lparr>audit_log := audit_log d', audit_serial := audit_serial d'\<rparr>"
  unfolding user_insert_def role_insert_def lot_insert_def campaign_insert_def application_insert_def audit_insert_def
    insert_stmt_Ok
  by auto

lemma update_others:
  "user_update pg u cur now d = (Ok n, d') \<Longrightarrow> d' = d\<lparr>users := users d'\<rparr>"
  "campaign_update pg c cur now d = (Ok n, d') \<Longrightarrow> d' = d\<lparr>campaigns := campaigns d'\<rparr>"
  "application_update pg a cur now d = (Ok n, d') \<Longrightarrow> d' = d\<lparr>applications := applications d'\<rparr>"
  "campaign_delete pg i cur now d = (Ok n, d') \<Longrightarrow> d' = d\<lparr>campaigns := campaigns d'\<rparr>"
  "application_delete pg i cur now d = (Ok n, d') \<Longrightarrow> d' = d\<lparr>applications := applications d'\<rparr>"
  unfolding user_update_def campaign_update_def application_update_def campaign_delete_def application_delete_def
  by (auto simp: Let_def split: res.splits)

text \<open>The tables a repository call may write.\<close>

fun write_free :: "(db \<Rightarrow> 'v) \<Rightarrow> write_call \<Rightarrow> bool" where
  "write_free v (CreateUser u) \<longleftrightarrow> (\<forall>d x. v (d\<lparr>users := x\<rparr>) = v d)"
| "write_free v (UpdateUser u) \<longleftrightarrow> (\<forall>d x. v (d\<lparr>users := x\<rparr>) = v d)"
| "write_free v (AssignRole m) \<longleftrightarrow> (\<forall>d x. v (d\<lparr>user_roles := x\<rparr>) = v d)"
| "write_free v (CreateLot lt) \<longleftrightarrow> (\<forall>d x. v (d\<lparr>lots := x\<rparr>) = v d)"
| "write_free v (CreateCampaign c) \<longleftrightarrow> (\<forall>d x. v (d\<lparr>campaigns := x\<rparr>) = v d)"
| "write_free v (UpdateCampaign c) \<longleftrightarrow> (\<forall>d x. v (d\<lparr>campaigns := x\<rparr>) = v d)"
| "write_free v (DeleteCampaign t i) \<longleftrightarrow> (\<forall>d x. v (d\<lparr>campaigns := x\<rparr>) = v d)"
| "write_free v (CreateApplication a) \<longleftrightarrow> (\<forall>d x. v (d\<lparr>applications := x\<rparr>) = v d)"
| "write_free v (UpdateApplication a) \<longleftrightarrow> (\<forall>d x. v (d\<lparr>applications := x\<rparr>) = v d)"
| "write_free v (DeleteApplication t i) \<longleftrightarrow> (\<forall>d x. v (d\<lparr>applications := x\<rparr>) = v d)"
| "write_free v (AppendAudit e) \<longleftrightarrow> (\<forall>d x y. v (d\<lparr>audit_log := x, audit_serial := y\<rparr>) = v d)"

lemma write_frame:
  assumes "write_free v c"
  shows "v (w_db (snd (run_write pg c w))) = v (w_db w)"
  using assms
  by (cases c) (simp_all add: write_defs, (rule WithTenant_frame, simp, rule rls_exec_frame, (drule insert_others update_others, metis))+)

section \<open>What the API may do to the world\<close>

text \<open>\<open>world_frame\<close>: a reflexive and transitive relation that looks at the database alone and that
  admits the audit entry a sink appends for one of the tenants \<open>emitters\<close>, linked to the tail that was
  read. \<open>api_frame\<close> and \<open>session_frame\<close> are the two parts of the API over it: everything a request of
  tenant \<open>t\<close> runs on, and the authentication service.\<close>

locale world_frame =
  fixes K :: "world \<Rightarrow> world \<Rightarrow> bool" and l :: libs and emitters :: "string \<Rightarrow> bool"
  assumes K_db: "w_db w' = w_db w \<Longrightarrow> K w w'"
    and K_then: "K w w1 \<Longrightarrow> K w1 w2 \<Longrightarrow> K w w2"
    and K_append: "emitters tn \<Longrightarrow> AuditRepo_Tail (lib_pg l) tn w = (Ok tail, w1) \<Longrightarrow> ae_TenantID e = tn \<Longrightarrow>
      ae_Seq e = next_seq tail \<Longrightarrow> ae_PrevHash e = next_prev tail \<Longrightarrow> K w1 (snd (AuditRepo_Append (lib_pg l) e w1))"
begin

lemma K_same: "K w w"
  by (rule K_db) simp

lemma K_world_log: "K w (world_log li w)"
  by (rule K_db) simp

lemma K_Record:
  assumes "emitters tn"
  shows "K w (snd (aud_Record (api_audit l) tn a ac et ei p sv w))"
proof -
  have "K w (snd (AuditService_Record (lib_json l) (audit_wiring (lib_pg l)) tn a ac et ei p sv w))"
  proof (rule Record_moves [where K = K])
    show "K w (snd (adt_Tail (ads_repo (audit_wiring (lib_pg l))) tn w))" for w
      by (rule K_db) (simp add: audit_wiring_def NewAuditRepo_def audit_reads)
    show "K w (snd (ads_now (audit_wiring (lib_pg l)) w))" for w by (rule K_db) (simp add: audit_wiring_def)
    show "K w (ads_log (audit_wiring (lib_pg l)) li w)" for li w by (simp add: audit_wiring_def K_world_log)
    fix w tail w1 n w2 e sv
    assume "adt_Tail (ads_repo (audit_wiring (lib_pg l))) tn w = (Ok tail, w1)" "ads_now (audit_wiring (lib_pg l)) w1 = (n, w2)"
      "next_entry (lib_json l) tn a ac et ei p sv tail n = Inr e"
    then show "K w2 (snd (adt_Append (ads_repo (audit_wiring (lib_pg l))) e w2))"
      using K_append [OF assms, of w tail w1 e] next_entry_fields [of "lib_json l" tn a ac et ei p sv tail n e]
      by (simp add: audit_wiring_def NewAuditRepo_def world_now_def)
  qed (rule K_same, erule K_then)
  then show ?thesis by (simp add: api_audit_def NewAuditService_def Let_def audit_wiring_def)
qed

lemma K_signals:
  assumes "emitters (se_TenantID ev) \<or> se_TenantID ev = []"
  shows "K w (snd (api_signals l ev w))"
  unfolding api_signals_eq
proof (rule fanOut_invariant [where I = "K w"])
  show log: "K w (world_log li w1)" if "K w w1" for li w1 by (rule K_then [OF that K_world_log])
  fix T k w1
  assume k: "Some (T, k) \<in> set [Some (''*services.SlogSink'', SlogSink_Emit world_log),
      Some (''*services.AuditSink'', AuditSink_Emit (Some (api_audit l)) world_log)]" and w1: "K w w1"
  then consider "k = SlogSink_Emit world_log" | "k = AuditSink_Emit (Some (api_audit l)) world_log" by auto
  then show "K w (snd (k ev w1))"
  proof cases
    case 1
    then show ?thesis using w1 log by (simp add: SlogSink_invariant [where I = "K w"])
  next
    case 2
    have "K w w2" if "emitters (se_TenantID ev)" "aud_Record (api_audit l) (se_TenantID ev) a ac et ei p sv w1 = (r, w2)"
      for a ac et ei p sv r w2
      using K_then [OF w1 K_Record [OF that(1)]] that(2) by (metis snd_conv)
    with log w1 assms show ?thesis unfolding 2
      by (auto simp: AuditSink_Emit_def log_Warn_def split: prod.splits res.splits)
  qed
qed (fact K_same)

end

lemma api_tokens_db: "w_db (snd (tok_Verify (api_tokenManager l secret) tok w)) = w_db w"
  by (simp add: api_tokenManager_def jwt_manager_def TokenManager_Verify_def world_now_def Let_def split: res.splits option.splits prod.splits)

lemma Hash_db: "w_db (snd (hsh_Hash (NewPasswordHasher kdf world_rand) p w)) = w_db w"
proof -
  have "w_db w' = w_db w" if "world_rand n w = (x, w')" for n x w' using w_db_rand [of n w] that by simp
  then show ?thesis
    by (auto simp: NewPasswordHasher_def PasswordHasher_Hash_def split: prod.splits option.splits)
qed

lemmas repo_records = NewLotRepo_def NewCampaignRepo_def NewApplicationRepo_def NewUserRepo_def NewUserRoleRepo_def
  NewAuditRepo_def NewTenantRepo_def NewPasswordHasher_def

text \<open>Every read the endpoints make leaves the database as it was.\<close>

lemma api_reads_db:
  "w_db (snd (lot_List (NewLotRepo pg) t w)) = w_db w"
  "w_db (snd (cmp_List (NewCampaignRepo pg) t w)) = w_db w" "w_db (snd (cmp_FindByID (NewCampaignRepo pg) t i w)) = w_db w"
  "w_db (snd (app_List (NewApplicationRepo pg) t w)) = w_db w" "w_db (snd (app_FindByID (NewApplicationRepo pg) t i w)) = w_db w"
  "w_db (snd (usr_List (NewUserRepo pg) t w)) = w_db w" "w_db (snd (usr_FindByID (NewUserRepo pg) t i w)) = w_db w"
  "w_db (snd (rol_ListByUser (NewUserRoleRepo pg) t i w)) = w_db w"
  "w_db (snd (tnt_List (NewTenantRepo pg) w)) = w_db w"
  using run_read_db [of pg "Lots t" w] run_read_db [of pg "Campaigns t" w] run_read_db [of pg "CampaignByID t i" w]
    run_read_db [of pg "Applications t" w] run_read_db [of pg "ApplicationByID t i" w] run_read_db [of pg "Users t" w]
    run_read_db [of pg "UserByID t i" w] run_read_db [of pg "Roles t i" w]
  by (simp_all add: repo_records TenantRepo_List_def)

lemma api_Latest_db: "w_db (snd (aud_Latest (api_audit l) t n w)) = w_db w"
  by (simp add: api_audit_def NewAuditService_def Let_def AuditService_Latest_def NewAuditRepo_def audit_reads)

section \<open>The frame of the whole API\<close>

locale api_frame = world_frame K l "\<lambda>tn. tn = t"
  for K :: "world \<Rightarrow> world \<Rightarrow> bool" and t :: string and l :: libs and secret :: string and spa :: "Request \<Rightarrow> Response"

sublocale api_frame \<subseteq> server_frame K t "api_server l secret spa"
proof unfold_locales
  show "K w (snd (k ev w))" if "srv_signals (api_server l secret spa) = Some k" "se_TenantID ev = t \<or> se_TenantID ev = []" for k ev w
    using that K_signals by simp
  show "K w (snd (allow k n d w))" if "srv_rateLimiter (api_server l secret spa) = Some allow" for allow k n d w
    using that K_db [of "snd (world_Allow k n d w)" w] by auto
qed (rule K_db, simp add: api_tokens_db | rule K_same | erule K_then, assumption)+

context api_frame
begin

lemmas K_reads = K_db [OF api_reads_db(1)] K_db [OF api_reads_db(2)] K_db [OF api_reads_db(3)] K_db [OF api_reads_db(4)]
  K_db [OF api_reads_db(5)] K_db [OF api_reads_db(6)] K_db [OF api_reads_db(7)] K_db [OF api_reads_db(8)]
  K_db [OF api_reads_db(9)] K_db [OF Hash_db] K_db [OF api_Latest_db]

lemma backend_reads:
  assumes "e \<in> {Healthz, SpaIndex, SpaStatic, TenantsList, LotsList, CampaignsList, CampaignsGet, ApplicationsList,
      ApplicationsGet, UsersList, AuditLatest}"
  shows "backend_still (api_server l secret spa) K t e"
  using assms K_lot_reads [of "NewLotRepo (lib_pg l)"] K_campaign_reads [of "NewCampaignRepo (lib_pg l)"]
    K_application_reads [of "NewApplicationRepo (lib_pg l)"] K_user_reads [of "NewUserRepo (lib_pg l)" "NewUserRoleRepo (lib_pg l)"]
  by (auto simp: K_reads api_lots_def api_campaigns_def api_applications_def api_users_def)

lemma backend_lots:
  assumes "\<And>x w. l_TenantID x = t \<Longrightarrow> Lot_IsValid x \<Longrightarrow> K w (snd (run_write (lib_pg l) (CreateLot x) w))"
  shows "backend_still (api_server l secret spa) K t LotsCreate"
  using assms K_lot_writes [of "NewLotRepo (lib_pg l)"] by (simp add: NewLotRepo_def api_lots_def)

lemma backend_campaign_create:
  assumes "\<And>x w. c_TenantID x = t \<Longrightarrow> Campaign_IsValid x \<Longrightarrow> K w (snd (run_write (lib_pg l) (CreateCampaign x) w))"
  shows "backend_still (api_server l secret spa) K t CampaignsCreate"
  using assms K_campaign_create [of "NewCampaignRepo (lib_pg l)"] by (simp add: NewCampaignRepo_def api_campaigns_def)

lemma backend_campaign_update:
  assumes "\<And>x w. c_TenantID x = t \<Longrightarrow> Campaign_IsValid x \<Longrightarrow> K w (snd (run_write (lib_pg l) (UpdateCampaign x) w))"
  shows "backend_still (api_server l secret spa) K t CampaignsUpdate"
  using assms K_campaign_update [of "NewCampaignRepo (lib_pg l)"] by (simp add: NewCampaignRepo_def api_campaigns_def)

lemma backend_campaign_delete:
  assumes "\<And>i w. K w (snd (run_write (lib_pg l) (DeleteCampaign t i) w))"
  shows "backend_still (api_server l secret spa) K t CampaignsDelete"
  using assms K_campaign_delete [of "NewCampaignRepo (lib_pg l)"] by (simp add: NewCampaignRepo_def api_campaigns_def)

lemma backend_application_create:
  assumes "\<And>x w. a_TenantID x = t \<Longrightarrow> Application_IsValid x \<Longrightarrow> K w (snd (run_write (lib_pg l) (CreateApplication x) w))"
  shows "backend_still (api_server l secret spa) K t ApplicationsCreate"
  using assms K_application_create [of "NewApplicationRepo (lib_pg l)"] by (simp add: NewApplicationRepo_def api_applications_def)

lemma backend_application_update:
  assumes "\<And>x w. a_TenantID x = t \<Longrightarrow> Application_IsValid x \<Longrightarrow> K w (snd (run_write (lib_pg l) (UpdateApplication x) w))"
  shows "backend_still (api_server l secret spa) K t ApplicationsUpdate"
  using assms K_application_update [of "NewApplicationRepo (lib_pg l)"] by (simp add: NewApplicationRepo_def api_applications_def)

lemma backend_application_delete:
  assumes "\<And>i w. K w (snd (run_write (lib_pg l) (DeleteApplication t i) w))"
  shows "backend_still (api_server l secret spa) K t ApplicationsDelete"
  using assms K_application_delete [of "NewApplicationRepo (lib_pg l)"] by (simp add: NewApplicationRepo_def api_applications_def)

lemma backend_user_create:
  assumes "\<And>x w. u_TenantID x = t \<Longrightarrow> User_IsValid x \<Longrightarrow> K w (snd (run_write (lib_pg l) (CreateUser x) w))"
    and "\<And>x m w w'. u_TenantID x = t \<Longrightarrow> run_write (lib_pg l) (CreateUser x) w = (Ok (), w') \<Longrightarrow> ur_UserID m = u_ID x \<Longrightarrow>
      ur_TenantID m = t \<Longrightarrow> K w' (snd (run_write (lib_pg l) (AssignRole m) w'))"
  shows "backend_still (api_server l secret spa) K t UsersCreate"
  using assms K_user_create [of "NewUserRepo (lib_pg l)" "NewUserRoleRepo (lib_pg l)" "NewPasswordHasher (lib_kdf l) world_rand"] K_reads(10)
  by (simp add: NewUserRepo_def NewUserRoleRepo_def api_users_def)

lemma backend_user_update:
  assumes "\<And>i w u w' n fn ac. UserRepo_FindByID (lib_pg l) t i w = (Ok u, w') \<Longrightarrow>
      User_IsValid (u\<lparr>u_FullName := fn, u_IsActive := ac, u_UpdatedAt := n\<rparr>) \<Longrightarrow>
      K w' (snd (run_write (lib_pg l) (UpdateUser (u\<lparr>u_FullName := fn, u_IsActive := ac, u_UpdatedAt := n\<rparr>)) w'))"
  shows "backend_still (api_server l secret spa) K t UsersUpdate"
  using assms K_user_update [of "NewUserRepo (lib_pg l)" "NewUserRoleRepo (lib_pg l)"] K_reads(7,8)
  by (simp add: NewUserRepo_def api_users_def world_now_def)

end

text \<open>The statements of the token store run outside a transaction.\<close>

locale session_frame = world_frame K l "\<lambda>tn. True"
  for K :: "world \<Rightarrow> world \<Rightarrow> bool" and l :: libs and secret :: string +
  assumes K_store: "rr_RevokedAt tok = None \<Longrightarrow> K w (snd (RefreshTokenStore_Store (lib_pg l) tok w))"
    and K_revoke: "K w (snd (RefreshTokenStore_Revoke (lib_pg l) i j w))"
    and K_revoke_family: "K w (snd (RefreshTokenStore_RevokeFamily (lib_pg l) i w))"

sublocale session_frame \<subseteq> auth_frame K t "api_auth l secret" world_log for t
proof unfold_locales
  have sig: "K w (snd (k ev w))" if "ath_signals (api_auth l secret) = Some k" for k ev w
    using that K_signals by (simp add: api_auth_def)
  then show "K w (snd (k ev w))" if "ath_signals (api_auth l secret) = Some k" "se_TenantID ev = t \<or> se_TenantID ev = []" for k ev w
    using that by blast
  show "K w (snd (k ev w))" if "ath_signals (api_auth l secret) = Some k" for k ev w by (rule sig [OF that])
  show "K w (snd (rtk_Store (ath_refreshTokens (api_auth l secret)) tok w))" if "rr_RevokedAt tok = None" for tok w
    using that K_store by (simp add: api_auth_def NewRefreshTokenStore_def)
  show "K w (snd (rtk_Revoke (ath_refreshTokens (api_auth l secret)) i j w))" for i j w
    using K_revoke by (simp add: api_auth_def NewRefreshTokenStore_def)
  show "K w (snd (rtk_RevokeFamily (ath_refreshTokens (api_auth l secret)) i w))" for i w
    using K_revoke_family by (simp add: api_auth_def NewRefreshTokenStore_def)
qed (rule K_same | erule K_then, assumption | rule K_db, simp add: api_auth_def NewRefreshTokenStore_def NewUserRepo_def FindByEmail_db
        NewUserRoleRepo_def ListByUser_reads NewPasswordHasher_def Verify_frame RefreshTokenStore_FindByHash_def
        api_tokenManager_def jwt_manager_def TokenManager_Issue_def world_now_def)+

context session_frame
begin

lemma backend_sessions: "e \<in> {AuthLogin, AuthRefresh} \<Longrightarrow> backend_still (api_server l secret spa) K t e"
  by (auto simp: auth_service_of_def K_Login K_Refresh)

end

section \<open>What a request leaves alone\<close>

text \<open>A part of the database that is not the audit trail.\<close>

lemma still_frame:
  assumes "\<And>d x y. g (d\<lparr>audit_log := x, audit_serial := y\<rparr>) = g d"
  shows "world_frame (\<lambda>w w'. g (w_db w') = g (w_db w)) l em"
proof unfold_locales
  show "g (w_db (snd (AuditRepo_Append (lib_pg l) e w))) = g (w_db w)" for e w
    using assms write_frame [of g "AppendAudit e" "lib_pg l" w] by simp
qed simp_all

section \<open>The tenants a request does not concern\<close>

definition foreign :: "PG \<Rightarrow> string \<Rightarrow> string \<Rightarrow> world \<Rightarrow> _" where
  "foreign pg t u w = (if current_tenant_id pg t = Inr (Some u) then None
     else Some (tenant_slice u (w_db w), tenants (w_db w), refresh_tokens (w_db w)))"

lemma foreign_cong: "w_db w' = w_db w \<Longrightarrow> foreign pg t u w' = foreign pg t u w"
  by (simp add: foreign_def)

lemma foreign_write:
  assumes "current_tenant_id pg (write_tenant c) = Inr (Some u) \<Longrightarrow> current_tenant_id pg t = Inr (Some u)"
  shows "foreign pg t u (snd (run_write pg c w)) = foreign pg t u w"
proof (cases "current_tenant_id pg t = Inr (Some u)")
  case False
  have "write_free (\<lambda>d. (tenants d, refresh_tokens d)) c" by (cases c) simp_all
  from write_frame [OF this, of pg w] run_write_slice [of pg c u w] assms False
  show ?thesis by (auto simp: foreign_def)
qed (simp add: foreign_def)

text \<open>The form a UUID is printed in reads back as itself.\<close>

definition uuid_stable :: "PG \<Rightarrow> bool" where
  "uuid_stable pg \<longleftrightarrow> (\<forall>i j. pg_uuid pg i = Some j \<longrightarrow> pg_uuid pg j = Some j \<and> j \<noteq> [])"

lemma uuid_stable_tenant: "uuid_stable pg \<Longrightarrow> current_tenant_id pg t = Inr (Some x) \<Longrightarrow> current_tenant_id pg x = Inr (Some x)"
  by (auto simp: uuid_stable_def current_tenant_id_def split: if_splits option.splits)

lemma FindByID_user:
  assumes "UserRepo_FindByID pg t i w = (Ok u, w')"
  shows "current_tenant_id pg t = Inr (Some (u_TenantID u)) \<and> u \<in> set (users (w_db w')) \<and> pg_uuid pg i = Some (u_ID u)"
proof -
  let ?q = "\<lambda>cur d. bind1 (uuid_param pg i) (\<lambda>k. first_row (filter (\<lambda>r. u_ID r = k) (visible u_TenantID cur (users d))))"
  have db: "w_db w' = w_db w" using run_read_db [of pg "UserByID t i" w] assms by simp
  from assms obtain w1 w2 where q: "rls_query pg t ?q w1 = (Ok u, w2)" and w1: "w_db w1 = w_db w"
    unfolding UserRepo_FindByID_def by (elim WithTenant_Ok) simp
  from rls_query_Ok [OF q] obtain cur k where cur: "current_tenant_id pg t = Inr cur" "pg_uuid pg i = Some k"
    "filter (\<lambda>r. u_ID r = k) (visible u_TenantID cur (users (w_db w1))) \<noteq> []"
    "u = hd (filter (\<lambda>r. u_ID r = k) (visible u_TenantID cur (users (w_db w1))))" by auto
  then have "u \<in> set (filter (\<lambda>r. u_ID r = k) (visible u_TenantID cur (users (w_db w1))))" by (metis hd_in_set)
  with cur(1,2) show ?thesis by (cases cur) (auto simp: db w1)
qed

interpretation foreign_api: api_frame "\<lambda>w w'. foreign (lib_pg l) t u w' = foreign (lib_pg l) t u w" t l secret spa
  for l t u secret spa
proof unfold_locales
  fix tn :: string and w :: world and tail w1 and e :: AuditEntry
  assume "tn = t" "ae_TenantID e = tn"
  then show "foreign (lib_pg l) t u (snd (AuditRepo_Append (lib_pg l) e w1)) = foreign (lib_pg l) t u w1"
    using foreign_write [of "lib_pg l" "AppendAudit e" u t w1] by simp
qed (erule foreign_cong, simp)

lemma foreign_backend:
  assumes "uuid_stable (lib_pg l)" "e \<notin> {AuthLogin, AuthRefresh}"
  shows "backend_still (api_server l secret spa) (\<lambda>w w'. foreign (lib_pg l) t u w' = foreign (lib_pg l) t u w) t e"
proof -
  have w: "foreign (lib_pg l) t u (snd (run_write (lib_pg l) c w)) = foreign (lib_pg l) t u w" if "write_tenant c = t" for c w
    by (rule foreign_write) (simp add: that)
  have up: "foreign (lib_pg l) t u (snd (run_write (lib_pg l) (UpdateUser x) w)) = foreign (lib_pg l) t u w"
    if "current_tenant_id (lib_pg l) t = Inr (Some (u_TenantID x))" for x w
    by (rule foreign_write) (use uuid_stable_tenant [OF assms(1) that] that in simp)
  consider "e \<in> {Healthz, SpaIndex, SpaStatic, TenantsList, LotsList, CampaignsList, CampaignsGet, ApplicationsList,
      ApplicationsGet, UsersList, AuditLatest}" | "e = LotsCreate" | "e = CampaignsCreate" | "e = CampaignsUpdate" | "e = CampaignsDelete"
    | "e = ApplicationsCreate" | "e = ApplicationsUpdate" | "e = ApplicationsDelete" | "e = UsersCreate" | "e = UsersUpdate"
    using assms(2) by (cases e) auto
  then show ?thesis
  proof cases
    case 1 then show ?thesis by (rule foreign_api.backend_reads)
  next
    case 10 show ?thesis unfolding 10 by (rule foreign_api.backend_user_update, rule up) (use FindByID_user in fastforce)
  next
    case 2 show ?thesis unfolding 2 by (rule foreign_api.backend_lots, rule w) simp
  next
    case 3 show ?thesis unfolding 3 by (rule foreign_api.backend_campaign_create, rule w) simp
  next
    case 4 show ?thesis unfolding 4 by (rule foreign_api.backend_campaign_update, rule w) simp
  next
    case 5 show ?thesis unfolding 5 by (rule foreign_api.backend_campaign_delete, rule w) simp
  next
    case 6 show ?thesis unfolding 6 by (rule foreign_api.backend_application_create, rule w) simp
  next
    case 7 show ?thesis unfolding 7 by (rule foreign_api.backend_application_update, rule w) simp
  next
    case 8 show ?thesis unfolding 8 by (rule foreign_api.backend_application_delete, rule w) simp
  next
    case 9 show ?thesis unfolding 9 by (rule foreign_api.backend_user_create; rule w; simp)
  qed
qed

end
