(* ===== verification/Access.thy ===== *)
theory Access
  imports Api_Server
begin

text \<open>
  What holds of whole requests to the API of \<open>Api_Server\<close>, middleware and handlers included. Outside
  the two session endpoints a request changes nothing that belongs to another tenant than its
  token's (\<open>request_foreign\<close>); a request without an administrator's token changes no account
  (\<open>request_accounts\<close>); logging in and refreshing change no record (\<open>request_records\<close>); a request
  without the required token or role changes nothing at all but the log (\<open>request_refused\<close>); and every
  request is answered and logged with its status (\<open>Routes_answers\<close>).
\<close>

text \<open>The statements of the token store write no other table.\<close>

lemma pg_exec_frame:
  assumes "\<And>d x d'. q d = (Ok x, d') \<Longrightarrow> v d' = v d"
  shows "v (w_db (snd (pg_exec q w))) = v (w_db w)"
proof -
  obtain r w' where r: "pg_exec q w = (r, w')" by fastforce
  from pg_exec_db [OF r] assms r show ?thesis by auto
qed

lemma token_statements:
  assumes "\<And>d x. g (d\<lparr>refresh_tokens := x\<rparr>) = g d"
  shows "g (w_db (snd (RefreshTokenStore_Store pg tok w))) = g (w_db w)"
    and "g (w_db (snd (RefreshTokenStore_Revoke pg i j w))) = g (w_db w)"
    and "g (w_db (snd (RefreshTokenStore_RevokeFamily pg i w))) = g (w_db w)"
  unfolding RefreshTokenStore_Store_def RefreshTokenStore_Revoke_def RefreshTokenStore_RevokeFamily_def snd_wrapR
  by (rule pg_exec_frame; auto simp: token_insert_def insert_stmt_Ok assms split: res.splits)+

lemma still_session_frame:
  assumes "\<And>d x y. g (d\<lparr>audit_log := x, audit_serial := y\<rparr>) = g d" "\<And>d x. g (d\<lparr>refresh_tokens := x\<rparr>) = g d"
  shows "session_frame (\<lambda>w w'. g (w_db w') = g (w_db w)) l"
  unfolding session_frame_def session_frame_axioms_def
  using token_statements [OF assms(2), of "lib_pg l"] by (intro conjI still_frame [OF assms(1)]) simp_all

section \<open>Accounts and records\<close>

definition accounts :: "db \<Rightarrow> User list \<times> UserRole list" where
  "accounts d = (users d, user_roles d)"

text \<open>Everything but sessions and the audit trail.\<close>

definition records :: "db \<Rightarrow> Tenant list \<times> User list \<times> UserRole list \<times> Lot list \<times> Campaign list \<times> Application list" where
  "records d = (tenants d, users d, user_roles d, lots d, campaigns d, applications d)"

interpretation accounts_api: api_frame "\<lambda>w w'. accounts (w_db w') = accounts (w_db w)" t l secret spa for t l secret spa
  unfolding api_frame_def by (rule still_frame) (simp add: accounts_def)

interpretation accounts_auth: session_frame "\<lambda>w w'. accounts (w_db w') = accounts (w_db w)" l secret for l secret
  by (rule still_session_frame) (simp_all add: accounts_def)

interpretation records_api: api_frame "\<lambda>w w'. records (w_db w') = records (w_db w)" t l secret spa for t l secret spa
  unfolding api_frame_def by (rule still_frame) (simp add: records_def)

interpretation records_auth: session_frame "\<lambda>w w'. records (w_db w') = records (w_db w)" l secret for l secret
  by (rule still_session_frame) (simp_all add: records_def)

lemma accounts_backend:
  assumes "e \<notin> {UsersCreate, UsersUpdate}"
  shows "backend_still (api_server l secret spa) (\<lambda>w w'. accounts (w_db w') = accounts (w_db w)) t e"
proof -
  have w: "accounts (w_db (snd (run_write (lib_pg l) c w))) = accounts (w_db w)"
    if "\<forall>u. c \<noteq> CreateUser u \<and> c \<noteq> UpdateUser u" "\<forall>m. c \<noteq> AssignRole m" for c w
    by (rule write_frame) (use that in \<open>cases c; simp add: accounts_def\<close>)
  consider "e \<in> {Healthz, SpaIndex, SpaStatic, TenantsList, LotsList, CampaignsList, CampaignsGet, ApplicationsList,
      ApplicationsGet, UsersList, AuditLatest}" | "e = LotsCreate" | "e = CampaignsCreate" | "e = CampaignsUpdate" | "e = CampaignsDelete"
    | "e = ApplicationsCreate" | "e = ApplicationsUpdate" | "e = ApplicationsDelete" | "e \<in> {AuthLogin, AuthRefresh}"
    using assms by (cases e) auto
  then show ?thesis
  proof cases
    case 1 then show ?thesis by (rule accounts_api.backend_reads)
  next
    case 2 show ?thesis unfolding 2 by (rule accounts_api.backend_lots, rule w) simp_all
  next
    case 3 show ?thesis unfolding 3 by (rule accounts_api.backend_campaign_create, rule w) simp_all
  next
    case 4 show ?thesis unfolding 4 by (rule accounts_api.backend_campaign_update, rule w) simp_all
  next
    case 5 show ?thesis unfolding 5 by (rule accounts_api.backend_campaign_delete, rule w) simp_all
  next
    case 6 show ?thesis unfolding 6 by (rule accounts_api.backend_application_create, rule w) simp_all
  next
    case 7 show ?thesis unfolding 7 by (rule accounts_api.backend_application_update, rule w) simp_all
  next
    case 8 show ?thesis unfolding 8 by (rule accounts_api.backend_application_delete, rule w) simp_all
  next
    case 9 then show ?thesis by (rule accounts_auth.backend_sessions)
  qed
qed

section \<open>Whole requests\<close>

lemma world_rand_clock: "w_clock (snd (world_rand n w)) = w_clock w"
  by (simp add: world_rand_def split: list.splits option.splits)

lemma accepted_clock: "w_clock (accepted (api_server l secret spa) w) = w_clock w"
  using world_rand_clock [of 16 w] by (cases "world_rand 16 w") (auto simp: accepted_def world_now_def NewID_def split: option.splits)


lemma identity_clock:
  "w_clock w' = w_clock w \<Longrightarrow> identity (api_tokenManager l secret) r w' = identity (api_tokenManager l secret) r w"
  by (auto simp: identity_def api_tokenManager_def jwt_manager_def TokenManager_Verify_def world_now_def Let_def
      split: res.splits option.splits prod.splits)

lemma identity_accepted:
  "identity (api_tokenManager l secret) r (accepted (api_server l secret spa) w) = identity (api_tokenManager l secret) r w"
  by (rule identity_clock) (rule accepted_clock)

text \<open>The two endpoints that open and rotate sessions, by their paths.\<close>

lemma split_path_join: "strings_Join (split_path p) ''/'' = p"
proof (induction p)
  case (Cons c p)
  have "split_path p \<noteq> []" by (cases p) (auto split: list.splits)
  with Cons show ?case by (cases "split_path p"; cases "tl (split_path p)") auto
qed simp

lemma lookup_route_match:
  "lookup_route rs m path = Some (acc, e, vs) \<Longrightarrow> \<exists>m' pat. (m', pat, acc, e) \<in> set rs \<and> match_pattern pat path = Some vs"
  by (induction rs m path rule: lookup_route.induct) (auto split: option.splits if_splits)

lemma match_literals: "match_segments False (map Lit ls) segs = Some vs \<Longrightarrow> segs = ls"
  by (induction ls arbitrary: segs vs; case_tac segs) (auto split: if_splits)

lemma match_literal_path:
  assumes "match_pattern (Exact (map Lit ls)) path = Some vs"
  shows "path = strings_Join ([] # ls) ''/''"
proof -
  from assms obtain segs where "split_path path = [] # segs" "match_segments False (map Lit ls) segs = Some vs"
    by (auto split: list.splits)
  with match_literals split_path_join show ?thesis by metis
qed

definition session_paths :: "string set" where
  "session_paths = {''/api/v1/auth/login'', ''/api/v1/auth/refresh''}"

lemma session_route:
  assumes "lookup_route routes m path = Some (acc, e, vs)" "e \<in> {AuthLogin, AuthRefresh}"
  shows "path \<in> session_paths"
proof -
  from lookup_route_match [OF assms(1)] obtain m' pat where
    pat: "(m', pat, acc, e) \<in> set routes" "match_pattern pat path = Some vs" by blast
  from pat(1) assms(2) have "pat = Exact (map Lit [''api'', ''v1'', ''auth'', ''login'']) \<or>
      pat = Exact (map Lit [''api'', ''v1'', ''auth'', ''refresh''])"
    by (auto simp: routes_def)
  with pat(2) match_literal_path show ?thesis unfolding session_paths_def by fastforce
qed

lemma session_route_unique:
  assumes "lookup_route routes m path = Some (acc, e, vs)" "path \<in> session_paths"
  shows "e \<in> {AuthLogin, AuthRefresh}"
  using assms by (auto simp: session_paths_def routes_def split: if_splits)

section \<open>Whole requests\<close>

lemma request_foreign:
  assumes "uuid_stable (lib_pg l)" "rq_Ctx r = Background" "rq_Path r \<notin> session_paths"
    and "\<And>c. identity (api_tokenManager l secret) r w = Some c \<Longrightarrow> current_tenant_id (lib_pg l) (tc_TenantID c) \<noteq> Inr (Some u)"
  shows "tenant_slice u (w_db (snd (Routes (api_server l secret spa) r w))) = tenant_slice u (w_db w) \<and>
    tenants (w_db (snd (Routes (api_server l secret spa) r w))) = tenants (w_db w) \<and>
    refresh_tokens (w_db (snd (Routes (api_server l secret spa) r w))) = refresh_tokens (w_db w)"
proof -
  define t where "t = (case identity (api_tokenManager l secret) r w of Some c \<Rightarrow> tc_TenantID c | None \<Rightarrow> [])"
  have t: "current_tenant_id (lib_pg l) t \<noteq> Inr (Some u)"
    using assms(4) by (cases "identity (api_tokenManager l secret) r w") (auto simp: t_def)
  have "foreign (lib_pg l) t u (snd (Routes (api_server l secret spa) r w)) = foreign (lib_pg l) t u w"
  proof (rule foreign_api.K_Routes [OF assms(2)])
    fix c assume "identity (srv_tokens (api_server l secret spa)) r (accepted (api_server l secret spa) w) = Some c"
    then show "tc_TenantID c = t" by (simp add: identity_accepted t_def)
  next
    fix e vs assume "lookup_route routes (rq_Method r) (rq_Path r) = Some (access_of e, e, vs)"
    then have "e \<notin> {AuthLogin, AuthRefresh}" using session_route assms(3) by blast
    then show "backend_still (api_server l secret spa) (\<lambda>w w'. foreign (lib_pg l) t u w' = foreign (lib_pg l) t u w) t e" by (rule foreign_backend [OF assms(1)])
  qed
  with t show ?thesis by (simp add: foreign_def)
qed

lemma request_accounts:
  assumes "rq_Ctx r = Background" "\<And>c. identity (api_tokenManager l secret) r w = Some c \<Longrightarrow> tc_Role c \<noteq> RoleAdmin"
  shows "accounts (w_db (snd (Routes (api_server l secret spa) r w))) = accounts (w_db w)"
proof -
  define t where "t = (case identity (api_tokenManager l secret) r w of Some c \<Rightarrow> tc_TenantID c | None \<Rightarrow> [])"
  show ?thesis
  proof (rule accounts_api.K_Routes [where t = t, OF assms(1)])
    fix c assume "identity (srv_tokens (api_server l secret spa)) r (accepted (api_server l secret spa) w) = Some c"
    then show "tc_TenantID c = t" by (simp add: identity_accepted t_def)
  next
    fix e assume "may_reach (access_of e) (identity (srv_tokens (api_server l secret spa)) r (accepted (api_server l secret spa) w))"
    then have "e \<notin> {UsersCreate, UsersUpdate}"
      using assms(2) by (auto simp: identity_accepted may_reach_def split: option.splits)
    then show "backend_still (api_server l secret spa) (\<lambda>w w'. accounts (w_db w') = accounts (w_db w)) t e" by (rule accounts_backend)
  qed
qed

lemma request_records:
  assumes "rq_Ctx r = Background" "rq_Path r \<in> session_paths"
  shows "records (w_db (snd (Routes (api_server l secret spa) r w))) = records (w_db w)"
proof -
  define t where "t = (case identity (api_tokenManager l secret) r w of Some c \<Rightarrow> tc_TenantID c | None \<Rightarrow> [])"
  show ?thesis
  proof (rule records_api.K_Routes [where t = t, OF assms(1)])
    fix c assume "identity (srv_tokens (api_server l secret spa)) r (accepted (api_server l secret spa) w) = Some c"
    then show "tc_TenantID c = t" by (simp add: identity_accepted t_def)
  next
    fix e vs assume "lookup_route routes (rq_Method r) (rq_Path r) = Some (access_of e, e, vs)"
    then have "e \<in> {AuthLogin, AuthRefresh}" using session_route_unique assms(2) by blast
    then show "backend_still (api_server l secret spa) (\<lambda>w w'. records (w_db w') = records (w_db w)) t e" by (rule records_auth.backend_sessions)
  qed
qed

section \<open>Refused requests\<close>

text \<open>The library answers a token with claims or an error, never with a panic of its own.\<close>

definition jwt_total :: "JWT \<Rightarrow> bool" where
  "jwt_total jw \<longleftrightarrow> (\<forall>t kf now p. (\<forall>alg q. kf alg \<noteq> Panic q) \<longrightarrow> jwt_Parse jw t kf now \<noteq> Panic p)"

lemma hs256_only_total: "hs256_only m alg \<noteq> Panic p"
  by (simp add: hs256_only_def)

lemma api_Verify_world:
  "jwt_total (lib_jwt l) \<Longrightarrow> tok_Verify (api_tokenManager l secret) tok w = (x, w') \<Longrightarrow> w' = w \<and> (\<nexists>p. x = Panic p)"
  by (auto simp: api_tokenManager_def jwt_manager_def TokenManager_Verify_def world_now_def Let_def jwt_total_def
      hs256_only_total split: res.splits option.splits prod.splits if_splits)

definition refusal :: "TokenClaims option \<Rightarrow> Response" where
  "refusal i = (case i of None \<Rightarrow> writeError 401 ''unauthorized'' | Some c \<Rightarrow> writeError 403 ''forbidden'')"

lemma guarded_refused:
  assumes "jwt_total (lib_jwt l)" "\<not> may_reach acc (identity (api_tokenManager l secret) r w)"
  shows "guarded (api_server l secret spa) acc h r w = (Ok (refusal (identity (api_tokenManager l secret) r w)), w)"
proof (cases "identity (api_tokenManager l secret) r w")
  case None
  have "RequireAuth (api_tokenManager l secret) g r w = (Ok (writeError 401 ''unauthorized''), w)" for g
    using None api_Verify_world [OF assms(1), of secret "fst (bearerToken (rq_Authorization r))" w]
    by (cases "bearerToken (rq_Authorization r)") (auto simp: RequireAuth_def identity_def split: prod.splits res.splits if_splits)
  with None assms(2) show ?thesis by (cases acc) (simp_all add: may_reach_def refusal_def)
next
  case (Some c)
  with assms(2) obtain rs where rs: "acc = AnyOf rs" "tc_Role c \<notin> set rs" by (auto simp: may_reach_def split: access.splits)
  have "snd (tok_Verify (api_tokenManager l secret) tok w) = w" for tok
    using api_Verify_world [OF assms(1) surjective_pairing] by blast
  with forbidden_before_limit [of "api_server l secret spa" r w c rs h] Some rs show ?thesis by (simp add: refusal_def)
qed

lemma accepted_world: "\<exists>es. accepted (api_server l secret spa) w = w\<lparr>w_entropy := es\<rparr>"
proof -
  obtain x w1 where x: "world_rand 16 w = (x, w1)" by fastforce
  then have "\<exists>es. w1 = w\<lparr>w_entropy := es\<rparr>"
    by (auto simp: world_rand_def split: list.splits option.splits intro: exI [of _ "w_entropy w"])
  with x show ?thesis by (auto simp: accepted_def world_now_def NewID_def split: option.splits)
qed

lemma request_refused:
  assumes "jwt_total (lib_jwt l)" "lookup_route routes (rq_Method r) (rq_Path r) = Some (acc, e, vs)"
    and "cleanPath (rq_Path r) = rq_Path r" "\<not> may_reach acc (identity (api_tokenManager l secret) r w)"
  shows "\<exists>line. Routes (api_server l secret spa) r w = (Ok (refusal (identity (api_tokenManager l secret) r w)),
    (accepted (api_server l secret spa) w)\<lparr>w_log := w_log w @ [line]\<rparr>)"
proof -
  obtain rid w2 where n: "NewID world_rand w = (rid, w2)" by fastforce
  then have w2: "accepted (api_server l secret spa) w = w2" by (simp add: accepted_def world_now_def)
  let ?r = "r\<lparr>rq_Ctx := WithRequestID (rq_Ctx r) rid\<rparr>"
  have i: "identity (api_tokenManager l secret) (?r\<lparr>rq_PathValue := vs\<rparr>) w2 = identity (api_tokenManager l secret) r w"
    using identity_clock [of w2 w l secret "?r\<lparr>rq_PathValue := vs\<rparr>"] accepted_clock [of l secret spa w] w2
    by (simp add: identity_def [of _ r] identity_def [of _ "?r\<lparr>rq_PathValue := vs\<rparr>"])
  have "dispatch (api_server l secret spa) (handler_of (api_server l secret spa)) ?r w2 =
      (Ok (refusal (identity (api_tokenManager l secret) r w)), w2)"
    using guarded_refused [OF assms(1), of acc secret "?r\<lparr>rq_PathValue := vs\<rparr>" w2] assms(2-4) i
    by (simp add: dispatch_def Let_def)
  moreover obtain es where "w2 = w\<lparr>w_entropy := es\<rparr>" using accepted_world w2 by blast
  ultimately show ?thesis using n
    by (auto simp: w2 Routes_def logging_def recover_panics_def Let_def world_now_def log_Info_def world_log_def)
qed

text \<open>Every request is answered, and the access log ends with a line that carries the status.\<close>

lemma emitEvent_no_Err: "fst (emitEvent k t a sg an ev i s) \<noteq> Err e"
  by (auto simp: emitEvent_def split: option.splits prod.splits res.splits)

lemma answer_no_Err: "(\<And>x. good x \<noteq> Err e) \<Longrightarrow> fst (answer_with bad good out) \<noteq> Err e"
  by (cases out; cases "fst out") auto

lemma handler_no_Err: "fst (handler_of srv ep r s) \<noteq> Err e"
  by (cases ep) (auto simp: handler_defs tenant_scoped_def with_body_def Let_def answer_no_Err split: option.splits)

lemma limited_no_Err: "(\<And>s. fst (h r s) \<noteq> Err e) \<Longrightarrow> fst (limited srv n h r s) \<noteq> Err e"
  by (auto simp: limited_def rateLimit_def emitRateLimitExceeded_def EmitSignal_def Let_def bindR_def
      split: option.splits prod.splits res.splits) (metis emitEvent_no_Err fst_conv)

lemma RequireAuth_no_Err: "(\<And>r s. fst (h r s) \<noteq> Err e) \<Longrightarrow> fst (RequireAuth tm h r s) \<noteq> Err e"
  by (auto simp: RequireAuth_def split: prod.splits res.splits)

lemma guarded_no_Err:
  assumes "\<And>r s. fst (h r s) \<noteq> Err e"
  shows "fst (guarded srv acc h r s) \<noteq> Err e"
proof -
  have l: "fst (limited srv n h r s) \<noteq> Err e" for n r s by (rule limited_no_Err) (rule assms)
  then have "fst (RequireRole rs (limited srv n h) r s) \<noteq> Err e" for rs n r s by (simp add: RequireRole_def)
  with l assms show ?thesis by (cases acc) (simp_all add: RequireAuth_no_Err)
qed

lemma dispatch_no_Err: "fst (dispatch srv (handler_of srv) r s) \<noteq> Err e"
proof -
  have "fst (guarded srv acc (handler_of srv ep) r s) \<noteq> Err e" for acc ep r s
    by (rule guarded_no_Err) (rule handler_no_Err)
  then show ?thesis by (simp add: dispatch_def Let_def split: option.split prod.split)
qed

lemma Routes_answers:
  "\<exists>resp w2 attrs. Routes srv r w = (Ok resp, log_Info (srv_log srv) ''http'' attrs w2) \<and>
     map_of attrs ''status'' = Some (LInt (rs_Status resp)) \<and> map_of attrs ''path'' = Some (LStr (rq_Path r))"
proof -
  obtain start w0 where t: "srv_now srv w = (start, w0)" by fastforce
  obtain rid w1 where n: "NewID (srv_rand srv) w0 = (rid, w1)" by fastforce
  let ?r = "r\<lparr>rq_Ctx := WithRequestID (rq_Ctx r) rid\<rparr>"
  obtain x w2 where d: "recover_panics (srv_log srv) (dispatch srv (handler_of srv)) ?r w1 = (x, w2)"
    by fastforce
  then have "\<exists>resp. x = Ok resp"
    using dispatch_no_Err [of srv ?r w1] by (cases x) (auto simp: recover_panics_def split: prod.splits res.splits)
  then obtain resp where "x = Ok resp" ..
  moreover obtain stop w3 where "srv_now srv w2 = (stop, w3)" by fastforce
  ultimately show ?thesis using t n d by (intro exI [of _ resp] exI [of _ w3] exI [of _ "[(''method'', LStr (rq_Method r)), (''path'', LStr (rq_Path r)),
        (''status'', LInt (rs_Status resp)), (''duration_ms'', LInt (quot (stop - start) Millisecond)),
        (''remote'', LStr (rq_RemoteAddr r)), (''request_id'', LStr rid)]"])
      (simp add: Routes_def logging_def Let_def)
qed

end
