(* ===== verification/Api_Live.thy ===== *)
theory Api_Live
  imports Access
begin

text \<open>
  A request that nothing stands in the way of succeeds: the middleware passes an identified caller with
  budget left on to its handler (\<open>Routes_reached\<close>), and a lot posted to the API is stored and answered
  with 201 (\<open>lot_created\<close>).
\<close>

lemma Verify_world: "snd (tok_Verify (api_tokenManager l secret) tok w) = w"
  by (simp add: api_tokenManager_def jwt_manager_def TokenManager_Verify_def world_now_def Let_def split: res.splits option.splits prod.splits)

lemma Allow_entropy: "world_Allow k n d (w\<lparr>w_entropy := es\<rparr>) = (fst (world_Allow k n d w), (snd (world_Allow k n d w))\<lparr>w_entropy := es\<rparr>)"
  by (simp add: world_Allow_def Let_def case_prod_unfold)

lemma Allow_keeps: "\<exists>li. snd (world_Allow k n d w) = w\<lparr>w_limiter := li\<rparr>"
  by (simp add: world_Allow_def Let_def case_prod_unfold) blast

text \<open>The request the handler of an authenticated endpoint gets.\<close>

definition identified :: "Request \<Rightarrow> string \<Rightarrow> TokenClaims \<Rightarrow> (string \<times> string) list \<Rightarrow> Request" where
  "identified r rid c vs = r\<lparr>rq_PathValue := vs,
     rq_Ctx := WithIdentity (WithRequestID (rq_Ctx r) rid) (tc_UserID c) (tc_TenantID c) (tc_Role c)\<rparr>"

lemma Routes_reached:
  assumes "lookup_route routes (rq_Method r) (rq_Path r) = Some (Authenticated, e, vs)" "rq_Method r \<noteq> ''CONNECT''"
    and "cleanPath (rq_Path r) = rq_Path r" "has_prefix (rq_Path r) ''/api/v1/''" "rq_Path r \<notin> session_paths" "rq_Path r \<noteq> ''/healthz''"
    and "rq_Ctx r = Background" "identity (api_tokenManager l secret) r w = Some c" "tc_TenantID c \<noteq> []" "tc_UserID c \<noteq> []"
    and "rlr_Allowed (fst (world_Allow (''rl:api:'' @ tc_TenantID c @ '':'' @ tc_UserID c) 120 Minute w))"
    and "w_entropy w = b # es"
    and "\<And>rid li. \<exists>w'. handler_of (api_server l secret spa) e (identified r rid c vs) (w\<lparr>w_entropy := es, w_limiter := li\<rparr>) = (Ok (resp rid li), w') \<and> P w'"
    and "\<And>w' line. P w' \<Longrightarrow> P (w'\<lparr>w_log := line\<rparr>)"
  shows "\<exists>rid li w'. Routes (api_server l secret spa) r w = (Ok (resp rid li), w') \<and> P w'"
proof -
  obtain rid where n: "NewID world_rand w = (rid, w\<lparr>w_entropy := es\<rparr>)"
    using assms(12) by (cases b) (auto simp: NewID_def world_rand_def)
  let ?w = "w\<lparr>w_entropy := es\<rparr>" and ?r = "r\<lparr>rq_Ctx := WithRequestID (rq_Ctx r) rid\<rparr>"
  let ?r' = "?r\<lparr>rq_PathValue := vs\<rparr>" and ?key = "''rl:api:'' @ tc_TenantID c @ '':'' @ tc_UserID c"
  obtain li where li: "snd (world_Allow ?key 120 Minute w) = w\<lparr>w_limiter := li\<rparr>" using Allow_keeps by blast
  have "identity (api_tokenManager l secret) ?r' ?w = identity (api_tokenManager l secret) ?r' w" by (rule identity_clock) simp
  also have "\<dots> = identity (api_tokenManager l secret) r w" by (simp add: identity_def)
  finally have i: "identity (api_tokenManager l secret) ?r' ?w = Some c" using assms(8) by simp
  let ?q = "identified r rid c vs"
  have q: "?r'\<lparr>rq_Ctx := WithIdentity (rq_Ctx ?r') (tc_UserID c) (tc_TenantID c) (tc_Role c)\<rparr> = ?q"
    by (simp add: identified_def)
  have key: "deriveRateLimitKey ?q = ?key"
    using assms(4,5,9,10) by (subst api_key) (auto simp: identified_def session_paths_def)
  have allow: "world_Allow ?key 120 Minute ?w = (fst (world_Allow ?key 120 Minute w), w\<lparr>w_entropy := es, w_limiter := li\<rparr>)"
    unfolding Allow_entropy li by simp
  obtain w' where h: "handler_of (api_server l secret spa) e ?q (w\<lparr>w_entropy := es, w_limiter := li\<rparr>) = (Ok (resp rid li), w')" and P: "P w'"
    using assms(13) by blast
  have "limited (api_server l secret spa) 120 (handler_of (api_server l secret spa) e) ?q ?w = (Ok (resp rid li), w')"
    using assms(6,11) allow h key
    by (simp add: limited_def rateLimit_def Let_def identified_def)
  then have "dispatch (api_server l secret spa) (handler_of (api_server l secret spa)) ?r ?w = (Ok (resp rid li), w')"
    using assms(1-3) RequireAuth_identified [OF i] q by (simp add: dispatch_def Let_def Verify_world)
  then show ?thesis using n P assms(14)
    by (intro exI [of _ rid] exI [of _ li]) (simp add: Routes_def logging_def recover_panics_def Let_def world_now_def log_Info_def world_log_def)
qed

text \<open>A body that decodes to a valid lot.\<close>

definition new_lot :: "PG \<Rightarrow> world \<Rightarrow> string \<Rightarrow> createLotRequest \<Rightarrow> byte list \<Rightarrow> rat \<Rightarrow> Lot" where
  "new_lot pg w t req b1 area = \<lparr>l_ID = uuid_string (uuid_bits b1), l_TenantID = t, l_Name = clr_Name req, l_AreaHA = area,
     l_Crop = clr_Crop req, l_CreatedAt = pg_ts pg (w_clock w), l_UpdatedAt = pg_ts pg (w_clock w)\<rparr>"

lemma business_lots: "business w' = business w'' \<Longrightarrow> lots (w_db w') = lots (w_db w'')"
  by (drule arg_cong [where f = lots]) (simp add: business_def)

lemma lot_stored:
  assumes "w_faults w = []" "canonical_tenant (lib_pg l) t" "t \<in> t_ID ` set (tenants (w_db w))"
    and "n \<noteq> []" "0 \<le> ar" "list_all (pg_text (lib_pg l)) [n, cr]" "pg_numeric (lib_pg l) ar = Some area"
    and "w_entropy w = Some b1 # es" "length b1 = 16" "canonical_id (lib_pg l) (uuid_string (uuid_bits b1))"
    and "uuid_string (uuid_bits b1) \<notin> l_ID ` set (lots (w_db w))"
  shows "\<exists>w'. los_Create (api_lots l) t a n ar cr w = (Ok \<lparr>l_ID = uuid_string (uuid_bits b1), l_TenantID = t, l_Name = n, l_AreaHA = ar,
      l_Crop = cr, l_CreatedAt = w_clock w, l_UpdatedAt = w_clock w\<rparr>, w') \<and>
    lots (w_db w') = lots (w_db w) @ [\<lparr>l_ID = uuid_string (uuid_bits b1), l_TenantID = t, l_Name = n, l_AreaHA = area,
      l_Crop = cr, l_CreatedAt = pg_ts (lib_pg l) (w_clock w), l_UpdatedAt = pg_ts (lib_pg l) (w_clock w)\<rparr>]"
proof -
  let ?lot = "\<lparr>l_ID = uuid_string (uuid_bits b1), l_TenantID = t, l_Name = n, l_AreaHA = ar, l_Crop = cr,
    l_CreatedAt = w_clock w, l_UpdatedAt = w_clock w\<rparr>"
  let ?row = "\<lparr>l_ID = uuid_string (uuid_bits b1), l_TenantID = t, l_Name = n, l_AreaHA = area, l_Crop = cr,
    l_CreatedAt = pg_ts (lib_pg l) (w_clock w), l_UpdatedAt = pg_ts (lib_pg l) (w_clock w)\<rparr>"
  let ?w1 = "w\<lparr>w_entropy := es\<rparr>" let ?w2 = "?w1\<lparr>w_db := (w_db w)\<lparr>lots := lots (w_db w) @ [?row]\<rparr>\<rparr>"
  have t: "t \<noteq> []" "pg_uuid (lib_pg l) t = Some t" using assms(2) by (simp_all add: canonical_tenant_def)
  have u: "newUUIDish world_rand w = (Ok (uuid_string (uuid_bits b1)), ?w1)"
    using assms(8,9) by (simp add: newUUIDish_def world_rand_def)
  have fresh: "l_ID r \<noteq> uuid_string (uuid_bits b1)" if "r \<in> set (lots (w_db w))" for r using assms(11) that by (metis image_eqI)
  have "lot_insert (lib_pg l) ?lot (Some t) now (w_db w) = (Ok (), (w_db w)\<lparr>lots := lots (w_db w) @ [?row\<lparr>l_CreatedAt := now, l_UpdatedAt := now\<rparr>]\<rparr>)" for now
    unfolding lot_insert_def insert_stmt_Ok using t fresh assms(3,6,7,10) by (auto simp: canonical_id_def)
  then have c: "LotRepo_Create (lib_pg l) ?lot ?w1 = (Ok (), ?w2)"
    using assms(1) t by (simp add: LotRepo_Create_def WithTenant_clean rls_exec_clean roundtrip_clean)
  obtain s where e: "emitEvent (Some (api_signals l)) t a [] False (info_event ''lot.create'') [] ?w2 = (Ok (), s)"
    using api_sink.emitEvent_fail_open [of l t a "[]" False "info_event ''lot.create''" "[]" ?w2] by (metis prod.collapse)
  then have "lots (w_db s) = lots (w_db ?w2)"
    using api_sink.emitEvent_core [of l t a "[]" False "info_event ''lot.create''" "[]" ?w2] by (intro business_lots) simp
  then show ?thesis
    using assms(4,5) t(1) u c e
    by (simp add: api_lots_def NewLotService_def LotService_Create_def NewLotRepo_def Let_def world_now_def)
qed

lemma lot_created:
  assumes "rq_Method r = ''POST''" "rq_Path r = ''/api/v1/lots''" "rq_Ctx r = Background"
    and "identity (api_tokenManager l secret) r w = Some c" "canonical_tenant (lib_pg l) (tc_TenantID c)" "tc_UserID c \<noteq> []"
    and "tc_TenantID c \<in> t_ID ` set (tenants (w_db w))"
    and "rlr_Allowed (fst (world_Allow (''rl:api:'' @ tc_TenantID c @ '':'' @ tc_UserID c) 120 Minute w))"
    and "Decode createLotRequest_fields \<lparr>clr_Name = [], clr_AreaHA = 0, clr_Crop = []\<rparr> (rq_Body r) = Some req"
    and "clr_Name req \<noteq> []" "0 \<le> clr_AreaHA req" "list_all (pg_text (lib_pg l)) [clr_Name req, clr_Crop req]"
    and "pg_numeric (lib_pg l) (clr_AreaHA req) = Some area"
    and "w_faults w = []" "w_entropy w = b0 # Some b1 # es" "length b1 = 16"
    and "canonical_id (lib_pg l) (uuid_string (uuid_bits b1))" "uuid_string (uuid_bits b1) \<notin> l_ID ` set (lots (w_db w))"
  shows "\<exists>w'. Routes (api_server l secret spa) r w = (Ok (writeJSON 201 (toLotResponse ((new_lot (lib_pg l) w (tc_TenantID c) req b1 (clr_AreaHA req))
      \<lparr>l_CreatedAt := w_clock w, l_UpdatedAt := w_clock w\<rparr>))), w') \<and>
    lots (w_db w') = lots (w_db w) @ [new_lot (lib_pg l) w (tc_TenantID c) req b1 area]"
proof -
  let ?t = "tc_TenantID c"
  let ?resp = "writeJSON 201 (toLotResponse ((new_lot (lib_pg l) w ?t req b1 (clr_AreaHA req))\<lparr>l_CreatedAt := w_clock w, l_UpdatedAt := w_clock w\<rparr>))"
  let ?P = "\<lambda>w'. lots (w_db w') = lots (w_db w) @ [new_lot (lib_pg l) w ?t req b1 area]"
  have t: "?t \<noteq> []" using assms(5) by (simp add: canonical_tenant_def)
  have "\<exists>w'. handler_of (api_server l secret spa) LotsCreate (identified r rid c []) (w\<lparr>w_entropy := Some b1 # es, w_limiter := li\<rparr>) = (Ok ?resp, w') \<and> ?P w'"
    for rid li
    using lot_stored [of "w\<lparr>w_entropy := Some b1 # es, w_limiter := li\<rparr>" l ?t "clr_Name req" "clr_AreaHA req" "clr_Crop req" area b1 es "tc_UserID c"] assms t
    by (auto simp: LotsHandler_Create_def tenant_scoped_def with_body_def identified_def new_lot_def)
  moreover have "lookup_route routes (rq_Method r) (rq_Path r) = Some (Authenticated, LotsCreate, [])"
    unfolding assms(1,2) by (simp add: routes_def method_matches_def)
  moreover have "cleanPath (rq_Path r) = rq_Path r" unfolding assms(2) by code_simp
  ultimately have "\<exists>(rid :: string) (li :: RateLimiter) w'. Routes (api_server l secret spa) r w = (Ok ?resp, w') \<and> ?P w'"
    using assms t by (intro Routes_reached [where e = LotsCreate and vs = "[]" and c = c and b = b0 and es = "Some b1 # es"])
      (simp_all add: has_prefix_def session_paths_def)
  then show ?thesis by blast
qed

end
