(* ===== verification/Api_Budget.thy ===== *)
theory Api_Budget
  imports Api_Live
begin

text \<open>
  Requests over budget. \<open>counted\<close> is the key and the limit that a request counts against once its route,
  its token and its role let it through; when the limiter refuses that key the answer is a 429 with
  the seconds to wait, no handler runs, and no record, account or session changes.
\<close>

definition counted :: "libs \<Rightarrow> string \<Rightarrow> Request \<Rightarrow> world \<Rightarrow> (string \<times> int) option" where
  "counted l secret r w =
     (if cleanPath (rq_Path r) \<noteq> rq_Path r then None
      else case lookup_route routes (rq_Method r) (rq_Path r) of
        None \<Rightarrow> None
      | Some (acc, e, vs) \<Rightarrow>
          let i = identity (api_tokenManager l secret) r w in
          if \<not> may_reach acc i then None
          else case acc of
            Public \<Rightarrow> None
          | PerIP n \<Rightarrow> Some (''rl:auth:'' @ stripPort (rq_RemoteAddr r), n)
          | _ \<Rightarrow> (case i of None \<Rightarrow> None
              | Some c \<Rightarrow> if tc_TenantID c = [] \<or> tc_UserID c = [] then None
                  else Some (''rl:api:'' @ tc_TenantID c @ '':'' @ tc_UserID c, 120)))"

definition too_many :: "duration \<Rightarrow> Response" where
  "too_many d = (writeError 429 ''rate limited'')\<lparr>rs_Header :=
     [(''Retry-After'', formatRetryAfter d), (''Content-Type'', ''application/json'')]\<rparr>"

text \<open>The paths of the API's own routes.\<close>

lemma match_lit: "match_segments False (Lit a # ps) segs = Some vs \<Longrightarrow> \<exists>ys. segs = a # ys \<and> match_segments False ps ys = Some vs"
  by (cases segs) (auto split: if_splits)

lemma match_some: "match_segments False (p # ps) segs = Some vs \<Longrightarrow> segs \<noteq> []"
  by (cases p) auto

lemma lookup_route_method:
  "lookup_route rs m path = Some (acc, e, vs) \<Longrightarrow> \<exists>m' pat. (m', pat, acc, e) \<in> set rs \<and> method_matches m' m"
  by (induction rs m path rule: lookup_route.induct) (auto split: option.splits if_splits)

lemma api_route_path:
  assumes "lookup_route routes m path = Some (acc, e, vs)" "acc = Authenticated \<or> (\<exists>rs. acc = AnyOf rs)"
  shows "has_prefix path ''/api/v1/'' \<and> path \<notin> session_paths \<and> path \<noteq> ''/healthz''"
proof -
  from lookup_route_match [OF assms(1)] obtain m' pat where
    pat: "(m', pat, acc, e) \<in> set routes" "match_pattern pat path = Some vs" by blast
  from pat(1) assms(2) obtain s ss where s: "pat = api (s # ss)" by (auto simp: routes_def)
  with pat(2) obtain segs where segs: "split_path path = [] # segs" "match_segments False ([Lit ''api'', Lit ''v1''] @ s # ss) segs = Some vs"
    by (auto split: list.splits)
  then obtain ys where "segs = ''api'' # ''v1'' # ys" "match_segments False (s # ss) ys = Some vs" by (auto dest!: match_lit)
  with segs match_some [of s ss ys vs] obtain x xs where "split_path path = [] # ''api'' # ''v1'' # x # xs" by (cases ys) auto
  then have path: "path = ''/api/v1/'' @ strings_Join (x # xs) ''/''" using split_path_join [of path] by simp
  moreover have "path \<notin> session_paths"
  proof
    assume "path \<in> session_paths"
    from session_route_unique [OF assms(1) this] lookup_access [OF assms(1)] assms(2) show False by auto
  qed
  ultimately show ?thesis by (simp add: has_prefix_def)
qed

lemma per_ip_route:
  assumes "lookup_route routes m path = Some (PerIP n, e, vs)"
  shows "path \<in> session_paths"
proof (rule session_route [OF assms])
  show "e \<in> {AuthLogin, AuthRefresh}" using lookup_access [OF assms] by (cases e) auto
qed

lemma connect_route: "lookup_route routes ''CONNECT'' path = None"
proof (rule ccontr)
  assume "lookup_route routes ''CONNECT'' path \<noteq> None"
  then obtain m' pat acc e where "(m', pat, acc, e) \<in> set routes" "method_matches m' ''CONNECT''"
    using lookup_route_method by (metis not_None_eq prod.collapse)
  then show False by (auto simp: routes_def method_matches_def)
qed

text \<open>What the global middleware adds to an answer.\<close>

lemma Routes_answered:
  assumes "\<And>rid es. \<exists>w'. dispatch srv (handler_of srv) (r\<lparr>rq_Ctx := WithRequestID (rq_Ctx r) rid\<rparr>) (w\<lparr>w_entropy := es\<rparr>) = (Ok resp, w') \<and> P w'"
    and "\<And>w' ls. P w' \<Longrightarrow> P (w'\<lparr>w_log := ls\<rparr>)"
    and "srv_log srv = world_log" "srv_now srv = world_now" "srv_rand srv = world_rand"
  shows "\<exists>w'. Routes srv r w = (Ok resp, w') \<and> P w'"
proof -
  obtain rid es where n: "NewID world_rand w = (rid, w\<lparr>w_entropy := es\<rparr>)"
  proof (cases "w_entropy w")
    case Nil
    then have "NewID world_rand w = (''unknown'', w\<lparr>w_entropy := []\<rparr>)" by (cases w) (simp add: NewID_def world_rand_def)
    then show ?thesis by (rule that)
  next
    case (Cons b bs)
    then show ?thesis using that by (cases b) (auto simp: NewID_def world_rand_def)
  qed
  from assms(1) [of rid es] obtain w' where
    "dispatch srv (handler_of srv) (r\<lparr>rq_Ctx := WithRequestID (rq_Ctx r) rid\<rparr>) (w\<lparr>w_entropy := es\<rparr>) = (Ok resp, w')" "P w'" by blast
  with assms(2-) n show ?thesis
    by (simp add: Routes_def logging_def recover_panics_def Let_def world_now_def log_Info_def world_log_def)
qed

lemma blocked:
  assumes "deriveRateLimitKey r = key" "key \<noteq> []" "rq_Path r \<noteq> ''/healthz''" "\<not> rlr_Allowed (fst (world_Allow key n Minute w))"
  shows "\<exists>w'. limited (api_server l secret spa) n h r w = (Ok (too_many (rlr_RetryAfter (fst (world_Allow key n Minute w)))), w') \<and>
    business w' = business w"
proof -
  obtain res w1 where a: "world_Allow key n Minute w = (res, w1)" by fastforce
  let ?emit = "emitRateLimitExceeded (api_server l secret spa) r w1"
  have "fst ?emit = Ok ()" "business (snd ?emit) = business w1"
    by (simp_all add: emitRateLimitExceeded_def Let_def api_sink.EmitSignal_fail_open api_sink.EmitSignal_core)
  then obtain w2 where w2: "?emit = (Ok (), w2)" "business w2 = business w1" by (metis prod.collapse)
  have "business w1 = business w" using a w_db_Allow [of key n Minute w] by (simp add: business_def)
  with w2 a assms show ?thesis by (simp add: limited_def rateLimit_def Let_def too_many_def)
qed


lemma over_budget:
  assumes "counted l secret r w = Some (key, n)" "rq_Ctx r = Background" "\<not> rlr_Allowed (fst (world_Allow key n Minute w))"
  shows "\<exists>w'. Routes (api_server l secret spa) r w = (Ok (too_many (rlr_RetryAfter (fst (world_Allow key n Minute w)))), w') \<and>
    business w' = business w"
proof (rule Routes_answered)
  fix rid es
  let ?srv = "api_server l secret spa" and ?w = "w\<lparr>w_entropy := es\<rparr>"
  from assms(1) obtain acc e vs where route: "lookup_route routes (rq_Method r) (rq_Path r) = Some (acc, e, vs)"
    and path: "cleanPath (rq_Path r) = rq_Path r" and reach: "may_reach acc (identity (api_tokenManager l secret) r w)"
    by (auto simp: counted_def Let_def split: if_splits option.splits)
  let ?r = "r\<lparr>rq_Ctx := WithRequestID (rq_Ctx r) rid, rq_PathValue := vs\<rparr>"
  have d: "dispatch ?srv (handler_of ?srv) (r\<lparr>rq_Ctx := WithRequestID (rq_Ctx r) rid\<rparr>) ?w = guarded ?srv acc (handler_of ?srv e) ?r ?w"
    using route path connect_route [of "rq_Path r"] by (auto simp: dispatch_def Let_def)
  have allow: "world_Allow key n Minute ?w = (fst (world_Allow key n Minute w), (snd (world_Allow key n Minute w))\<lparr>w_entropy := es\<rparr>)"
    by (rule Allow_entropy)
  have no: "\<not> rlr_Allowed (fst (world_Allow key n Minute ?w))" using assms(3) by (simp add: allow)
  have "\<exists>w'. guarded ?srv acc (handler_of ?srv e) ?r ?w = (Ok (too_many (rlr_RetryAfter (fst (world_Allow key n Minute ?w)))), w') \<and> business w' = business ?w"
  proof (cases "\<exists>m. acc = PerIP m")
    case True
    then obtain m where m: "acc = PerIP m" by blast
    from per_ip_route route m have "rq_Path r \<in> session_paths" by blast
    moreover have "key = ''rl:auth:'' @ stripPort (rq_RemoteAddr r)" "n = m"
      using assms(1) route path reach by (simp_all add: counted_def m Let_def)
    ultimately show ?thesis using blocked [OF _ _ _ no, of ?r l secret spa "handler_of ?srv e"]
      by (auto simp: m deriveRateLimitKey_def session_paths_def)
  next
    case False
    with assms(1) route path reach obtain c where i: "identity (api_tokenManager l secret) r w = Some c"
      and c: "tc_TenantID c \<noteq> []" "tc_UserID c \<noteq> []" "key = ''rl:api:'' @ tc_TenantID c @ '':'' @ tc_UserID c" "n = 120"
      and acc: "acc = Authenticated \<or> (\<exists>rs. acc = AnyOf rs)"
      by (auto simp: counted_def Let_def split: access.splits option.splits if_splits)
    let ?q = "identified r rid c vs"
    have "identity (api_tokenManager l secret) ?r ?w = identity (api_tokenManager l secret) ?r w" by (rule identity_clock) simp
    also have "\<dots> = identity (api_tokenManager l secret) r w" by (simp add: identity_def)
    finally have i': "identity (api_tokenManager l secret) ?r ?w = Some c" using i by simp
    have q: "?r\<lparr>rq_Ctx := WithIdentity (rq_Ctx ?r) (tc_UserID c) (tc_TenantID c) (tc_Role c)\<rparr> = ?q" by (simp add: identified_def)
    have "deriveRateLimitKey ?q = key"
      using api_route_path [OF route acc] c assms(2) by (subst api_key) (auto simp: identified_def session_paths_def)
    then obtain w' where "limited ?srv n (handler_of ?srv e) ?q ?w = (Ok (too_many (rlr_RetryAfter (fst (world_Allow key n Minute ?w)))), w')"
        "business w' = business ?w"
      using blocked [OF _ _ _ no, of ?q l secret spa "handler_of ?srv e"] api_route_path [OF route acc] c(3) by (auto simp: identified_def)
    moreover have "guarded ?srv acc (handler_of ?srv e) ?r ?w = limited ?srv n (handler_of ?srv e) ?q ?w"
      using acc reach i q RequireAuth_identified [OF i'] by (auto simp: c(4) Verify_world RequireRole_def may_reach_def identified_def)
    ultimately show ?thesis by auto
  qed
  then show "\<exists>w'. dispatch ?srv (handler_of ?srv) (r\<lparr>rq_Ctx := WithRequestID (rq_Ctx r) rid\<rparr>) ?w =
      (Ok (too_many (rlr_RetryAfter (fst (world_Allow key n Minute w)))), w') \<and> business w' = business w"
    by (simp add: d allow business_def)
qed (simp_all add: business_def)

end
