(* ===== verification/Startup.thy ===== *)
theory Startup
  imports Api_Server
begin

text \<open>
  \<open>run\<close> in \<^verbatim>\<open>cmd/api/main.go\<close>, first half, up to the handler that \<open>http.Server\<close> is given: the configuration
  from the environment, PostgreSQL as a hard dependency, Redis as a soft one, the check of the signing
  secret. What the environment and the two drivers answer is the parameter \<open>outside\<close>: an
  error or none for parsing the address, making the pool and each ping.
\<close>

record outside =
  os_Getenv :: "string \<Rightarrow> string"
  pgx_ParseConfig :: "string \<Rightarrow> go_error option"
  pgx_NewWithConfig :: "string \<Rightarrow> go_error option"
  pgx_Ping :: "string \<Rightarrow> go_error option"
  redis_Ping :: "string \<Rightarrow> go_error option"

record config =
  cfg_databaseURL :: string
  cfg_redisAddr :: string
  cfg_jwtSecret :: string
  cfg_httpAddr :: string

definition loadConfig :: "outside \<Rightarrow> config" where
  "loadConfig out =
     \<lparr>cfg_databaseURL = os_Getenv out ''DATABASE_URL'', cfg_redisAddr = os_Getenv out ''REDIS_ADDR'',
      cfg_jwtSecret = os_Getenv out ''JWT_SECRET'', cfg_httpAddr = os_Getenv out ''HTTP_ADDR''\<rparr>"

definition NewPool :: "outside \<Rightarrow> string \<Rightarrow> unit res" where
  "NewPool out dsn = (case pgx_ParseConfig out dsn of
      Some e \<Rightarrow> Err (Errorf ''parse dsn'' e)
    | None \<Rightarrow> (case pgx_NewWithConfig out dsn of
        Some e \<Rightarrow> Err (Errorf ''create pool'' e)
      | None \<Rightarrow> (case pgx_Ping out dsn of
          Some e \<Rightarrow> Err (Errorf ''ping'' e)
        | None \<Rightarrow> Ok ())))"

definition NewClient :: "outside \<Rightarrow> string \<Rightarrow> unit res" where
  "NewClient out addr = (case redis_Ping out addr of Some e \<Rightarrow> Err e | None \<Rightarrow> Ok ())"

text \<open>The limiter of a new process: empty, on Redis when there is a client.\<close>

definition with_limiter :: "bool \<Rightarrow> world \<Rightarrow> world" where
  "with_limiter client w = w\<lparr>w_limiter := NewRateLimiter client (rl_replies (w_limiter w))\<rparr>"

definition api_run :: "outside \<Rightarrow> libs \<Rightarrow> (Request \<Rightarrow> Response) \<Rightarrow> world \<Rightarrow> (string \<times> (Request \<Rightarrow> world \<Rightarrow> Response res \<times> world)) res \<times> world" where
  "api_run out l spa w =
     (let cfg = loadConfig out in
      if cfg_databaseURL cfg = [] then (Err (ErrText ''DATABASE_URL is not set (see .env.example)''), w)
      else bindR (wrapR ''connect postgres'' (NewPool out (cfg_databaseURL cfg), w)) (\<lambda>_ w.
        let w1 = log_Info world_log ''postgres connected'' [] w;
            (client, w2) = (case NewClient out (cfg_redisAddr cfg) of
                Err e \<Rightarrow> (False, log_Warn world_log ''redis unavailable, continuing without it''
                  [(''addr'', LStr (cfg_redisAddr cfg)), (''error'', LErr e)] w1)
              | _ \<Rightarrow> (True, log_Info world_log ''redis connected'' [(''addr'', LStr (cfg_redisAddr cfg))] w1))
        in if cfg_jwtSecret cfg = [] \<or> cfg_jwtSecret cfg = ''change-me''
           then (Err (ErrText ''JWT_SECRET must be set to a real secret (see .env.example)''), w2)
           else bindR (NewTokenManager (cfg_jwtSecret cfg) accessTokenTTL world_now, w2) (\<lambda>_ w3.
             (Ok (cfg_httpAddr cfg, Routes (api_server l (cfg_jwtSecret cfg) spa)), with_limiter client w3))))"

text \<open>The manager made there is the one of the server.\<close>

lemma NewTokenManager_api:
  "NewTokenManager secret accessTokenTTL world_now = Ok m \<Longrightarrow> jwt_manager (lib_jwt l) m world_now = api_tokenManager l secret"
  by (auto simp: NewTokenManager_def api_tokenManager_def split: if_splits)

section \<open>What starts, and what a start leaves\<close>

lemma NewPool_Ok: "NewPool out dsn = Ok () \<longleftrightarrow> pgx_ParseConfig out dsn = None \<and> pgx_NewWithConfig out dsn = None \<and> pgx_Ping out dsn = None"
  by (auto simp: NewPool_def split: option.splits)

lemma NewPool_no_panic: "NewPool out dsn \<noteq> Panic p"
  by (auto simp: NewPool_def split: option.splits)

lemma with_limiter_sel [simp]: "w_db (with_limiter c w) = w_db w" "w_log (with_limiter c w) = w_log w"
  by (simp_all add: with_limiter_def)

lemma api_run_starts:
  "(\<exists>r w'. api_run out l spa w = (Ok r, w')) \<longleftrightarrow>
     os_Getenv out ''DATABASE_URL'' \<noteq> [] \<and> NewPool out (os_Getenv out ''DATABASE_URL'') = Ok () \<and>
     os_Getenv out ''JWT_SECRET'' \<notin> {[], ''change-me''}"
  using NewPool_no_panic [of out "os_Getenv out ''DATABASE_URL''"]
  by (cases "NewPool out (os_Getenv out ''DATABASE_URL'')")
    (auto simp: api_run_def loadConfig_def Let_def NewTokenManager_def case_prod_unfold)

lemma api_run_server:
  assumes "api_run out l spa w = (Ok (addr, h), w')"
  shows "addr = os_Getenv out ''HTTP_ADDR'' \<and> h = Routes (api_server l (os_Getenv out ''JWT_SECRET'') spa) \<and> w_db w' = w_db w \<and>
    w_limiter w' = NewRateLimiter (NewClient out (os_Getenv out ''REDIS_ADDR'') = Ok ()) (rl_replies (w_limiter w))"
  using assms
  by (auto simp: api_run_def loadConfig_def Let_def NewClient_def log_defs world_log_def with_limiter_def
      elim!: bindR_OkE split: if_splits option.splits)

lemma api_run_db: "w_db (snd (api_run out l spa w)) = w_db w"
  by (cases "NewPool out (os_Getenv out ''DATABASE_URL'')")
    (auto simp: api_run_def loadConfig_def Let_def NewTokenManager_def NewClient_def log_defs split: option.splits)

end
