(* ===== verification/Api_Steps.thy ===== *)
theory Api_Steps
  imports Access
begin

text \<open>
  What a request may do to the database, as an abstract machine. \<open>api_step e cur\<close> is one step an
  endpoint \<open>e\<close> may take for the tenant \<open>cur\<close> of its token: a row of that tenant that passes the
  validation of the domain enters its table under a fresh key, a row is changed or removed, a role is
  granted to an account of the tenant, a session is opened or closed, or an event that continues
  the tenant's audit trail is appended. \<open>request_steps\<close> is the refinement: whatever the request, the
  clock, the entropy and the failures of the server, the database a request leaves behind is reached
  by such steps. \<open>db_typed\<close> is the invariant of the machine.
\<close>

section \<open>The machine\<close>

text \<open>The newest row of a trail, and the row that may follow it.\<close>

definition newest :: "string \<Rightarrow> db \<Rightarrow> audit_row option" where
  "newest t d = (case sort_by (\<lambda>a b. r_seq b \<le> r_seq a) (filter (\<lambda>r. r_tenant_id r = t) (audit_log d)) of
      [] \<Rightarrow> None | r # _ \<Rightarrow> Some r)"

definition follows :: "audit_row option \<Rightarrow> audit_row \<Rightarrow> bool" where
  "follows prev r \<longleftrightarrow> (case prev of
      None \<Rightarrow> r_seq r = 1 \<and> r_prev_hash r = genesisPrevHash
    | Some p \<Rightarrow> r_seq r = r_seq p + 1 \<and> r_prev_hash r = r_chain_hash p)"

definition session_endpoint :: "endpoint option \<Rightarrow> bool" where
  "session_endpoint e \<longleftrightarrow> e = Some AuthLogin \<or> e = Some AuthRefresh"

definition known_tenant :: "db \<Rightarrow> string \<Rightarrow> bool" where
  "known_tenant d t \<longleftrightarrow> t \<in> t_ID ` set (tenants d)"

inductive api_step :: "endpoint option \<Rightarrow> string option \<Rightarrow> db \<Rightarrow> db \<Rightarrow> bool" for e :: "endpoint option" and cur :: "string option" where
  lot_added: "e = Some LotsCreate \<Longrightarrow> policy cur (l_TenantID x) \<Longrightarrow> Lot_IsValid x \<Longrightarrow> known_tenant d (l_TenantID x) \<Longrightarrow>
    \<forall>r \<in> set (lots d). \<not> (l_ID r = l_ID x \<and> l_TenantID r = l_TenantID x) \<Longrightarrow>
    api_step e cur d (d\<lparr>lots := lots d @ [x]\<rparr>)"
| campaign_added: "e = Some CampaignsCreate \<Longrightarrow> policy cur (c_TenantID x) \<Longrightarrow> Campaign_IsValid x \<Longrightarrow> known_tenant d (c_TenantID x) \<Longrightarrow>
    \<forall>r \<in> set (campaigns d). \<not> (c_ID r = c_ID x \<and> c_TenantID r = c_TenantID x) \<Longrightarrow>
    api_step e cur d (d\<lparr>campaigns := campaigns d @ [x]\<rparr>)"
| campaign_changed: "e = Some CampaignsUpdate \<Longrightarrow> policy cur (c_TenantID x) \<Longrightarrow> Campaign_IsValid x \<Longrightarrow>
    api_step e cur d (d\<lparr>campaigns := map (\<lambda>r. if c_ID r = c_ID x \<and> c_TenantID r = c_TenantID x
      then x\<lparr>c_CreatedAt := c_CreatedAt r\<rparr> else r) (campaigns d)\<rparr>)"
| campaign_removed: "e = Some CampaignsDelete \<Longrightarrow>
    api_step e cur d (d\<lparr>campaigns := filter (\<lambda>r. \<not> (policy cur (c_TenantID r) \<and> c_ID r = i)) (campaigns d)\<rparr>)"
| application_added: "e = Some ApplicationsCreate \<Longrightarrow> policy cur (a_TenantID x) \<Longrightarrow> Application_IsValid x \<Longrightarrow>
    a_OperatorName x = [] \<Longrightarrow> operator_exists d x \<Longrightarrow> known_tenant d (a_TenantID x) \<Longrightarrow>
    \<forall>r \<in> set (applications d). \<not> (a_ID r = a_ID x \<and> a_TenantID r = a_TenantID x) \<Longrightarrow>
    api_step e cur d (d\<lparr>applications := applications d @ [x]\<rparr>)"
| application_changed: "e = Some ApplicationsUpdate \<Longrightarrow> policy cur (a_TenantID x) \<Longrightarrow> Application_IsValid x \<Longrightarrow>
    a_OperatorName x = [] \<Longrightarrow> operator_exists d x \<Longrightarrow>
    api_step e cur d (d\<lparr>applications := map (\<lambda>r. if a_ID r = a_ID x \<and> a_TenantID r = a_TenantID x
      then x\<lparr>a_CreatedAt := a_CreatedAt r\<rparr> else r) (applications d)\<rparr>)"
| application_removed: "e = Some ApplicationsDelete \<Longrightarrow>
    api_step e cur d (d\<lparr>applications := filter (\<lambda>r. \<not> (policy cur (a_TenantID r) \<and> a_ID r = i)) (applications d)\<rparr>)"
| user_added: "e = Some UsersCreate \<Longrightarrow> policy cur (u_TenantID x) \<Longrightarrow> User_IsValid x \<Longrightarrow> u_Role x = [] \<Longrightarrow>
    known_tenant d (u_TenantID x) \<Longrightarrow> u_ID x \<notin> u_ID ` set (users d) \<Longrightarrow> u_Email x \<notin> u_Email ` set (users d) \<Longrightarrow>
    api_step e cur d (d\<lparr>users := users d @ [x]\<rparr>)"
| role_granted: "e = Some UsersCreate \<Longrightarrow> policy cur (ur_TenantID m) \<Longrightarrow> IsValidRoleCode (ur_RoleCode m) \<Longrightarrow>
    known_tenant d (ur_TenantID m) \<Longrightarrow> u \<in> set (users d) \<Longrightarrow> u_ID u = ur_UserID m \<Longrightarrow> u_TenantID u = ur_TenantID m \<Longrightarrow>
    \<forall>r \<in> set (user_roles d). \<not> (ur_UserID r = ur_UserID m \<and> ur_RoleCode r = ur_RoleCode m) \<Longrightarrow>
    api_step e cur d (d\<lparr>user_roles := user_roles d @ [m]\<rparr>)"
| user_changed: "e = Some UsersUpdate \<Longrightarrow> u \<in> set (users d) \<Longrightarrow> policy cur (u_TenantID u) \<Longrightarrow> fn \<noteq> [] \<Longrightarrow>
    api_step e cur d (d\<lparr>users := map (\<lambda>r. if u_ID r = u_ID u \<and> u_TenantID r = u_TenantID u
      then r\<lparr>u_Email := u_Email u, u_PasswordHash := u_PasswordHash u, u_FullName := fn, u_IsActive := ac, u_UpdatedAt := now\<rparr> else r) (users d)\<rparr>)"
| session_opened: "session_endpoint e \<Longrightarrow> rr_RevokedAt x = None \<Longrightarrow> rr_ReplacedBy x = [] \<Longrightarrow>
    rr_ID x \<notin> rr_ID ` set (refresh_tokens d) \<Longrightarrow> rr_TokenHash x \<notin> rr_TokenHash ` set (refresh_tokens d) \<Longrightarrow>
    rr_UserID x \<in> u_ID ` set (users d) \<Longrightarrow> known_tenant d (rr_TenantID x) \<Longrightarrow>
    api_step e cur d (d\<lparr>refresh_tokens := refresh_tokens d @ [x]\<rparr>)"
| session_replaced: "session_endpoint e \<Longrightarrow>
    api_step e cur d (d\<lparr>refresh_tokens := revoked_one i next_id now (refresh_tokens d)\<rparr>)"
| family_revoked: "session_endpoint e \<Longrightarrow>
    api_step e cur d (d\<lparr>refresh_tokens := revoked_family f now (refresh_tokens d)\<rparr>)"
| event_logged: "session_endpoint e \<or> policy cur (r_tenant_id row) \<Longrightarrow> known_tenant d (r_tenant_id row) \<Longrightarrow>
    r_id row = audit_serial d \<Longrightarrow> follows (newest (r_tenant_id row) d) row \<Longrightarrow>
    api_step e cur d (d\<lparr>audit_log := audit_log d @ [row], audit_serial := audit_serial d + 1\<rparr>)"

definition api_moves :: "endpoint option \<Rightarrow> string option \<Rightarrow> world \<Rightarrow> world \<Rightarrow> bool" where
  "api_moves e cur w w' \<longleftrightarrow> (api_step e cur)\<^sup>*\<^sup>* (w_db w) (w_db w')"

section \<open>Statements\<close>

text \<open>What the column types keep: a \<open>uuid\<close> prints as a stable non-empty text, a \<open>numeric\<close> keeps the
  sign, a \<open>date\<close> the order.\<close>

definition pg_types :: "PG \<Rightarrow> bool" where
  "pg_types pg \<longleftrightarrow> uuid_stable pg \<and> (\<forall>a b. pg_numeric pg a = Some b \<longrightarrow> 0 \<le> a \<longrightarrow> 0 \<le> b) \<and>
     (\<forall>x y. x \<le> y \<longrightarrow> pg_date pg x \<le> pg_date pg y)"

lemma pg_uuid_nonempty: "pg_types pg \<Longrightarrow> pg_uuid pg i = Some j \<Longrightarrow> j \<noteq> []"
  by (auto simp: pg_types_def uuid_stable_def)

lemma lot_stmt:
  assumes "pg_types pg" "lot_insert pg l cur now d = (Ok x, d')" "Lot_IsValid l"
  shows "api_step (Some LotsCreate) cur d d'"
  using assms pg_uuid_nonempty [OF assms(1)]
  by (auto simp: lot_insert_def insert_stmt_Ok Lot_IsValid_def pg_types_def known_tenant_def split: option.splits
      intro!: api_step.lot_added)

lemma stored_campaign:
  "pg_types pg \<Longrightarrow> Campaign_IsValid c \<Longrightarrow> t \<noteq> [] \<Longrightarrow> Campaign_IsValid \<lparr>c_ID = i, c_TenantID = t, c_Name = c_Name c, c_Season = se,
     c_StartedAt = map_option (pg_date pg) (c_StartedAt c), c_EndedAt = map_option (pg_date pg) (c_EndedAt c),
     c_CreatedAt = cr, c_UpdatedAt = up\<rparr>"
  by (auto simp: Campaign_IsValid_def Before_def pg_types_def not_less split: option.splits if_splits)

lemma campaign_insert_stmt:
  assumes "pg_types pg" "campaign_insert pg c cur now d = (Ok x, d')" "Campaign_IsValid c"
  shows "api_step (Some CampaignsCreate) cur d d'"
  using assms pg_uuid_nonempty [OF assms(1)]
  by (auto simp: campaign_insert_def insert_stmt_Ok known_tenant_def intro!: api_step.campaign_added stored_campaign)

lemma map_id_if: "(\<And>r. r \<in> set rs \<Longrightarrow> \<not> P r) \<Longrightarrow> map (\<lambda>r. if P r then f r else r) rs = rs"
  by (induction rs) auto

lemma campaign_update_stmt:
  assumes "pg_types pg" "campaign_update pg c cur now d = (Ok n, d')" "Campaign_IsValid c" "cur \<noteq> Some []"
  shows "(api_step (Some CampaignsUpdate) cur)\<^sup>*\<^sup>* d d'"
proof (cases cur)
  case None
  with assms(2) show ?thesis by (auto simp: campaign_update_def Let_def split: res.splits)
next
  case (Some t)
  from assms(2) Some obtain i where d': "d' = d\<lparr>campaigns := map (\<lambda>r. if c_TenantID r = t \<and> c_ID r = i then r\<lparr>c_Name := c_Name c,
      c_Season := c_Season c, c_StartedAt := map_option (pg_date pg) (c_StartedAt c),
      c_EndedAt := map_option (pg_date pg) (c_EndedAt c), c_UpdatedAt := now\<rparr> else r) (campaigns d)\<rparr>"
    by (auto simp: campaign_update_def Let_def split: res.splits)
  let ?x = "\<lparr>c_ID = i, c_TenantID = t, c_Name = c_Name c, c_Season = c_Season c, c_StartedAt = map_option (pg_date pg) (c_StartedAt c),
    c_EndedAt = map_option (pg_date pg) (c_EndedAt c), c_CreatedAt = zero_Time, c_UpdatedAt = now\<rparr>"
  have "Campaign_IsValid ?x" by (rule stored_campaign [OF assms(1,3)]) (use assms(4) Some in simp)
  then have "api_step (Some CampaignsUpdate) cur d (d\<lparr>campaigns := map (\<lambda>r. if c_ID r = c_ID ?x \<and> c_TenantID r = c_TenantID ?x
      then ?x\<lparr>c_CreatedAt := c_CreatedAt r\<rparr> else r) (campaigns d)\<rparr>)"
    by (intro api_step.campaign_changed) (simp_all add: Some)
  moreover have "d\<lparr>campaigns := map (\<lambda>r. if c_ID r = c_ID ?x \<and> c_TenantID r = c_TenantID ?x
      then ?x\<lparr>c_CreatedAt := c_CreatedAt r\<rparr> else r) (campaigns d)\<rparr> = d'"
    unfolding d' by (rule arg_cong [where f = "\<lambda>x. d\<lparr>campaigns := x\<rparr>"], rule map_cong) auto
  ultimately show ?thesis by (simp only: r_into_rtranclp)
qed

lemma campaign_delete_stmt:
  "campaign_delete pg k cur now d = (Ok n, d') \<Longrightarrow> api_step (Some CampaignsDelete) cur d d'"
  using api_step.campaign_removed [of "Some CampaignsDelete" cur d]
  by (auto simp: campaign_delete_def Let_def split: res.splits)

text \<open>The row an application converts to.\<close>

lemma stored_application:
  assumes "pg_types pg" "application_row pg a i t created now = Ok row" "Application_IsValid a" "t' \<noteq> []"
  shows "Application_IsValid (row\<lparr>a_TenantID := t'\<rparr>)" and "a_OperatorName row = []" "a_ID row = i" "a_TenantID row = t"
    "a_CreatedAt row = created"
  using assms pg_uuid_nonempty [OF assms(1)]
  by (auto simp: application_row_def Application_IsValid_def split: option.splits)

lemma application_insert_stmt:
  assumes "pg_types pg" "application_insert pg a cur now d = (Ok x, d')" "Application_IsValid a"
  shows "api_step (Some ApplicationsCreate) cur d d'"
proof -
  from assms(2) obtain i t row where p: "pg_uuid pg (a_TenantID a) = Some t" "application_row pg a i t now now = Ok row"
    and ok: "policy cur (a_TenantID row)" "\<forall>r \<in> set (applications d). \<not> (a_ID r = a_ID row \<and> a_TenantID r = a_TenantID row)"
      "known_tenant d (a_TenantID row)" "operator_exists d row"
    and d': "d' = d\<lparr>applications := applications d @ [row]\<rparr>"
    by (auto simp: application_insert_def insert_stmt_Ok known_tenant_def)
  note st = stored_application [OF assms(1) p(2) assms(3) pg_uuid_nonempty [OF assms(1) p(1)]]
  have "row\<lparr>a_TenantID := t\<rparr> = row" using st(4) by simp
  with st show ?thesis unfolding d' by (intro api_step.application_added ok) simp_all
qed

lemma application_update_stmt:
  assumes "pg_types pg" "application_update pg a cur now d = (Ok n, d')" "Application_IsValid a" "cur \<noteq> Some []"
  shows "(api_step (Some ApplicationsUpdate) cur)\<^sup>*\<^sup>* d d'"
proof (cases cur)
  case None
  with assms(2) show ?thesis by (auto simp: application_update_def Let_def split: res.splits)
next
  case (Some t)
  let ?hit = "\<lambda>new r. a_TenantID r = t \<and> a_ID r = a_ID new"
  from assms(2) Some obtain i new where new: "application_row pg a i [] zero_Time now = Ok new"
    and fk: "filter (?hit new) (applications d) = [] \<or> operator_exists d new"
    and d': "d' = d\<lparr>applications := map (\<lambda>r. if ?hit new r then new\<lparr>a_TenantID := a_TenantID r, a_CreatedAt := a_CreatedAt r\<rparr> else r) (applications d)\<rparr>"
    by (auto simp: application_update_def Let_def split: res.splits)
  have st: "Application_IsValid (new\<lparr>a_TenantID := t\<rparr>)" "a_OperatorName new = []"
    using stored_application [OF assms(1) new assms(3), of t] assms(4) Some by auto
  show ?thesis
  proof (cases "filter (?hit new) (applications d) = []")
    case True
    then have "map (\<lambda>r. if ?hit new r then new\<lparr>a_TenantID := a_TenantID r, a_CreatedAt := a_CreatedAt r\<rparr> else r) (applications d) = applications d"
      by (intro map_id_if) (auto simp: filter_empty_conv)
    then show ?thesis by (simp add: d')
  next
    case False
    have "api_step (Some ApplicationsUpdate) cur d (d\<lparr>applications := map (\<lambda>r. if a_ID r = a_ID (new\<lparr>a_TenantID := t\<rparr>) \<and>
        a_TenantID r = a_TenantID (new\<lparr>a_TenantID := t\<rparr>) then (new\<lparr>a_TenantID := t\<rparr>)\<lparr>a_CreatedAt := a_CreatedAt r\<rparr> else r) (applications d)\<rparr>)"
      using False fk st by (intro api_step.application_changed) (simp_all add: Some operator_exists_def)
    moreover have "d\<lparr>applications := map (\<lambda>r. if a_ID r = a_ID (new\<lparr>a_TenantID := t\<rparr>) \<and>
        a_TenantID r = a_TenantID (new\<lparr>a_TenantID := t\<rparr>) then (new\<lparr>a_TenantID := t\<rparr>)\<lparr>a_CreatedAt := a_CreatedAt r\<rparr> else r) (applications d)\<rparr> = d'"
      unfolding d' by (rule arg_cong [where f = "\<lambda>x. d\<lparr>applications := x\<rparr>"], rule map_cong) auto
    ultimately show ?thesis by (simp only: r_into_rtranclp)
  qed
qed

lemma application_delete_stmt:
  "application_delete pg k cur now d = (Ok n, d') \<Longrightarrow> api_step (Some ApplicationsDelete) cur d d'"
  using api_step.application_removed [of "Some ApplicationsDelete" cur d]
  by (auto simp: application_delete_def Let_def split: res.splits)

lemma user_insert_stmt:
  assumes "pg_types pg" "user_insert pg u cur now d = (Ok x, d')" "User_IsValid u"
  shows "api_step (Some UsersCreate) cur d d'"
  using assms pg_uuid_nonempty [OF assms(1)]
  by (auto simp: user_insert_def user_insert_row_def insert_stmt_Ok known_tenant_def User_IsValid_def intro!: api_step.user_added)

lemma role_insert_stmt:
  assumes "role_insert pg m cur now d = (Ok x, d')" "u \<in> set (users d)" "pg_uuid pg (ur_UserID m) = Some (u_ID u)"
    "pg_uuid pg (ur_TenantID m) = Some (u_TenantID u)"
  shows "api_step (Some UsersCreate) cur d d'"
  using assms
  by (auto simp: role_insert_def insert_stmt_Ok known_tenant_def intro!: api_step.role_granted [where u = u])

lemma user_update_stmt:
  assumes "user_update pg (u\<lparr>u_FullName := fn, u_IsActive := ac, u_UpdatedAt := n\<rparr>) (Some (u_TenantID u)) now d = (Ok k, d')"
    and "u \<in> set (users d)" "pg_uuid pg (u_ID u) = Some (u_ID u)" "fn \<noteq> []"
  shows "api_step (Some UsersUpdate) (Some (u_TenantID u)) d d'"
proof -
  let ?f = "\<lambda>r. if u_ID r = u_ID u \<and> u_TenantID r = u_TenantID u then r\<lparr>u_Email := u_Email u, u_PasswordHash := u_PasswordHash u,
      u_FullName := fn, u_IsActive := ac, u_UpdatedAt := now\<rparr> else r"
  have "d' = d\<lparr>users := map ?f (users d)\<rparr>"
    using assms(1,3) by (auto simp: user_update_def Let_def conj_commute split: res.splits)
  then show ?thesis using assms(2,4) by (simp only:) (rule api_step.user_changed, simp_all)
qed

lemma token_insert_stmt:
  assumes "token_insert pg tok d = (Ok x, d')"
  shows "session_endpoint e \<Longrightarrow> api_step e cur d d'"
  using assms by (auto simp: token_insert_def insert_stmt_Ok known_tenant_def intro!: api_step.session_opened)

text \<open>The tail the service builds an entry on is the newest row of the trail.\<close>

lemma Tail_newest:
  assumes "AuditRepo_Tail pg t w = (Ok tail, w')" "current_tenant_id pg t = Inr (Some u)"
  shows "(\<lambda>r. follows (newest u (w_db w')) r) = (\<lambda>r. r_seq r = next_seq tail \<and> r_prev_hash r = next_prev tail)"
proof -
  let ?q = "\<lambda>cur d. bind1 (first_row (sort_by (\<lambda>a b. r_seq b \<le> r_seq a) (visible r_tenant_id cur (audit_log d))))
         (\<lambda>row. Ok (zero_entry\<lparr>ae_Seq := r_seq row, ae_ChainHash := r_chain_hash row\<rparr>))"
  let ?rows = "sort_by (\<lambda>a b. r_seq b \<le> r_seq a) (filter (\<lambda>r. r_tenant_id r = u) (audit_log (w_db w)))"
  have db: "w_db w' = w_db w" using audit_reads(1) [of pg t w] assms(1) by simp
  from assms(1) obtain w1 w2 where m: "maybeR ''query audit tail'' (rls_query pg t ?q w1) = (Ok tail, w2)" and w1: "w_db w1 = w_db w"
    unfolding AuditRepo_Tail_def by (elim WithTenant_Ok)
  show ?thesis
  proof (cases tail)
    case (Some e)
    with m have "rls_query pg t ?q w1 = (Ok e, w2)" by (simp add: maybeR_Ok)
    from rls_query_Ok [OF this] assms(2) w1 obtain r where "?rows \<noteq> []" "r = hd ?rows"
      "e = zero_entry\<lparr>ae_Seq := r_seq r, ae_ChainHash := r_chain_hash r\<rparr>" by auto
    then show ?thesis by (auto simp: newest_def follows_def db Some next_seq_def next_prev_def zero_entry_def split: list.splits)
  next
    case None
    with m obtain er where "rls_query pg t ?q w1 = (Err er, w2)" "errors_Is er ErrNoRows" by (auto simp: maybeR_Ok)
    with rls_exec_Err [of pg t "\<lambda>cur now d. (?q cur d, d)" w1 er w2] assms(2) w1 have "?q (Some u) (w_db w) = Err er"
      by (auto simp: rls_query_def)
    then have "?rows = []" by (cases ?rows) (auto simp: first_row_def)
    then show ?thesis by (simp add: newest_def follows_def db None next_seq_def next_prev_def)
  qed
qed

lemma audit_insert_stmt:
  assumes "audit_insert pg a cur now d = (Ok x, d')"
    and "\<And>u r. cur = Some u \<Longrightarrow> r_seq r = ae_Seq a \<Longrightarrow> r_prev_hash r = ae_PrevHash a \<Longrightarrow> follows (newest u d) r"
  shows "api_step e cur d d'"
proof -
  from assms(1) obtain row where row: "audit_insert_row pg a (audit_serial d) = Ok row" "policy cur (r_tenant_id row)"
    "known_tenant d (r_tenant_id row)" and d': "d' = d\<lparr>audit_log := audit_log d @ [row], audit_serial := audit_serial d + 1\<rparr>"
    by (auto simp: audit_insert_def insert_stmt_Ok known_tenant_def)
  from row(1) have "r_id row = audit_serial d" "r_seq row = ae_Seq a" "r_prev_hash row = ae_PrevHash a"
    by (auto simp: audit_insert_row_def)
  with row(2,3) policy_self [OF row(2)] show ?thesis unfolding d' by (intro api_step.event_logged assms(2)) simp_all
qed

section \<open>Transactions\<close>

lemma WithTenant_moves:
  assumes "\<And>w. R (w_db w) (w_db (snd (fn t w)))" "\<And>d. R d d"
  shows "R (w_db w) (w_db (snd (WithTenant t fn w)))"
proof -
  obtain r w' where r: "WithTenant t fn w = (r, w')" by fastforce
  from WithTenant_db [OF r] show ?thesis
  proof (elim disjE exE conjE)
    fix w1 x w2 assume "fn t w1 = (Ok x, w2)" "w_db w1 = w_db w" "w_db w' = w_db w2"
    with assms(1) [of w1] r show ?thesis by simp
  qed (simp add: r assms(2))
qed

lemma rls_exec_moves:
  assumes "\<And>cur now d x d'. current_tenant_id pg g = Inr cur \<Longrightarrow> q cur now d = (Ok x, d') \<Longrightarrow> R d d'" "\<And>d. R d d"
  shows "R (w_db w) (w_db (snd (rls_exec pg g q w)))"
proof -
  obtain r w' where r: "rls_exec pg g q w = (r, w')" by fastforce
  from rls_exec_db [OF r] assms show ?thesis by (auto simp: r)
qed

lemma pg_exec_moves:
  assumes "\<And>d x d'. q d = (Ok x, d') \<Longrightarrow> R d d'" "\<And>d. R d d"
  shows "R (w_db w) (w_db (snd (pg_exec q w)))"
proof -
  obtain r w' where r: "pg_exec q w = (r, w')" by fastforce
  from pg_exec_db [OF r] assms show ?thesis by (auto simp: r)
qed

section \<open>The API on the machine\<close>

definition bound_tenant :: "PG \<Rightarrow> string \<Rightarrow> string option" where
  "bound_tenant pg t = (case current_tenant_id pg t of Inr cur \<Rightarrow> cur | Inl e \<Rightarrow> None)"

definition request_moves :: "PG \<Rightarrow> endpoint option \<Rightarrow> string \<Rightarrow> world \<Rightarrow> world \<Rightarrow> bool" where
  "request_moves pg e t w w' \<longleftrightarrow> (pg_types pg \<longrightarrow> (api_step e (bound_tenant pg t))\<^sup>*\<^sup>* (w_db w) (w_db w'))"

lemma request_moves_db: "w_db w' = w_db w \<Longrightarrow> request_moves pg e t w w'"
  by (simp add: request_moves_def)

lemma request_moves_trans: "request_moves pg e t w w1 \<Longrightarrow> request_moves pg e t w1 w2 \<Longrightarrow> request_moves pg e t w w2"
  by (auto simp: request_moves_def)

text \<open>A step of a session endpoint does not depend on the tenant of the token.\<close>

lemma session_step: "api_step e cur d d' \<Longrightarrow> session_endpoint e \<Longrightarrow> api_step e cur' d d'"
  by (auto elim!: api_step.cases intro: api_step.intros simp: session_endpoint_def)

text \<open>The append of the entry built on the tail.\<close>

lemma append_moves:
  assumes "AuditRepo_Tail pg tn w = (Ok tail, w1)" "ae_TenantID a = tn" "ae_Seq a = next_seq tail" "ae_PrevHash a = next_prev tail"
    and "\<And>d d'. api_step e (bound_tenant pg tn) d d' \<Longrightarrow> M d d'" "\<And>d. M d d"
  shows "M (w_db w1) (w_db (snd (AuditRepo_Append pg a w1)))"
proof -
  let ?P = "\<lambda>d. \<forall>u (r :: audit_row). bound_tenant pg tn = Some u \<longrightarrow> r_seq r = ae_Seq a \<longrightarrow> r_prev_hash r = ae_PrevHash a \<longrightarrow> follows (newest u d) r"
  have P: "?P (w_db w1)"
  proof (intro allI impI)
    fix u and r :: audit_row assume u: "bound_tenant pg tn = Some u" and r: "r_seq r = ae_Seq a" "r_prev_hash r = ae_PrevHash a"
    from u have "current_tenant_id pg tn = Inr (Some u)" by (simp add: bound_tenant_def split: sum.splits)
    from fun_cong [OF Tail_newest [OF assms(1) this], of r] r assms(3,4) show "follows (newest u (w_db w1)) r" by simp
  qed
  have "?P (w_db w1) \<longrightarrow> M (w_db w1) (w_db (snd (AuditRepo_Append pg a w1)))"
    unfolding AuditRepo_Append_def assms(2)
  proof (rule WithTenant_moves [where R = "\<lambda>d d'. ?P d \<longrightarrow> M d d'"], unfold snd_mapR,
      rule rls_exec_moves [where R = "\<lambda>d d'. ?P d \<longrightarrow> M d d'"])
    fix cur now d x d'
    assume "current_tenant_id pg tn = Inr cur" "audit_insert pg a cur now d = (Ok x, d')"
    then show "?P d \<longrightarrow> M d d'" by (auto simp: bound_tenant_def intro!: assms(5) elim!: audit_insert_stmt)
  qed (simp_all add: assms(6))
  with P show ?thesis by blast
qed

interpretation steps_api: api_frame "request_moves (lib_pg l) e t" t l secret spa for e l t secret spa
proof unfold_locales
  fix tn w tail w1 and a :: AuditEntry
  assume a: "tn = t" "AuditRepo_Tail (lib_pg l) tn w = (Ok tail, w1)" "ae_TenantID a = tn" "ae_Seq a = next_seq tail" "ae_PrevHash a = next_prev tail"
  show "request_moves (lib_pg l) e t w1 (snd (AuditRepo_Append (lib_pg l) a w1))"
    unfolding request_moves_def
    by (rule append_moves [OF a(2-5), of e]) (simp_all add: a(1) r_into_rtranclp)
qed (erule request_moves_db, erule request_moves_trans, assumption)

lemma token_moves:
  assumes "session_endpoint e"
  shows "request_moves pg e t w (snd (RefreshTokenStore_Store pg tok w))"
    and "request_moves pg e t w (snd (RefreshTokenStore_Revoke pg i j w))"
    and "request_moves pg e t w (snd (RefreshTokenStore_RevokeFamily pg i w))"
proof -
  note replaced = r_into_rtranclp [of "api_step e _", OF api_step.session_replaced [OF assms, unfolded revoked_one_def]]
  note revoked = r_into_rtranclp [of "api_step e _", OF api_step.family_revoked [OF assms, unfolded revoked_family_def live_def]]
  show "request_moves pg e t w (snd (RefreshTokenStore_Store pg tok w))"
    unfolding request_moves_def RefreshTokenStore_Store_def snd_wrapR
    by (intro impI, rule pg_exec_moves) (blast intro: token_insert_stmt [OF _ assms])+
  show "request_moves pg e t w (snd (RefreshTokenStore_Revoke pg i j w))"
    unfolding request_moves_def RefreshTokenStore_Revoke_def snd_wrapR
    by (intro impI, rule pg_exec_moves) (auto split: res.splits intro: replaced)
  show "request_moves pg e t w (snd (RefreshTokenStore_RevokeFamily pg i w))"
    unfolding request_moves_def RefreshTokenStore_RevokeFamily_def snd_wrapR
    by (intro impI, rule pg_exec_moves) (auto split: res.splits intro: revoked)
qed

interpretation steps_session: session_frame "\<lambda>w w'. session_endpoint e \<longrightarrow> request_moves (lib_pg l) e t w w'" l secret for e l t secret
proof unfold_locales
  fix tn w tail w1 and a :: AuditEntry
  assume a: "AuditRepo_Tail (lib_pg l) tn w = (Ok tail, w1)" "ae_TenantID a = tn" "ae_Seq a = next_seq tail" "ae_PrevHash a = next_prev tail"
  show "session_endpoint e \<longrightarrow> request_moves (lib_pg l) e t w1 (snd (AuditRepo_Append (lib_pg l) a w1))"
    unfolding request_moves_def
    by (rule append_moves [OF a, of e]) (auto intro: r_into_rtranclp session_step)
qed (auto intro: request_moves_db request_moves_trans token_moves)

text \<open>Every write of an endpoint, statement by statement.\<close>

lemma insert_moves:
  assumes "\<And>cur now d x d'. current_tenant_id pg t = Inr cur \<Longrightarrow> q cur now d = (Ok x, d') \<Longrightarrow> pg_types pg \<Longrightarrow> (api_step e cur)\<^sup>*\<^sup>* d d'"
  shows "request_moves pg e t w (snd (WithTenant t (\<lambda>g w. mapR m (rls_exec pg g q w)) w))"
  unfolding request_moves_def
  by (rule WithTenant_moves, unfold snd_mapR, rule rls_exec_moves) (auto simp: bound_tenant_def dest: assms)

lemma update_moves:
  assumes "\<And>cur now d x d'. current_tenant_id pg t = Inr cur \<Longrightarrow> q cur now d = (Ok x, d') \<Longrightarrow> pg_types pg \<Longrightarrow> (api_step e cur)\<^sup>*\<^sup>* d d'"
  shows "request_moves pg e t w (snd (WithTenant t (\<lambda>g w. affectedR (mapR m (rls_exec pg g q w))) w))"
  unfolding request_moves_def
  by (rule WithTenant_moves, unfold snd_affectedR snd_mapR, rule rls_exec_moves) (auto simp: bound_tenant_def dest: assms)

lemma tenant_nonempty: "pg_types pg \<Longrightarrow> current_tenant_id pg t = Inr cur \<Longrightarrow> cur \<noteq> Some []"
  by (auto simp: current_tenant_id_def dest: pg_uuid_nonempty split: if_splits option.splits)

lemma create_moves:
  "l_TenantID lt = t \<Longrightarrow> Lot_IsValid lt \<Longrightarrow> request_moves pg (Some LotsCreate) t w (snd (run_write pg (CreateLot lt) w))"
  "c_TenantID c = t \<Longrightarrow> Campaign_IsValid c \<Longrightarrow> request_moves pg (Some CampaignsCreate) t w (snd (run_write pg (CreateCampaign c) w))"
  "a_TenantID a = t \<Longrightarrow> Application_IsValid a \<Longrightarrow> request_moves pg (Some ApplicationsCreate) t w (snd (run_write pg (CreateApplication a) w))"
  "u_TenantID u = t \<Longrightarrow> User_IsValid u \<Longrightarrow> request_moves pg (Some UsersCreate) t w (snd (run_write pg (CreateUser u) w))"
  unfolding run_write.simps write_defs
  by (simp_all only:) (rule insert_moves, rule r_into_rtranclp, rule lot_stmt campaign_insert_stmt application_insert_stmt user_insert_stmt; assumption)+

lemma change_moves:
  assumes "\<And>cur now d n d'. pg_types pg \<Longrightarrow> cur \<noteq> Some [] \<Longrightarrow> q cur now d = (Ok n, d') \<Longrightarrow> (api_step e cur)\<^sup>*\<^sup>* d d'"
  shows "request_moves pg e t w (snd (WithTenant t (\<lambda>g w. affectedR (mapR m (rls_exec pg g q w))) w))"
  by (rule update_moves, rule assms) (simp_all add: tenant_nonempty)

lemma update_delete_moves:
  "c_TenantID c = t \<Longrightarrow> Campaign_IsValid c \<Longrightarrow> request_moves pg (Some CampaignsUpdate) t w (snd (run_write pg (UpdateCampaign c) w))"
  "request_moves pg (Some CampaignsDelete) t w (snd (run_write pg (DeleteCampaign t i) w))"
  "a_TenantID a = t \<Longrightarrow> Application_IsValid a \<Longrightarrow> request_moves pg (Some ApplicationsUpdate) t w (snd (run_write pg (UpdateApplication a) w))"
  "request_moves pg (Some ApplicationsDelete) t w (snd (run_write pg (DeleteApplication t i) w))"
  unfolding run_write.simps write_defs
  by (simp_all only:)
    (rule change_moves, (rule campaign_update_stmt application_update_stmt; assumption) |
      (rule change_moves, rule r_into_rtranclp, rule campaign_delete_stmt application_delete_stmt, assumption))+

text \<open>The role a new account is granted is granted to a row that is there, and an update rewrites the
  row that was read.\<close>

lemma created_user:
  assumes "run_write pg (CreateUser x) w = (Ok (), w')"
  shows "\<exists>u \<in> set (users (w_db w')). pg_uuid pg (u_ID x) = Some (u_ID u) \<and> pg_uuid pg (u_TenantID x) = Some (u_TenantID u)"
proof -
  from assms obtain w1 w2 where "rls_exec pg (u_TenantID x) (user_insert pg x) w1 = (Ok (), w2)" "w_db w' = w_db w2"
    unfolding run_write.simps UserRepo_Create_def by (elim WithTenant_Ok) simp
  from rls_exec_Ok [OF this(1)] this(2) show ?thesis
    by (auto simp: user_insert_def user_insert_row_def insert_stmt_Ok)
qed

lemma grant_moves:
  assumes "run_write pg (CreateUser x) w0 = (Ok (), w)" "ur_UserID m = u_ID x" "u_TenantID x = t" "ur_TenantID m = t"
  shows "request_moves pg (Some UsersCreate) t w (snd (run_write pg (AssignRole m) w))"
proof -
  from created_user [OF assms(1)] obtain u where u: "u \<in> set (users (w_db w))" "pg_uuid pg (ur_UserID m) = Some (u_ID u)"
    "pg_uuid pg (ur_TenantID m) = Some (u_TenantID u)" using assms(2-4) by auto
  let ?R = "\<lambda>d d'. u \<in> set (users d) \<longrightarrow> (api_step (Some UsersCreate) (bound_tenant pg t))\<^sup>*\<^sup>* d d'"
  have "?R (w_db w) (w_db (snd (run_write pg (AssignRole m) w)))"
    unfolding run_write.simps UserRoleRepo_Assign_def assms(4)
  proof (rule WithTenant_moves [where R = ?R], unfold snd_mapR, rule rls_exec_moves [where R = ?R])
    fix cur now d x d'
    assume c: "current_tenant_id pg t = Inr cur" and q: "role_insert pg m cur now d = (Ok x, d')"
    show "?R d d'" using c role_insert_stmt [OF q _ u(2,3)] by (auto simp: bound_tenant_def)
  qed simp_all
  with u(1) show ?thesis by (simp add: request_moves_def)
qed

lemma user_update_moves:
  assumes "UserRepo_FindByID pg t i w0 = (Ok u, w)" "User_IsValid (u\<lparr>u_FullName := fn, u_IsActive := ac, u_UpdatedAt := n\<rparr>)"
  shows "request_moves pg (Some UsersUpdate) t w (snd (run_write pg (UpdateUser (u\<lparr>u_FullName := fn, u_IsActive := ac, u_UpdatedAt := n\<rparr>)) w))"
proof -
  note f = FindByID_user [OF assms(1)]
  then have bt: "bound_tenant pg t = Some (u_TenantID u)" by (simp add: bound_tenant_def)
  let ?R = "\<lambda>d d'. pg_types pg \<longrightarrow> u \<in> set (users d) \<longrightarrow> (api_step (Some UsersUpdate) (bound_tenant pg t))\<^sup>*\<^sup>* d d'"
  have "?R (w_db w) (w_db (snd (run_write pg (UpdateUser (u\<lparr>u_FullName := fn, u_IsActive := ac, u_UpdatedAt := n\<rparr>)) w)))"
    unfolding run_write.simps UserRepo_Update_def
  proof (rule WithTenant_moves [where R = ?R], unfold snd_affectedR snd_mapR, rule rls_exec_moves [where R = ?R], intro impI)
    fix cur now d x d'
    assume c: "current_tenant_id pg (u_TenantID (u\<lparr>u_FullName := fn, u_IsActive := ac, u_UpdatedAt := n\<rparr>)) = Inr cur"
      and q: "user_update pg (u\<lparr>u_FullName := fn, u_IsActive := ac, u_UpdatedAt := n\<rparr>) cur now d = (Ok x, d')"
      and ty: "pg_types pg" and u: "u \<in> set (users d)"
    from ty f have "cur = Some (u_TenantID u)" "pg_uuid pg (u_ID u) = Some (u_ID u)"
      using c uuid_stable_tenant [of pg t "u_TenantID u"] by (auto simp: pg_types_def uuid_stable_def)
    then have "api_step (Some UsersUpdate) (Some (u_TenantID u)) d d'"
      using user_update_stmt [OF q [unfolded \<open>cur = _\<close>] u] assms(2) by (simp add: User_IsValid_def)
    then show "(api_step (Some UsersUpdate) (bound_tenant pg t))\<^sup>*\<^sup>* d d'" by (simp add: bt r_into_rtranclp)
  qed simp_all
  with f show ?thesis by (simp add: request_moves_def)
qed

lemma steps_backend: "backend_still (api_server l secret spa) (request_moves (lib_pg l) (Some e) t) t e"
proof -
  consider "e \<in> {Healthz, SpaIndex, SpaStatic, TenantsList, LotsList, CampaignsList, CampaignsGet, ApplicationsList,
      ApplicationsGet, UsersList, AuditLatest}" | "e = LotsCreate" | "e = CampaignsCreate" | "e = CampaignsUpdate" | "e = CampaignsDelete"
    | "e = ApplicationsCreate" | "e = ApplicationsUpdate" | "e = ApplicationsDelete" | "e = UsersCreate" | "e = UsersUpdate"
    | "e \<in> {AuthLogin, AuthRefresh}"
    by (cases e) auto
  then show ?thesis
  proof cases
    case 1 then show ?thesis by (rule steps_api.backend_reads)
  next
    case 2 show ?thesis unfolding 2 by (rule steps_api.backend_lots, rule create_moves)
  next
    case 3 show ?thesis unfolding 3 by (rule steps_api.backend_campaign_create, rule create_moves)
  next
    case 4 show ?thesis unfolding 4 by (rule steps_api.backend_campaign_update, rule update_delete_moves)
  next
    case 5 show ?thesis unfolding 5 by (rule steps_api.backend_campaign_delete, rule update_delete_moves)
  next
    case 6 show ?thesis unfolding 6 by (rule steps_api.backend_application_create, rule create_moves)
  next
    case 7 show ?thesis unfolding 7 by (rule steps_api.backend_application_update, rule update_delete_moves)
  next
    case 8 show ?thesis unfolding 8 by (rule steps_api.backend_application_delete, rule update_delete_moves)
  next
    case 9 show ?thesis unfolding 9 by (rule steps_api.backend_user_create, rule create_moves, assumption+, rule grant_moves)
  next
    case 10 show ?thesis unfolding 10 by (rule steps_api.backend_user_update, rule user_update_moves)
  next
    case 11
    then have "session_endpoint (Some e)" by (auto simp: session_endpoint_def)
    with steps_session.backend_sessions [OF 11, of _ _ _ "Some e"] 11 show ?thesis by auto
  qed
qed

section \<open>Whole requests\<close>

text \<open>The endpoint a request is let through to and the tenant its token binds.\<close>

definition request_endpoint :: "libs \<Rightarrow> string \<Rightarrow> Request \<Rightarrow> world \<Rightarrow> endpoint option" where
  "request_endpoint l secret r w = (case lookup_route routes (rq_Method r) (rq_Path r) of
      None \<Rightarrow> None
    | Some (acc, e, vs) \<Rightarrow> if may_reach acc (identity (api_tokenManager l secret) r w) then Some e else None)"

definition request_tenant :: "libs \<Rightarrow> string \<Rightarrow> Request \<Rightarrow> world \<Rightarrow> string option" where
  "request_tenant l secret r w = (case identity (api_tokenManager l secret) r w of
      None \<Rightarrow> None
    | Some c \<Rightarrow> bound_tenant (lib_pg l) (tc_TenantID c))"

lemma request_steps:
  assumes "pg_types (lib_pg l)" "rq_Ctx r = Background"
  shows "(api_step (request_endpoint l secret r w) (request_tenant l secret r w))\<^sup>*\<^sup>*
    (w_db w) (w_db (snd (Routes (api_server l secret spa) r w)))"
proof -
  define t where "t = (case identity (api_tokenManager l secret) r w of Some c \<Rightarrow> tc_TenantID c | None \<Rightarrow> [])"
  have bt: "bound_tenant (lib_pg l) t = request_tenant l secret r w"
    by (auto simp: t_def request_tenant_def bound_tenant_def split: option.split)
  have "request_moves (lib_pg l) (request_endpoint l secret r w) t w (snd (Routes (api_server l secret spa) r w))"
  proof (rule steps_api.K_Routes [OF assms(2)])
    fix c assume "identity (srv_tokens (api_server l secret spa)) r (accepted (api_server l secret spa) w) = Some c"
    then show "tc_TenantID c = t" by (simp add: identity_accepted t_def)
  next
    fix e vs assume "lookup_route routes (rq_Method r) (rq_Path r) = Some (access_of e, e, vs)"
      "may_reach (access_of e) (identity (srv_tokens (api_server l secret spa)) r (accepted (api_server l secret spa) w))"
    then have "request_endpoint l secret r w = Some e" by (simp add: request_endpoint_def identity_accepted)
    then show "backend_still (api_server l secret spa) (request_moves (lib_pg l) (request_endpoint l secret r w) t) t e"
      by (simp only:) (rule steps_backend)
  qed
  with assms(1) bt show ?thesis by (simp add: request_moves_def)
qed

end
