(* ===== verification/Api_Typed.thy ===== *)
theory Api_Typed
  imports Api_Steps
begin

text \<open>
  The type of a database the API keeps: every row passes the validation of its entity, keys are
  unique, references lead somewhere, and the rows of a tenant's audit trail are numbered from one
  and chained by their hashes. Each step of the abstract machine keeps it, hence every request, and
  every history of requests (\<open>served\<close>).
\<close>

section \<open>Typed tables\<close>

text \<open>\<open>ts\<close> are the registered tenants, \<open>ids\<close> the user ids, \<open>members\<close> the pairs of user and tenant.\<close>

definition typed_lots :: "string set \<Rightarrow> Lot list \<Rightarrow> bool" where
  "typed_lots ts rows \<longleftrightarrow> (\<forall>r \<in> set rows. Lot_IsValid r \<and> l_TenantID r \<in> ts) \<and> distinct (map (\<lambda>r. (l_ID r, l_TenantID r)) rows)"

definition typed_campaigns :: "string set \<Rightarrow> Campaign list \<Rightarrow> bool" where
  "typed_campaigns ts rows \<longleftrightarrow> (\<forall>r \<in> set rows. Campaign_IsValid r \<and> c_TenantID r \<in> ts) \<and> distinct (map (\<lambda>r. (c_ID r, c_TenantID r)) rows)"

definition typed_applications :: "string set \<Rightarrow> string set \<Rightarrow> Application list \<Rightarrow> bool" where
  "typed_applications ts ids rows \<longleftrightarrow> (\<forall>r \<in> set rows. Application_IsValid r \<and> a_TenantID r \<in> ts \<and> a_OperatorName r = [] \<and>
     (a_OperatorID r = [] \<or> a_OperatorID r \<in> ids)) \<and> distinct (map (\<lambda>r. (a_ID r, a_TenantID r)) rows)"

definition typed_users :: "string set \<Rightarrow> User list \<Rightarrow> bool" where
  "typed_users ts rows \<longleftrightarrow> (\<forall>r \<in> set rows. User_IsValid r \<and> u_TenantID r \<in> ts \<and> u_Role r = []) \<and>
     distinct (map u_ID rows) \<and> distinct (map u_Email rows)"

definition typed_roles :: "string set \<Rightarrow> (string \<times> string) set \<Rightarrow> UserRole list \<Rightarrow> bool" where
  "typed_roles ts members rows \<longleftrightarrow> (\<forall>r \<in> set rows. IsValidRoleCode (ur_RoleCode r) \<and> ur_TenantID r \<in> ts \<and>
     (ur_UserID r, ur_TenantID r) \<in> members) \<and> distinct (map (\<lambda>r. (ur_UserID r, ur_RoleCode r)) rows)"

definition typed_tokens :: "string set \<Rightarrow> string set \<Rightarrow> RefreshTokenRecord list \<Rightarrow> bool" where
  "typed_tokens ts ids rows \<longleftrightarrow> (\<forall>r \<in> set rows. rr_UserID r \<in> ids \<and> rr_TenantID r \<in> ts) \<and>
     distinct (map rr_ID rows) \<and> distinct (map rr_TokenHash rows)"

fun chained :: "audit_row option \<Rightarrow> audit_row list \<Rightarrow> bool" where
  "chained prev [] \<longleftrightarrow> True"
| "chained prev (r # rs) \<longleftrightarrow> follows prev r \<and> chained (Some r) rs"

definition typed_audit :: "string set \<Rightarrow> audit_row list \<Rightarrow> bool" where
  "typed_audit ts rows \<longleftrightarrow> (\<forall>r \<in> set rows. r_tenant_id r \<in> ts \<and> chained None (filter (\<lambda>x. r_tenant_id x = r_tenant_id r) rows))"

definition user_ids :: "db \<Rightarrow> string set" where
  "user_ids d = u_ID ` set (users d)"

definition members :: "db \<Rightarrow> (string \<times> string) set" where
  "members d = (\<lambda>u. (u_ID u, u_TenantID u)) ` set (users d)"

definition db_typed :: "db \<Rightarrow> bool" where
  "db_typed d \<longleftrightarrow> (let ts = t_ID ` set (tenants d) in typed_lots ts (lots d) \<and> typed_campaigns ts (campaigns d) \<and>
     typed_applications ts (user_ids d) (applications d) \<and> typed_users ts (users d) \<and> typed_roles ts (members d) (user_roles d) \<and>
     typed_tokens ts (user_ids d) (refresh_tokens d) \<and> typed_audit ts (audit_log d))"

section \<open>The newest row of a chained trail\<close>

lemma chained_snoc: "chained prev (rs @ [r]) \<longleftrightarrow> chained prev rs \<and> follows (if rs = [] then prev else Some (last rs)) r"
  by (induction rs arbitrary: prev) auto

lemma chained_seq: "chained (Some p) rs \<Longrightarrow> r \<in> set rs \<Longrightarrow> r_seq p < r_seq r"
  by (induction rs arbitrary: p) (fastforce simp: follows_def)+

lemma chained_sorted: "chained prev rs \<Longrightarrow> sorted_wrt (\<lambda>a b. r_seq a < r_seq b) rs"
  by (induction rs arbitrary: prev) (auto dest: chained_seq)

lemma newest_chained:
  assumes "chained None (filter (\<lambda>r. r_tenant_id r = t) (audit_log d))"
  shows "newest t d = (let rs = filter (\<lambda>r. r_tenant_id r = t) (audit_log d) in if rs = [] then None else Some (last rs))"
proof -
  let ?rs = "filter (\<lambda>r. r_tenant_id r = t) (audit_log d)"
  note st = chained_sorted [OF assms]
  then have "sorted_wrt (<) (map r_seq ?rs)" by (simp add: sorted_wrt_map)
  then have "distinct (map r_seq ?rs)" by (simp add: strict_sorted_iff)
  moreover have "sort_by (\<lambda>a b. r_seq a \<le> r_seq b) ?rs = ?rs"
    by (rule sort_by_sorted) (rule sorted_wrt_mono_rel [OF _ st], simp)
  ultimately have "sort_by (\<lambda>a b. r_seq b \<le> r_seq a) ?rs = rev ?rs" by (simp add: sort_by_desc)
  then show ?thesis by (cases ?rs rule: rev_cases) (simp_all add: newest_def)
qed

lemma typed_audit_append:
  assumes "typed_audit ts (audit_log d)" "r_tenant_id row \<in> ts" "follows (newest (r_tenant_id row) d) row"
  shows "typed_audit ts (audit_log d @ [row])"
proof -
  let ?t = "r_tenant_id row" and ?rs = "\<lambda>t. filter (\<lambda>r. r_tenant_id r = t) (audit_log d)"
  have all: "chained None (?rs t)" for t
  proof (cases "?rs t = []")
    case False
    then obtain r where "r \<in> set (audit_log d)" "r_tenant_id r = t" by (auto simp: filter_empty_conv)
    with assms(1) show ?thesis by (auto simp: typed_audit_def)
  qed (simp only: chained.simps)
  have "chained None (?rs ?t @ [row])"
    using assms(3) all [of ?t] newest_chained [OF all [of ?t]] by (simp only: chained_snoc Let_def)
  with all assms(1,2) show ?thesis by (auto simp: typed_audit_def)
qed

section \<open>Steps keep the type\<close>

lemma typed_more_users:
  assumes "db_typed d" "user_ids d \<subseteq> user_ids d'" "members d \<subseteq> members d'"
    and "d' = d\<lparr>users := users d'\<rparr>" "typed_users (t_ID ` set (tenants d)) (users d')"
  shows "db_typed d'"
proof -
  have "tenants d' = tenants d" "lots d' = lots d" "campaigns d' = campaigns d" "applications d' = applications d"
    "user_roles d' = user_roles d" "refresh_tokens d' = refresh_tokens d" "audit_log d' = audit_log d"
    by (subst assms(4), simp)+
  with assms(1-3,5) show ?thesis
    by (auto simp: db_typed_def Let_def typed_applications_def typed_roles_def typed_tokens_def)
qed

lemma distinct_map_same: "(\<And>r. r \<in> set rs \<Longrightarrow> k (f r) = k r) \<Longrightarrow> distinct (map k (map f rs)) = distinct (map k rs)"
  by (simp cong: map_cong)

lemma typed_campaigns_change:
  assumes "typed_campaigns ts rows" "Campaign_IsValid x"
  shows "typed_campaigns ts (map (\<lambda>r. if c_ID r = c_ID x \<and> c_TenantID r = c_TenantID x then x\<lparr>c_CreatedAt := c_CreatedAt r\<rparr> else r) rows)"
proof -
  let ?f = "\<lambda>r. if c_ID r = c_ID x \<and> c_TenantID r = c_TenantID x then x\<lparr>c_CreatedAt := c_CreatedAt r\<rparr> else r"
  have "Campaign_IsValid (x\<lparr>c_CreatedAt := n\<rparr>)" for n using assms(2) by (simp add: Campaign_IsValid_def split: if_splits)
  then have "\<forall>r \<in> set rows. Campaign_IsValid (?f r) \<and> c_TenantID (?f r) \<in> ts"
    using assms(1) by (simp add: typed_campaigns_def) metis
  moreover have "distinct (map (\<lambda>r. (c_ID r, c_TenantID r)) (map ?f rows))"
    using assms(1) by (subst distinct_map_same) (simp_all add: typed_campaigns_def)
  ultimately show ?thesis unfolding typed_campaigns_def set_map by blast
qed

lemma typed_applications_change:
  assumes "typed_applications ts ids rows" "Application_IsValid x" "a_OperatorName x = []" "a_OperatorID x = [] \<or> a_OperatorID x \<in> ids"
  shows "typed_applications ts ids (map (\<lambda>r. if a_ID r = a_ID x \<and> a_TenantID r = a_TenantID x then x\<lparr>a_CreatedAt := a_CreatedAt r\<rparr> else r) rows)"
proof -
  let ?f = "\<lambda>r. if a_ID r = a_ID x \<and> a_TenantID r = a_TenantID x then x\<lparr>a_CreatedAt := a_CreatedAt r\<rparr> else r"
  have "Application_IsValid (x\<lparr>a_CreatedAt := n\<rparr>)" for n using assms(2) by (simp add: Application_IsValid_def)
  then have "\<forall>r \<in> set rows. Application_IsValid (?f r) \<and> a_TenantID (?f r) \<in> ts \<and> a_OperatorName (?f r) = [] \<and>
      (a_OperatorID (?f r) = [] \<or> a_OperatorID (?f r) \<in> ids)"
    using assms(1,3,4) by (simp add: typed_applications_def) metis
  moreover have "distinct (map (\<lambda>r. (a_ID r, a_TenantID r)) (map ?f rows))"
    using assms(1) by (subst distinct_map_same) (simp_all add: typed_applications_def)
  ultimately show ?thesis unfolding typed_applications_def set_map by blast
qed

lemma step_typed: "api_step e cur d d' \<Longrightarrow> db_typed d \<Longrightarrow> db_typed d'"
proof (induction rule: api_step.induct)
  case (user_added x d)
  then show ?case
    by (intro typed_more_users [OF user_added.prems]) (auto simp: user_ids_def members_def typed_users_def db_typed_def Let_def known_tenant_def)
next
  case (user_changed u d fn now ac)
  let ?f = "\<lambda>r. if u_ID r = u_ID u \<and> u_TenantID r = u_TenantID u
      then r\<lparr>u_Email := u_Email u, u_PasswordHash := u_PasswordHash u, u_FullName := fn, u_IsActive := ac, u_UpdatedAt := now\<rparr> else r"
  have ty: "typed_users (t_ID ` set (tenants d)) (users d)" using user_changed.prems by (simp add: db_typed_def Let_def)
  then have same: "r = u" if "r \<in> set (users d)" "u_ID r = u_ID u" for r
    using that user_changed.hyps(2) by (auto simp: typed_users_def distinct_map inj_on_def)
  have "distinct (map u_ID (map ?f (users d)))" "distinct (map u_Email (map ?f (users d)))"
    using ty same by (subst distinct_map_same; auto simp: typed_users_def)+
  moreover have "\<forall>r \<in> set (users d). User_IsValid (?f r) \<and> u_TenantID (?f r) \<in> t_ID ` set (tenants d) \<and> u_Role (?f r) = []"
    using ty user_changed.hyps(2,4) by (auto simp: typed_users_def User_IsValid_def)
  ultimately have "typed_users (t_ID ` set (tenants d)) (map ?f (users d))" unfolding typed_users_def set_map by blast
  moreover have "u_ID ` set (map ?f (users d)) = u_ID ` set (users d)"
    "(\<lambda>u. (u_ID u, u_TenantID u)) ` set (map ?f (users d)) = (\<lambda>u. (u_ID u, u_TenantID u)) ` set (users d)"
    unfolding set_map image_image by (rule image_cong; simp)+
  ultimately show ?case
    by (intro typed_more_users [OF user_changed.prems]) (simp_all add: user_ids_def members_def del: set_map)
next
  case (event_logged row d)
  then show ?case
    using typed_audit_append [of _ d row] by (simp add: db_typed_def Let_def user_ids_def members_def known_tenant_def)
next
  case (campaign_changed x d)
  then show ?case
    using typed_campaigns_change [of _ "campaigns d" x] by (simp add: db_typed_def Let_def user_ids_def members_def del: set_map)
next
  case (application_changed x d)
  then show ?case
    using typed_applications_change [of _ "user_ids d" "applications d" x]
    by (simp add: db_typed_def Let_def user_ids_def members_def operator_exists_def del: set_map)
next
  case (role_granted m d u)
  have "(ur_UserID m, ur_TenantID m) \<in> members d"
    unfolding members_def using role_granted.hyps(5-7) by (metis (no_types, lifting) image_eqI)
  with role_granted show ?case
    by (auto simp: db_typed_def Let_def user_ids_def members_def known_tenant_def typed_roles_def)
next
  case (session_replaced d i next_id now)
  then show ?case
    by (auto simp: db_typed_def Let_def typed_tokens_def user_ids_def members_def) (auto simp: revoked_one_def)
next
  case (family_revoked d f now)
  then show ?case
    by (auto simp: db_typed_def Let_def typed_tokens_def user_ids_def members_def) (auto simp: revoked_family_def)
qed (auto simp: db_typed_def Let_def user_ids_def members_def known_tenant_def operator_exists_def typed_lots_def typed_campaigns_def
    typed_applications_def typed_roles_def typed_tokens_def distinct_map_filter)

lemma steps_typed: "(api_step e cur)\<^sup>*\<^sup>* d d' \<Longrightarrow> db_typed d \<Longrightarrow> db_typed d'"
  by (induction rule: rtranclp_induct) (auto intro: step_typed)

section \<open>Histories\<close>

text \<open>One process serves requests one after the other, each at some time, with some entropy and some
  failures.\<close>

inductive served :: "libs \<Rightarrow> string \<Rightarrow> (Request \<Rightarrow> Response) \<Rightarrow> world \<Rightarrow> world \<Rightarrow> bool" for l secret spa w where
  start: "served l secret spa w w"
| request: "served l secret spa w w1 \<Longrightarrow> rq_Ctx r = Background \<Longrightarrow>
    served l secret spa w (snd (Routes (api_server l secret spa) r (w1\<lparr>w_clock := c, w_entropy := es, w_faults := fs\<rparr>)))"

lemma served_typed:
  assumes "served l secret spa w w'" "pg_types (lib_pg l)" "db_typed (w_db w)"
  shows "db_typed (w_db w')"
  using assms(1)
proof (induction rule: served.induct)
  case start
  show ?case by (rule assms(3))
next
  case (request w1 r fs es c)
  from steps_typed [OF request_steps [OF assms(2) request.hyps(2)]] request.IH show ?case by simp
qed

text \<open>No history edits or removes an audit row, or registers a tenant.\<close>

definition extends :: "db \<Rightarrow> db \<Rightarrow> bool" where
  "extends d d' \<longleftrightarrow> tenants d' = tenants d \<and> (\<exists>new. audit_log d' = audit_log d @ new)"

lemma extends_refl [simp]: "extends d d"
  by (simp add: extends_def)

lemma extends_trans: "extends d d1 \<Longrightarrow> extends d1 d2 \<Longrightarrow> extends d d2"
  by (auto simp: extends_def)

lemma step_extends: "api_step e cur d d' \<Longrightarrow> extends d d'"
  by (auto simp: extends_def elim!: api_step.cases)

lemma steps_extend: "(api_step e cur)\<^sup>*\<^sup>* d d' \<Longrightarrow> extends d d'"
  by (induction rule: rtranclp_induct) (auto intro: extends_trans step_extends)

lemma served_extends:
  assumes "served l secret spa w w'" "pg_types (lib_pg l)"
  shows "extends (w_db w) (w_db w')"
  using assms(1)
proof (induction rule: served.induct)
  case (request w1 r fs es c)
  from steps_extend [OF request_steps [OF assms(2) request.hyps(2), of secret "w1\<lparr>w_clock := c, w_entropy := es, w_faults := fs\<rparr>" spa]]
    request.IH show ?case
    by (auto intro: extends_trans)
qed simp

end
