(* ===== verification/Lifetime.thy ===== *)
theory Lifetime
  imports Startup Api_Typed
begin

text \<open>
  \<open>run\<close> in \<^verbatim>\<open>cmd/api/main.go\<close>, second half, and \<open>main\<close>: the goroutine that listens, the main goroutine that
  waits for the context to end and shuts the server down, and the requests served in between, as a
  step relation. The context is cancelled by a signal (\<open>signal.NotifyContext\<close>) or, when
  \<open>ListenAndServe\<close> fails, by \<open>stop\<close>. What the listener and \<open>Shutdown\<close> answer is up to the network; a request
  is one step, in a world whose clock, entropy and round trips are arbitrary.
\<close>

text \<open>A closed listener may have connections whose requests still come; a late one never opens.\<close>

datatype listener = Starting | Listening | Closed | Late

datatype phase = Waiting | Draining | Exited "unit res"

record process =
  pr_listener :: listener
  pr_cancelled :: bool
  pr_phase :: phase
  pr_world :: world

definition started :: "world \<Rightarrow> process" where
  "started w = \<lparr>pr_listener = Starting, pr_cancelled = False, pr_phase = Waiting, pr_world = w\<rparr>"

inductive run_step :: "string \<Rightarrow> world Handler \<Rightarrow> process \<Rightarrow> process \<Rightarrow> bool" for addr h where
  Listen: "pr_listener p = Starting \<Longrightarrow> \<forall>r. pr_phase p \<noteq> Exited r \<Longrightarrow>
    run_step addr h p (p\<lparr>pr_listener := if pr_phase p = Waiting then Listening else Late,
      pr_world := log_Info world_log ''http server listening'' [(''addr'', LStr addr)] (pr_world p)\<rparr>)"
| Serve: "pr_listener p \<in> {Listening, Closed} \<Longrightarrow> \<forall>r. pr_phase p \<noteq> Exited r \<Longrightarrow> rq_Ctx r = Background \<Longrightarrow>
    run_step addr h p (p\<lparr>pr_world := snd (h r ((pr_world p)\<lparr>w_clock := c, w_entropy := es, w_faults := fs\<rparr>))\<rparr>)"
| Listen_failed: "pr_listener p = Listening \<Longrightarrow> \<forall>r. pr_phase p \<noteq> Exited r \<Longrightarrow>
    run_step addr h p (p\<lparr>pr_listener := Closed, pr_cancelled := True,
      pr_world := log_Error world_log ''http server error'' [(''error'', LErr e)] (pr_world p)\<rparr>)"
| Listen_closed: "pr_listener p = Listening \<Longrightarrow> pr_phase p = Draining \<Longrightarrow> run_step addr h p (p\<lparr>pr_listener := Closed\<rparr>)"
| Signal: "run_step addr h p (p\<lparr>pr_cancelled := True\<rparr>)"
| Shut_down: "pr_phase p = Waiting \<Longrightarrow> pr_cancelled p \<Longrightarrow>
    run_step addr h p (p\<lparr>pr_phase := Draining, pr_world := log_Info world_log ''shutting down'' [] (pr_world p)\<rparr>)"
| Exit: "pr_phase p = Draining \<Longrightarrow> run_step addr h p (p\<lparr>pr_phase := Exited r\<rparr>)"

text \<open>\<open>main\<close>: the exit code and the last line of the log.\<close>

definition api_main :: "unit res \<Rightarrow> world \<Rightarrow> int \<times> world" where
  "api_main r w = (case r of
      Err e \<Rightarrow> (1, log_Error world_log ''fatal'' [(''error'', LErr e)] w)
    | _ \<Rightarrow> (0, w))"

inductive_cases run_stepE: "run_step addr h p p'"

section \<open>A whole run\<close>

text \<open>The database a process leaves is one that a history of requests leaves.\<close>

definition lasting :: "libs \<Rightarrow> world \<Rightarrow> process \<Rightarrow> bool" where
  "lasting l w p \<longleftrightarrow> db_typed (w_db (pr_world p)) \<and> extends (w_db w) (w_db (pr_world p)) \<and>
     (pr_phase p \<noteq> Waiting \<longrightarrow> pr_cancelled p) \<and>
     (pr_listener p \<in> {Starting, Late} \<longrightarrow> w_db (pr_world p) = w_db w)"

lemma lasting_step:
  assumes "run_step addr (Routes (api_server l secret spa)) p p'" "pg_types (lib_pg l)" "lasting l w p"
  shows "lasting l w p'"
  using assms(1)
proof cases
  case (Serve r fs es c)
  let ?w = "(pr_world p)\<lparr>w_clock := c, w_entropy := es, w_faults := fs\<rparr>"
  have "served l secret spa (pr_world p) (snd (Routes (api_server l secret spa) r ?w))"
    by (rule served.request [OF served.start Serve(4)])
  from served_typed [OF this assms(2)] served_extends [OF this assms(2)] Serve assms(3) show ?thesis
    by (auto simp: lasting_def intro: extends_trans)
qed (use assms(3) in \<open>auto simp: lasting_def log_defs world_log_def split: if_splits\<close>)

lemma lasting_run:
  assumes "(run_step addr (Routes (api_server l secret spa)))\<^sup>*\<^sup>* p p'" "pg_types (lib_pg l)" "lasting l w p"
  shows "lasting l w p'"
  using assms(1) by (induction rule: rtranclp_induct) (use assms(2,3) lasting_step in blast)+

lemma whole_run:
  assumes "api_run out l spa w = (Ok (addr, h), w0)" "(run_step addr h)\<^sup>*\<^sup>* (started w0) p" "pg_types (lib_pg l)" "db_typed (w_db w)"
  shows "lasting l w p"
proof -
  have s: "h = Routes (api_server l (os_Getenv out ''JWT_SECRET'') spa)" "w_db w0 = w_db w"
    using api_run_server [OF assms(1)] by simp_all
  have "lasting l w (started w0)" using assms(4) s(2) by (simp add: lasting_def started_def)
  with lasting_run [OF assms(2) [unfolded s(1)] assms(3)] show ?thesis by blast
qed

end
