(* ===== verification/Row_Maps.thy ===== *)
theory Row_Maps
  imports Farm_Repos Audit_Repo Refresh_Store
begin

text \<open>
  What a repository of tenant-owned rows promises its service: it is a map from tenants and ids to
  rows. \<open>map_step\<close> is that machine, one rule per call and answer; a call that fails has either had no
  effect or the one it would have had, because its acknowledgement may be lost. The locale
  \<open>row_repository\<close> is the contract, \<open>history\<close> runs a list of calls, and every history of calls runs
  on the machine (\<open>history_simulates\<close>). The repositories of campaigns and of applications are
  interpretations.
\<close>

section \<open>The machine\<close>

type_synonym 'r rows = "string \<Rightarrow> string \<Rightarrow> 'r option"

text \<open>How rows are keyed, what a new and a replaced row look like, and the order of a listing.\<close>

record 'r kind =
  k_id :: "'r \<Rightarrow> string"
  k_owner :: "'r \<Rightarrow> string"
  k_new :: "'r \<Rightarrow> time \<Rightarrow> 'r"
  k_revised :: "'r \<Rightarrow> 'r \<Rightarrow> time \<Rightarrow> 'r"
  k_before :: "'r \<Rightarrow> 'r \<Rightarrow> bool"

datatype 'r call = Find string string | Everything string | Insert 'r | Replace 'r | Remove string string

datatype 'r answer = Row 'r | Rows "'r list" | Done_ok | Absent | Failed

definition put :: "string \<Rightarrow> string \<Rightarrow> 'r option \<Rightarrow> 'r rows \<Rightarrow> 'r rows" where
  "put t i x T = T(t := (T t)(i := x))"

inductive map_step :: "'r kind \<Rightarrow> 'r rows \<Rightarrow> 'r call \<Rightarrow> 'r answer \<Rightarrow> 'r rows \<Rightarrow> bool" for k :: "'r kind" where
  Found: "T t i = Some r \<Longrightarrow> map_step k T (Find t i) (Row r) T"
| NotFound: "T t i = None \<Longrightarrow> map_step k T (Find t i) Absent T"
| Listed: "set rs = ran (T t) \<Longrightarrow> distinct rs \<Longrightarrow> sorted_wrt (k_before k) rs \<Longrightarrow> map_step k T (Everything t) (Rows rs) T"
| Inserted: "T (k_owner k r) (k_id k r) = None \<Longrightarrow>
    map_step k T (Insert r) Done_ok (put (k_owner k r) (k_id k r) (Some (k_new k r now)) T)"
| Replaced: "T (k_owner k r) (k_id k r) = Some old \<Longrightarrow>
    map_step k T (Replace r) Done_ok (put (k_owner k r) (k_id k r) (Some (k_revised k old r now)) T)"
| NotReplaced: "T (k_owner k r) (k_id k r) = None \<Longrightarrow> map_step k T (Replace r) Absent T"
| Removed: "T t i = Some old \<Longrightarrow> map_step k T (Remove t i) Done_ok (put t i None T)"
| NotRemoved: "T t i = None \<Longrightarrow> map_step k T (Remove t i) Absent T"
| Failure: "map_step k T c Failed T"
| Unacknowledged: "map_step k T c a T' \<Longrightarrow> map_step k T c Failed T'"

inductive map_run :: "'r kind \<Rightarrow> 'r rows \<Rightarrow> 'r call list \<Rightarrow> 'r answer list \<Rightarrow> 'r rows \<Rightarrow> bool" for k :: "'r kind" where
  End: "map_run k T [] [] T"
| Next: "map_step k T c a T1 \<Longrightarrow> map_run k T1 cs as T2 \<Longrightarrow> map_run k T (c # cs) (a # as) T2"

inductive_simps map_step_simps:
  "map_step k T (Find t i) (Row r) T'" "map_step k T (Everything t) (Rows rs) T'" "map_step k T (Insert r) Done_ok T'"
  "map_step k T (Replace r) Done_ok T'" "map_step k T (Remove t i) Done_ok T'" "map_step k T c Absent T'"

section \<open>Repositories\<close>

record ('r, 's) repo =
  rp_find :: "string \<Rightarrow> string \<Rightarrow> 's \<Rightarrow> 'r res \<times> 's"
  rp_list :: "string \<Rightarrow> 's \<Rightarrow> 'r list res \<times> 's"
  rp_create :: "'r \<Rightarrow> 's \<Rightarrow> unit res \<times> 's"
  rp_update :: "'r \<Rightarrow> 's \<Rightarrow> unit res \<times> 's"
  rp_delete :: "string \<Rightarrow> string \<Rightarrow> 's \<Rightarrow> unit res \<times> 's"

definition answer_of :: "('a \<Rightarrow> 'r answer) \<Rightarrow> 'a res \<times> 's \<Rightarrow> 'r answer \<times> 's" where
  "answer_of f r = (case r of
      (Ok x, s) \<Rightarrow> (f x, s)
    | (Err e, s) \<Rightarrow> (if errors_Is e ErrNotFound then Absent else Failed, s)
    | (Panic p, s) \<Rightarrow> (Failed, s))"

fun perform :: "('r, 's) repo \<Rightarrow> 'r call \<Rightarrow> 's \<Rightarrow> 'r answer \<times> 's" where
  "perform rp (Find t i) s = answer_of Row (rp_find rp t i s)"
| "perform rp (Everything t) s = answer_of Rows (rp_list rp t s)"
| "perform rp (Insert r) s = answer_of (\<lambda>_. Done_ok) (rp_create rp r s)"
| "perform rp (Replace r) s = answer_of (\<lambda>_. Done_ok) (rp_update rp r s)"
| "perform rp (Remove t i) s = answer_of (\<lambda>_. Done_ok) (rp_delete rp t i s)"

fun history :: "('r, 's) repo \<Rightarrow> 'r call list \<Rightarrow> 's \<Rightarrow> 'r answer list \<times> 's" where
  "history rp [] s = ([], s)"
| "history rp (c # cs) s = (let (a, s1) = perform rp c s; (as, s2) = history rp cs s1 in (a # as, s2))"

text \<open>A call is canonical when its tenant and id are in the form the database prints.\<close>

fun call_ok :: "'r kind \<Rightarrow> (string \<Rightarrow> bool) \<Rightarrow> (string \<Rightarrow> bool) \<Rightarrow> 'r call \<Rightarrow> bool" where
  "call_ok k tn i (Find t x) \<longleftrightarrow> tn t \<and> i x"
| "call_ok k tn i (Everything t) \<longleftrightarrow> tn t"
| "call_ok k tn i (Insert r) \<longleftrightarrow> tn (k_owner k r) \<and> i (k_id k r)"
| "call_ok k tn i (Replace r) \<longleftrightarrow> tn (k_owner k r) \<and> i (k_id k r)"
| "call_ok k tn i (Remove t x) \<longleftrightarrow> tn t \<and> i x"

locale row_repository =
  fixes rp :: "('r, 's) repo" and k :: "'r kind" and rows :: "'s \<Rightarrow> 'r rows" and inv :: "'s \<Rightarrow> bool"
    and tn :: "string \<Rightarrow> bool" and key :: "string \<Rightarrow> bool"
  assumes call_step: "perform rp c s = (a, s') \<Longrightarrow> inv s \<Longrightarrow> call_ok k tn key c \<Longrightarrow>
    inv s' \<and> map_step k (rows s) c a (rows s')"
begin

lemma history_simulates:
  assumes "inv s" "list_all (call_ok k tn key) cs" "history rp cs s = (as, s')"
  shows "inv s' \<and> map_run k (rows s) cs as (rows s')"
  using assms
proof (induction cs arbitrary: s as)
  case (Cons c cs)
  obtain a s1 bs where p: "perform rp c s = (a, s1)" and h: "history rp cs s1 = (bs, s')" and as: "as = a # bs"
    using Cons.prems(3) by (auto split: prod.splits)
  with call_step [OF p] Cons.prems Cons.IH [OF _ _ h] show ?case by (auto intro: map_run.Next)
qed (simp add: map_run.End)

end

section \<open>Lists of rows as maps\<close>

definition rows_of :: "('r \<Rightarrow> string) \<Rightarrow> ('r \<Rightarrow> string) \<Rightarrow> 'r list \<Rightarrow> 'r rows" where
  "rows_of own key xs t i = List.find (\<lambda>r. own r = t \<and> key r = i) xs"

abbreviation keyed :: "('r \<Rightarrow> string) \<Rightarrow> ('r \<Rightarrow> string) \<Rightarrow> 'r list \<Rightarrow> bool" where
  "keyed own key xs \<equiv> distinct (map (\<lambda>r. (key r, own r)) xs)"

lemma rows_of_simps [simp]:
  "rows_of own key [] t i = None"
  "rows_of own key (x # xs) t i = (if own x = t \<and> key x = i then Some x else rows_of own key xs t i)"
  by (simp_all add: rows_of_def)

lemma rows_of_None: "rows_of own key xs t i = None \<longleftrightarrow> (\<forall>r \<in> set xs. \<not> (own r = t \<and> key r = i))"
  by (induction xs) auto

lemma rows_of_Some: "keyed own key xs \<Longrightarrow> rows_of own key xs t i = Some r \<longleftrightarrow> r \<in> set xs \<and> own r = t \<and> key r = i"
  by (induction xs) (auto simp: image_iff)

lemma rows_of_filter: "rows_of own key xs t i = (case filter (\<lambda>r. own r = t \<and> key r = i) xs of [] \<Rightarrow> None | r # _ \<Rightarrow> Some r)"
  by (induction xs) auto

lemma rows_of_hits: "filter (\<lambda>r. own r = t \<and> key r = i) xs = [] \<longleftrightarrow> rows_of own key xs t i = None"
  by (auto simp: rows_of_None filter_empty_conv)

lemma ran_rows_of: "keyed own key xs \<Longrightarrow> ran (rows_of own key xs t) = set (filter (\<lambda>r. own r = t) xs)"
  by (auto simp: ran_def rows_of_Some)

lemma rows_of_snoc:
  "rows_of own key xs (own x) (key x) = None \<Longrightarrow> rows_of own key (xs @ [x]) = put (own x) (key x) (Some x) (rows_of own key xs)"
  by (intro ext, induction xs) (auto simp: put_def split: if_splits)

lemma rows_of_map:
  assumes "\<And>r. own (f r) = own r" "\<And>r. key (f r) = key r"
  shows "rows_of own key (map (\<lambda>r. if own r = t \<and> key r = i then f r else r) xs) =
    put t i (map_option f (rows_of own key xs t i)) (rows_of own key xs)"
  by (intro ext, induction xs) (auto simp: put_def assms split: if_splits)

lemma rows_of_remove:
  "rows_of own key (filter (\<lambda>r. \<not> (own r = t \<and> key r = i)) xs) = put t i None (rows_of own key xs)"
  by (intro ext, induction xs) (auto simp: put_def split: if_splits)

lemma keyed_map:
  assumes "\<And>r. own (f r) = own r" "\<And>r. key (f r) = key r"
  shows "keyed own key (map (\<lambda>r. if own r = t \<and> key r = i then f r else r) xs) \<longleftrightarrow> keyed own key xs"
proof -
  have "map (\<lambda>r. (key r, own r)) (map (\<lambda>r. if own r = t \<and> key r = i then f r else r) xs) = map (\<lambda>r. (key r, own r)) xs"
    by (simp add: assms)
  then show ?thesis by (rule arg_cong)
qed

lemma keyed_filter: "keyed own key xs \<Longrightarrow> keyed own key (filter P xs)"
  by (rule distinct_map_filter)

lemma keyed_snoc: "keyed own key (xs @ [x]) \<longleftrightarrow> keyed own key xs \<and> rows_of own key xs (own x) (key x) = None"
  by (auto simp: rows_of_None image_iff)

section \<open>Transactions\<close>

text \<open>What the three shapes of repository calls answer for a tenant in canonical form.\<close>

lemma WithTenant_Err:
  assumes "WithTenant t fn w = (Err e, w')"
  shows "(\<exists>m x. e = Errorf m (ErrText x)) \<or> (\<exists>w1 w2. fn t w1 = (Err e, w2) \<and> w_db w1 = w_db w \<and> w_clock w1 = w_clock w \<and> w_db w' = w_db w)"
proof -
  obtain f w1 where r1: "roundtrip w = (f, w1)" by fastforce
  obtain y w2 where q: "pg_query (\<lambda>d. Ok ()) w1 = (y, w2)" by fastforce
  obtain z w3 where fn: "fn t w2 = (z, w3)" by fastforce
  obtain f4 w4 where r4: "roundtrip w3 = (f4, w4)" by fastforce
  have y: "\<exists>m. e' = ErrText m" if "y = Err e'" for e' using pg_exec_Err [OF q [unfolded pg_query_def that]] by auto
  have keep: "w_db w2 = w_db w" "w_clock w2 = w_clock w" "w_db w1 = w_db w"
    using roundtrip_keeps [OF r1] pg_query_keeps [OF q] by simp_all
  show ?thesis
  proof (cases "f = NoFault \<and> (\<exists>u. y = Ok u) \<and> z = Err e")
    case True
    with assms r1 q fn keep show ?thesis by (auto simp: WithTenant_def Let_def)
  next
    case False
    with assms r1 q fn r4 y show ?thesis
      by (auto simp: WithTenant_def Let_def split: fault.splits res.splits)
  qed
qed

lemma find_outcome:
  assumes "WithTenant t (\<lambda>g w. rowR m (rls_query pg g q w)) w = (r, w')" "canonical_tenant pg t"
    and q: "\<And>e. q (Some t) (w_db w) = Err e \<Longrightarrow> e = ErrNoRows \<or> (\<exists>c. e = PgError c)"
  shows "w_db w' = w_db w" "r = Ok x \<Longrightarrow> q (Some t) (w_db w) = Ok x"
    and "r = Err e \<Longrightarrow> errors_Is e ErrNotFound \<Longrightarrow> \<exists>e'. q (Some t) (w_db w) = Err e' \<and> errors_Is e' ErrNoRows"
proof -
  have c: "current_tenant_id pg t = Inr (Some t)" using assms(2) by (simp add: canonical_tenant_def)
  show "w_db w' = w_db w" using WithTenant_reads [of "\<lambda>g w. rowR m (rls_query pg g q w)" t w] assms(1) by simp
  show "q (Some t) (w_db w) = Ok x" if "r = Ok x"
    using WithTenant_Ok [OF assms(1) [unfolded that]] c by (force dest!: rls_query_Ok)
  show "\<exists>e'. q (Some t) (w_db w) = Err e' \<and> errors_Is e' ErrNoRows" if r: "r = Err e" and e: "errors_Is e ErrNotFound"
  proof -
    from WithTenant_Err [OF assms(1) [unfolded r]] e obtain w1 w2 where
      f: "rowR m (rls_query pg t q w1) = (Err e, w2)" "w_db w1 = w_db w" by auto
    then obtain e' w3 where e': "rls_query pg t q w1 = (Err e', w3)" by (auto simp: rowR_def split: prod.splits res.splits if_splits)
    with rls_exec_Err [OF e' [unfolded rls_query_def]] f e c q [of e'] show ?thesis
      by (auto simp: rowR_def split: if_splits)
  qed
qed


lemma list_outcome:
  assumes "WithTenant t (\<lambda>g w. wrapR m (rls_query pg g q w)) w = (r, w')" "canonical_tenant pg t"
    and q: "\<And>e. q (Some t) (w_db w) = Err e \<Longrightarrow> \<exists>c. e = PgError c"
  shows "w_db w' = w_db w" "r = Ok x \<Longrightarrow> q (Some t) (w_db w) = Ok x" "r = Err e \<Longrightarrow> \<not> errors_Is e ErrNotFound"
proof -
  have c: "current_tenant_id pg t = Inr (Some t)" using assms(2) by (simp add: canonical_tenant_def)
  show "w_db w' = w_db w" using WithTenant_reads [of "\<lambda>g w. wrapR m (rls_query pg g q w)" t w] assms(1) by simp
  show "q (Some t) (w_db w) = Ok x" if "r = Ok x"
    using WithTenant_Ok [OF assms(1) [unfolded that]] c by (force dest!: rls_query_Ok)
  show "\<not> errors_Is e ErrNotFound" if r: "r = Err e"
  proof
    assume e: "errors_Is e ErrNotFound"
    with WithTenant_Err [OF assms(1) [unfolded r]] obtain w1 w2 where
      f: "wrapR m (rls_query pg t q w1) = (Err e, w2)" "w_db w1 = w_db w" by auto
    then obtain e' where e': "rls_query pg t q w1 = (Err e', w2)" "e = Errorf m e'"
      by (auto simp: wrapR_def split: prod.splits res.splits)
    with rls_exec_Err [OF e'(1) [unfolded rls_query_def]] f(2) e c q [of e'] show False by auto
  qed
qed

lemma WithTenant_effect:
  assumes "WithTenant t fn w = (r, w')" and P: "\<And>w1 x w2. fn t w1 = (Ok x, w2) \<Longrightarrow> P (w_db w1) (w_db w2)"
  shows "(\<nexists>x. r = Ok x) \<and> w_db w' = w_db w \<or> P (w_db w) (w_db w')"
proof (cases "\<exists>x. r = Ok x")
  case True
  then obtain x where "r = Ok x" ..
  from WithTenant_Ok [OF assms(1) [unfolded this]] P show ?thesis by metis
next
  case False
  from WithTenant_db [OF assms(1)] have "w_db w' = w_db w \<or> P (w_db w) (w_db w')"
  proof (elim disjE exE conjE)
    fix w1 x w2
    assume "fn t w1 = (Ok x, w2)" "w_db w1 = w_db w" "w_db w' = w_db w2"
    with P [of w1 x w2] show ?thesis by simp
  qed simp
  with False show ?thesis by auto
qed

lemma mapPgErr_not_found: "errors_Is (mapPgErr m e) ErrNotFound \<Longrightarrow> errors_Is e ErrNotFound"
  by (auto simp: mapPgErr_def split: option.splits if_splits)

lemma create_outcome:
  assumes "WithTenant t (\<lambda>g w. mapR m (rls_exec pg g q w)) w = (r, w')" "canonical_tenant pg t"
    and q: "\<forall>now e d. q (Some t) now (w_db w) = (Err e, d) \<longrightarrow> (\<exists>c. e = PgError c)"
  shows "r \<noteq> Ok () \<and> w_db w' = w_db w \<or> (\<exists>now. q (Some t) now (w_db w) = (Ok (), w_db w'))"
    and "r = Err e \<Longrightarrow> \<not> errors_Is e ErrNotFound"
proof -
  have c: "current_tenant_id pg t = Inr (Some t)" using assms(2) by (simp add: canonical_tenant_def)
  have "(\<nexists>x. r = Ok x) \<and> w_db w' = w_db w \<or> (\<exists>now. q (Some t) now (w_db w) = (Ok (), w_db w'))"
    by (rule WithTenant_effect [OF assms(1)]) (use c in \<open>force dest!: rls_exec_Ok\<close>)
  then show "r \<noteq> Ok () \<and> w_db w' = w_db w \<or> (\<exists>now. q (Some t) now (w_db w) = (Ok (), w_db w'))" by blast
  show "\<not> errors_Is e ErrNotFound" if r: "r = Err e"
  proof
    assume e: "errors_Is e ErrNotFound"
    with WithTenant_Err [OF assms(1) [unfolded r]] obtain w1 w2 where
      f: "mapR m (rls_exec pg t q w1) = (Err e, w2)" "w_db w1 = w_db w" by auto
    then obtain e' where e': "rls_exec pg t q w1 = (Err e', w2)" "e = mapPgErr m e'"
      by (auto simp: mapR_def split: prod.splits res.splits)
    with rls_exec_Err [OF e'(1)] f(2) mapPgErr_not_found [of m e'] e c q show False by fastforce
  qed
qed

lemma change_outcome:
  assumes "WithTenant t (\<lambda>g w. affectedR (mapR m (rls_exec pg g q w))) w = (r, w')" "canonical_tenant pg t"
    and q: "\<forall>now e d. q (Some t) now (w_db w) = (Err e, d) \<longrightarrow> (\<exists>c. e = PgError c)"
  shows "r \<noteq> Ok () \<and> w_db w' = w_db w \<or> (\<exists>now n. q (Some t) now (w_db w) = (Ok n, w_db w') \<and> n \<noteq> 0)"
    and "r = Err e \<Longrightarrow> errors_Is e ErrNotFound \<Longrightarrow> w_db w' = w_db w \<and> (\<exists>now d. q (Some t) now (w_db w) = (Ok 0, d))"
proof -
  have c: "current_tenant_id pg t = Inr (Some t)" using assms(2) by (simp add: canonical_tenant_def)
  have "(\<nexists>x. r = Ok x) \<and> w_db w' = w_db w \<or> (\<exists>now n. q (Some t) now (w_db w) = (Ok n, w_db w') \<and> n \<noteq> 0)"
    by (rule WithTenant_effect [OF assms(1)]) (use c in \<open>force simp: affectedR_Ok dest!: rls_exec_Ok\<close>)
  then show "r \<noteq> Ok () \<and> w_db w' = w_db w \<or> (\<exists>now n. q (Some t) now (w_db w) = (Ok n, w_db w') \<and> n \<noteq> 0)" by blast
  show "w_db w' = w_db w \<and> (\<exists>now d. q (Some t) now (w_db w) = (Ok 0, d))" if r: "r = Err e" and e: "errors_Is e ErrNotFound"
  proof -
    from WithTenant_Err [OF assms(1) [unfolded r]] e obtain w1 w2 where
      f: "affectedR (mapR m (rls_exec pg t q w1)) = (Err e, w2)" "w_db w1 = w_db w" "w_db w' = w_db w" by auto
    obtain x w3 where x: "rls_exec pg t q w1 = (x, w3)" by fastforce
    show ?thesis
    proof (cases x)
      case (Ok n)
      with f(1) x rls_exec_Ok [of pg t q w1 n w3] c f(2,3) show ?thesis by (force simp: affectedR_def bindR_def split: if_splits)
    next
      case (Err e')
      with f(1) x have "e = mapPgErr m e'" by (auto simp: affectedR_def bindR_def)
      with rls_exec_Err [of pg t q w1 e' w3] x Err f(2) mapPgErr_not_found [of m e'] e c q have False by fastforce
      then show ?thesis ..
    qed (use f(1) x in \<open>auto simp: affectedR_def bindR_def mapR_def\<close>)
  qed
qed


lemma answer_of_cases:
  assumes "answer_of f r = (a, s)"
  obtains (Ok) x where "r = (Ok x, s)" "a = f x" | (Absent) e where "r = (Err e, s)" "errors_Is e ErrNotFound" "a = Absent"
    | (Failed) "\<nexists>x. fst r = Ok x" "\<nexists>e. fst r = Err e \<and> errors_Is e ErrNotFound" "snd r = s" "a = Failed"
  using assms by (cases r; cases "fst r") (auto simp: answer_of_def split: if_splits)

section \<open>A repository over statements on one table\<close>

text \<open>\<open>table\<close> is what a read shows of the table's rows, \<open>inv\<close> what of the database has to stay as it is.\<close>

locale row_table =
  fixes pg :: PG and k :: "'r kind" and table :: "db \<Rightarrow> 'r list" and inv :: "db \<Rightarrow> bool" and rp :: "('r, world) repo"
    and m_find m_list m_insert m_update m_delete :: string
    and q_find :: "string \<Rightarrow> string option \<Rightarrow> db \<Rightarrow> 'r res" and q_list :: "string option \<Rightarrow> db \<Rightarrow> 'r list res"
    and q_insert :: "'r \<Rightarrow> string option \<Rightarrow> time \<Rightarrow> db \<Rightarrow> unit res \<times> db"
    and q_update :: "'r \<Rightarrow> string option \<Rightarrow> time \<Rightarrow> db \<Rightarrow> nat res \<times> db"
    and q_delete :: "string \<Rightarrow> string option \<Rightarrow> time \<Rightarrow> db \<Rightarrow> nat res \<times> db"
  assumes repo:
      "rp_find rp t i = WithTenant t (\<lambda>g w. rowR m_find (rls_query pg g (q_find i) w))"
      "rp_list rp t = WithTenant t (\<lambda>g w. wrapR m_list (rls_query pg g q_list w))"
      "rp_create rp r = WithTenant (k_owner k r) (\<lambda>g w. mapR m_insert (rls_exec pg g (q_insert r) w))"
      "rp_update rp r = WithTenant (k_owner k r) (\<lambda>g w. affectedR (mapR m_update (rls_exec pg g (q_update r) w)))"
      "rp_delete rp t i = WithTenant t (\<lambda>g w. affectedR (mapR m_delete (rls_exec pg g (q_delete i) w)))"
    and keys: "k_id k (k_new k r now) = k_id k r" "k_owner k (k_new k r now) = k_owner k r"
      "k_id k (k_revised k old r now) = k_id k old" "k_owner k (k_revised k old r now) = k_owner k old"
    and find_stmt: "canonical_id pg i \<Longrightarrow> inv d \<Longrightarrow> q_find i (Some t) d = first_row (filter (\<lambda>r. k_owner k r = t \<and> k_id k r = i) (table d))"
    and list_stmt: "q_list (Some t) d = Ok rs \<Longrightarrow> inv d \<Longrightarrow> keyed (k_owner k) (k_id k) (table d) \<Longrightarrow>
      set rs = set (filter (\<lambda>r. k_owner k r = t) (table d)) \<and> distinct rs \<and> sorted_wrt (k_before k) rs"
    and insert_stmt: "q_insert r (Some (k_owner k r)) now d = (Ok (), d') \<Longrightarrow> canonical_tenant pg (k_owner k r) \<Longrightarrow> canonical_id pg (k_id k r) \<Longrightarrow>
      inv d \<Longrightarrow> inv d' \<and> table d' = table d @ [k_new k r now] \<and> rows_of (k_owner k) (k_id k) (table d) (k_owner k r) (k_id k r) = None"
    and update_stmt: "q_update r (Some (k_owner k r)) now d = (Ok n, d') \<Longrightarrow> canonical_id pg (k_id k r) \<Longrightarrow> inv d \<Longrightarrow> inv d' \<and>
      table d' = map (\<lambda>x. if k_owner k x = k_owner k r \<and> k_id k x = k_id k r then k_revised k x r now else x) (table d) \<and>
      (n = 0 \<longleftrightarrow> rows_of (k_owner k) (k_id k) (table d) (k_owner k r) (k_id k r) = None)"
    and delete_stmt: "q_delete i (Some t) now d = (Ok n, d') \<Longrightarrow> canonical_id pg i \<Longrightarrow> inv d \<Longrightarrow> inv d' \<and>
      table d' = filter (\<lambda>x. \<not> (k_owner k x = t \<and> k_id k x = i)) (table d) \<and>
      (n = 0 \<longleftrightarrow> rows_of (k_owner k) (k_id k) (table d) t i = None)"
    and errors: "q_list (Some t) d = Err e \<Longrightarrow> \<exists>x. e = PgError x" "q_insert r cur now d = (Err e, d') \<Longrightarrow> \<exists>x. e = PgError x"
      "q_update r cur now d = (Err e, d') \<Longrightarrow> \<exists>x. e = PgError x" "q_delete i cur now d = (Err e, d') \<Longrightarrow> \<exists>x. e = PgError x"
begin

definition rows :: "world \<Rightarrow> 'r rows" where
  "rows w = rows_of (k_owner k) (k_id k) (table (w_db w))"

definition sound :: "world \<Rightarrow> bool" where
  "sound w \<longleftrightarrow> inv (w_db w) \<and> keyed (k_owner k) (k_id k) (table (w_db w))"

lemma find_step:
  assumes "perform rp (Find t i) w = (a, w')" "sound w" "canonical_tenant pg t" "canonical_id pg i"
  shows "sound w' \<and> map_step k (rows w) (Find t i) a (rows w')"
proof -
  obtain r where r: "WithTenant t (\<lambda>g w. rowR m_find (rls_query pg g (q_find i) w)) w = (r, w')" "answer_of Row (r, w') = (a, w')"
    using assms(1) by (auto simp: repo answer_of_def split: prod.splits res.splits)
  have inv: "inv (w_db w)" using assms(2) by (simp add: sound_def)
  have q: "q_find i (Some t) (w_db w) = (case rows w t i of None \<Rightarrow> Err ErrNoRows | Some x \<Rightarrow> Ok x)"
    unfolding find_stmt [OF assms(4) inv] rows_def rows_of_filter by (simp add: first_row_def split: list.splits)
  have e: "e = ErrNoRows \<or> (\<exists>c. e = PgError c)" if "q_find i (Some t) (w_db w) = Err e" for e
    using that by (simp add: q split: option.splits)
  note o = find_outcome [OF r(1) assms(3) e]
  have d: "rows w' = rows w" "sound w'" using o(1) assms(2) by (simp_all add: rows_def sound_def)
  from r(2) have "map_step k (rows w) (Find t i) a (rows w)"
  proof (cases rule: answer_of_cases)
    case (Ok x)
    then show ?thesis using o(2) [of x] by (auto simp: q intro!: map_step.Found split: option.splits)
  next
    case (Absent e)
    then show ?thesis using o(3) [of e] by (auto simp: q intro!: map_step.NotFound split: option.splits)
  qed (simp add: map_step.Failure)
  with d show ?thesis by simp
qed

lemma list_step:
  assumes "perform rp (Everything t) w = (a, w')" "sound w" "canonical_tenant pg t"
  shows "sound w' \<and> map_step k (rows w) (Everything t) a (rows w')"
proof -
  obtain r where r: "WithTenant t (\<lambda>g w. wrapR m_list (rls_query pg g q_list w)) w = (r, w')" "answer_of Rows (r, w') = (a, w')"
    using assms(1) by (auto simp: repo answer_of_def split: prod.splits res.splits)
  have e: "\<exists>x. e = PgError x" if "q_list (Some t) (w_db w) = Err e" for e using that by (rule errors)
  note o = list_outcome [OF r(1) assms(3) e]
  have d: "rows w' = rows w" "sound w'" using o(1) assms(2) by (simp_all add: rows_def sound_def)
  from r(2) have "map_step k (rows w) (Everything t) a (rows w)"
  proof (cases rule: answer_of_cases)
    case (Ok rs)
    have "set rs = set (filter (\<lambda>r. k_owner k r = t) (table (w_db w))) \<and> distinct rs \<and> sorted_wrt (k_before k) rs"
      using o(2) [of rs] Ok(1) assms(2) by (intro list_stmt) (simp_all add: sound_def)
    moreover have "ran (rows w t) = set (filter (\<lambda>r. k_owner k r = t) (table (w_db w)))"
      unfolding rows_def using assms(2) by (intro ran_rows_of) (simp add: sound_def)
    ultimately show ?thesis unfolding Ok(2) by (intro map_step.Listed) simp_all
  next
    case (Absent e)
    then show ?thesis using o(3) [of e] by auto
  qed (simp add: map_step.Failure)
  with d show ?thesis by simp
qed

text \<open>A change of one row, made or only acknowledged in vain.\<close>

lemma change_step:
  assumes r: "r \<noteq> Ok () \<and> w_db w' = w_db w \<or> sound w' \<and> map_step k (rows w) c Done_ok (rows w')"
    and absent: "\<And>e. r = Err e \<Longrightarrow> errors_Is e ErrNotFound \<Longrightarrow> w_db w' = w_db w \<and> map_step k (rows w) c Absent (rows w)"
    and a: "answer_of (\<lambda>_. Done_ok) (r, w') = (a, w')" and s: "sound w"
  shows "sound w' \<and> map_step k (rows w) c a (rows w')"
proof -
  have d: "rows w' = rows w \<and> sound w'" if "w_db w' = w_db w" using that s by (simp add: rows_def sound_def)
  from a show ?thesis
  proof (cases rule: answer_of_cases)
    case (Ok x)
    with r show ?thesis by auto
  next
    case (Absent e)
    with absent d show ?thesis by simp
  next
    case Failed
    with r d show ?thesis by (auto intro: map_step.Failure map_step.Unacknowledged)
  qed
qed

lemma create_step:
  assumes "perform rp (Insert r) w = (a, w')" "sound w" "canonical_tenant pg (k_owner k r)" "canonical_id pg (k_id k r)"
  shows "sound w' \<and> map_step k (rows w) (Insert r) a (rows w')"
proof -
  obtain x where x: "WithTenant (k_owner k r) (\<lambda>g w. mapR m_insert (rls_exec pg g (q_insert r) w)) w = (x, w')"
      "answer_of (\<lambda>_. Done_ok) (x, w') = (a, w')"
    using assms(1) by (auto simp: repo answer_of_def split: prod.splits res.splits)
  have e: "\<forall>now e d. q_insert r (Some (k_owner k r)) now (w_db w) = (Err e, d) \<longrightarrow> (\<exists>x. e = PgError x)" using errors(2) by metis
  have made: "sound w' \<and> map_step k (rows w) (Insert r) Done_ok (rows w')"
    if "q_insert r (Some (k_owner k r)) now (w_db w) = (Ok (), w_db w')" for now
    using insert_stmt [OF that assms(3,4)] assms(2) map_step.Inserted [of "rows w" k r now]
      rows_of_snoc [of "k_owner k" "k_id k" "table (w_db w)" "k_new k r now"]
      keyed_snoc [where own = "k_owner k" and key = "k_id k" and xs = "table (w_db w)" and x = "k_new k r now"]
    by (simp add: sound_def rows_def keys del: map_append)
  note o = create_outcome [OF x(1) assms(3) e]
  from o(1) made have 1: "x \<noteq> Ok () \<and> w_db w' = w_db w \<or> sound w' \<and> map_step k (rows w) (Insert r) Done_ok (rows w')" by metis
  show ?thesis using o(2) by (intro change_step [OF 1 _ x(2) assms(2)]) metis
qed

lemma update_step:
  assumes "perform rp (Replace r) w = (a, w')" "sound w" "canonical_tenant pg (k_owner k r)" "canonical_id pg (k_id k r)"
  shows "sound w' \<and> map_step k (rows w) (Replace r) a (rows w')"
proof -
  obtain x where x: "WithTenant (k_owner k r) (\<lambda>g w. affectedR (mapR m_update (rls_exec pg g (q_update r) w))) w = (x, w')"
      "answer_of (\<lambda>_. Done_ok) (x, w') = (a, w')"
    using assms(1) by (auto simp: repo answer_of_def split: prod.splits res.splits)
  have e: "\<forall>now e d. q_update r (Some (k_owner k r)) now (w_db w) = (Err e, d) \<longrightarrow> (\<exists>x. e = PgError x)" using errors(3) by metis
  have i: "inv (w_db w)" using assms(2) by (simp add: sound_def)
  have made: "sound w' \<and> map_step k (rows w) (Replace r) Done_ok (rows w')"
    if q: "q_update r (Some (k_owner k r)) now (w_db w) = (Ok n, w_db w')" "n \<noteq> 0" for now n
  proof -
    from update_stmt [OF q(1) assms(4) i] q(2) obtain old where old: "rows w (k_owner k r) (k_id k r) = Some old" by (auto simp: rows_def)
    have "rows w' = put (k_owner k r) (k_id k r) (Some (k_revised k old r now)) (rows w)" "sound w'"
      using update_stmt [OF q(1) assms(4) i] old assms(2)
        rows_of_map [of "k_owner k" "\<lambda>x. k_revised k x r now" "k_id k" "k_owner k r" "k_id k r" "table (w_db w)"]
        keyed_map [where own = "k_owner k" and f = "\<lambda>x. k_revised k x r now" and key = "k_id k" and t = "k_owner k r" and i = "k_id k r" and xs = "table (w_db w)"]
      by (simp_all add: rows_def sound_def keys del: map_map)
    with map_step.Replaced [where T = "rows w" and k = k and r = r and now = now, OF old] show ?thesis by simp
  qed
  have absent: "map_step k (rows w) (Replace r) Absent (rows w)" if "q_update r (Some (k_owner k r)) now (w_db w) = (Ok 0, d)" for now d
    using update_stmt [OF that assms(4) i] by (auto simp: rows_def intro: map_step.NotReplaced)
  note o = change_outcome [OF x(1) assms(3) e]
  from o(1) made have 1: "x \<noteq> Ok () \<and> w_db w' = w_db w \<or> sound w' \<and> map_step k (rows w) (Replace r) Done_ok (rows w')" by metis
  show ?thesis using o(2) absent by (intro change_step [OF 1 _ x(2) assms(2)]) metis
qed

lemma delete_step:
  assumes "perform rp (Remove t i) w = (a, w')" "sound w" "canonical_tenant pg t" "canonical_id pg i"
  shows "sound w' \<and> map_step k (rows w) (Remove t i) a (rows w')"
proof -
  obtain x where x: "WithTenant t (\<lambda>g w. affectedR (mapR m_delete (rls_exec pg g (q_delete i) w))) w = (x, w')"
      "answer_of (\<lambda>_. Done_ok) (x, w') = (a, w')"
    using assms(1) by (auto simp: repo answer_of_def split: prod.splits res.splits)
  have e: "\<forall>now e d. q_delete i (Some t) now (w_db w) = (Err e, d) \<longrightarrow> (\<exists>x. e = PgError x)" using errors(4) by metis
  have inv: "inv (w_db w)" using assms(2) by (simp add: sound_def)
  have made: "sound w' \<and> map_step k (rows w) (Remove t i) Done_ok (rows w')"
    if q: "q_delete i (Some t) now (w_db w) = (Ok n, w_db w')" "n \<noteq> 0" for now n
  proof -
    from delete_stmt [OF q(1) assms(4) inv] q(2) obtain old where old: "rows w t i = Some old" by (auto simp: rows_def)
    have "rows w' = put t i None (rows w)" "sound w'"
      using delete_stmt [OF q(1) assms(4) inv] assms(2) rows_of_remove [of "k_owner k" "k_id k" t i "table (w_db w)"]
      by (simp_all add: rows_def sound_def keyed_filter)
    with map_step.Removed [where T = "rows w" and k = k, OF old] show ?thesis by simp
  qed
  have absent: "map_step k (rows w) (Remove t i) Absent (rows w)" if "q_delete i (Some t) now (w_db w) = (Ok 0, d)" for now d
    using delete_stmt [OF that assms(4) inv] by (auto simp: rows_def intro: map_step.NotRemoved)
  note o = change_outcome [OF x(1) assms(3) e]
  from o(1) made have 1: "x \<noteq> Ok () \<and> w_db w' = w_db w \<or> sound w' \<and> map_step k (rows w) (Remove t i) Done_ok (rows w')" by metis
  show ?thesis using o(2) absent by (intro change_step [OF 1 _ x(2) assms(2)]) metis
qed

end

sublocale row_table \<subseteq> row_repository rp k rows sound "canonical_tenant pg" "canonical_id pg"
proof
  fix c a s s'
  assume "perform rp c s = (a, s')" "sound s" "call_ok k (canonical_tenant pg) (canonical_id pg) c"
  then show "sound s' \<and> map_step k (rows s) c a (rows s')"
    by (cases c) (simp_all only: call_ok.simps find_step list_step create_step update_step delete_step)
qed

end
