(* ===== verification/Farm_Maps.thy ===== *)
theory Farm_Maps
  imports Row_Maps
begin

text \<open>
  The repositories of campaigns and of applications are maps: their statements are those of a
  \<open>row_table\<close>. A row is shown with the dates and times its columns keep; an application also with the
  name of its operator, read off the accounts \<open>us\<close> of the database.
\<close>

section \<open>Campaigns\<close>

definition campaign_kind :: "PG \<Rightarrow> Campaign kind" where
  "campaign_kind pg = \<lparr>k_id = c_ID, k_owner = c_TenantID,
     k_new = \<lambda>c now. c\<lparr>c_StartedAt := map_option (pg_date pg) (c_StartedAt c),
       c_EndedAt := map_option (pg_date pg) (c_EndedAt c), c_CreatedAt := now, c_UpdatedAt := now\<rparr>,
     k_revised = \<lambda>old c now. old\<lparr>c_Name := c_Name c, c_Season := c_Season c,
       c_StartedAt := map_option (pg_date pg) (c_StartedAt c), c_EndedAt := map_option (pg_date pg) (c_EndedAt c),
       c_UpdatedAt := now\<rparr>,
     k_before = started_desc\<rparr>"

definition campaign_repo :: "'s CampaignRepository \<Rightarrow> (Campaign, 's) repo" where
  "campaign_repo R = \<lparr>rp_find = cmp_FindByID R, rp_list = cmp_List R, rp_create = cmp_Create R, rp_update = cmp_Update R,
     rp_delete = cmp_Delete R\<rparr>"

lemma campaign_kind_sel [simp]:
  "k_id (campaign_kind pg) = c_ID" "k_owner (campaign_kind pg) = c_TenantID" "k_before (campaign_kind pg) = started_desc"
  by (simp_all add: campaign_kind_def)

lemma campaign_kind_keys [simp]:
  "c_ID (k_new (campaign_kind pg) c now) = c_ID c" "c_TenantID (k_new (campaign_kind pg) c now) = c_TenantID c"
  "c_ID (k_revised (campaign_kind pg) old c now) = c_ID old" "c_TenantID (k_revised (campaign_kind pg) old c now) = c_TenantID old"
  by (simp_all add: campaign_kind_def)

lemma started_desc_sorted: "sorted_wrt started_desc (sort_by started_desc xs)"
  by (rule sorted_sort_by) (auto simp: started_desc_def split: option.splits)

lemma campaign_insert_Ok:
  assumes "campaign_insert pg c (Some (c_TenantID c)) now d = (Ok (), d')" "canonical_tenant pg (c_TenantID c)" "canonical_id pg (c_ID c)"
  shows "d' = d\<lparr>campaigns := campaigns d @ [k_new (campaign_kind pg) c now]\<rparr>"
    and "rows_of c_TenantID c_ID (campaigns d) (c_TenantID c) (c_ID c) = None"
  using assms by (auto simp: campaign_insert_def insert_stmt_Ok campaign_kind_def canonical_tenant_def canonical_id_def rows_of_None)

lemma campaign_insert_Err: "campaign_insert pg c cur now d = (Err e, d') \<Longrightarrow> \<exists>x. e = PgError x"
  by (auto simp: campaign_insert_def insert_stmt_def check_def uuid_param_def split: res.splits option.splits if_splits)


lemma campaign_update_Ok:
  assumes "campaign_update pg c (Some (c_TenantID c)) now d = (Ok n, d')" "canonical_id pg (c_ID c)"
  shows "d' = d\<lparr>campaigns := map (\<lambda>r. if c_TenantID r = c_TenantID c \<and> c_ID r = c_ID c
      then k_revised (campaign_kind pg) r c now else r) (campaigns d)\<rparr>"
    and "n = 0 \<longleftrightarrow> rows_of c_TenantID c_ID (campaigns d) (c_TenantID c) (c_ID c) = None"
  using assms by (auto simp: campaign_update_def canonical_id_def Let_def uuid_param_def campaign_kind_def filter_empty_conv rows_of_None)

lemma campaign_update_Err: "campaign_update pg c cur now d = (Err e, d') \<Longrightarrow> \<exists>x. e = PgError x"
  by (auto simp: campaign_update_def Let_def check_def uuid_param_def split: res.splits option.splits if_splits)

lemma campaign_delete_Ok:
  assumes "campaign_delete pg i (Some t) now d = (Ok n, d')" "canonical_id pg i"
  shows "d' = d\<lparr>campaigns := filter (\<lambda>r. \<not> (c_TenantID r = t \<and> c_ID r = i)) (campaigns d)\<rparr>"
    and "n = 0 \<longleftrightarrow> rows_of c_TenantID c_ID (campaigns d) t i = None"
  using assms by (auto simp: campaign_delete_def canonical_id_def Let_def uuid_param_def filter_empty_conv rows_of_None)

lemma campaign_delete_Err: "campaign_delete pg i cur now d = (Err e, d') \<Longrightarrow> \<exists>x. e = PgError x"
  by (auto simp: campaign_delete_def Let_def uuid_param_def split: res.splits option.splits)


interpretation campaign_map: row_table pg "campaign_kind pg" campaigns "\<lambda>d. True" "campaign_repo (NewCampaignRepo pg)"
  "''query campaign by id''" "''list campaigns''" "''insert campaign''" "''update campaign''" "''delete campaign''"
  "\<lambda>i cur d. bind1 (uuid_param pg i) (\<lambda>j. first_row (filter (\<lambda>r. c_ID r = j) (visible c_TenantID cur (campaigns d))))"
  "\<lambda>cur d. Ok (sort_by started_desc (visible c_TenantID cur (campaigns d)))"
  "campaign_insert pg" "campaign_update pg" "campaign_delete pg" for pg
proof (unfold_locales, goal_cases)
  case (10 i d t)
  then show ?case by (simp add: canonical_id_def uuid_param_def conj_commute)
next
  case (11 t d rs)
  then show ?case using distinct_sort_by [of id started_desc "filter (\<lambda>r. c_TenantID r = t) (campaigns d)"]
    by (auto simp: started_desc_sorted distinct_map)
next
  case (12 r now d d')
  then show ?case using campaign_insert_Ok [of pg r now d d'] by simp
next
  case (13 r now d n d')
  then show ?case using campaign_update_Ok [of pg r now d n d'] by simp
next
  case (14 i t now d n d')
  then show ?case using campaign_delete_Ok [of pg i t now d n d'] by simp
next
  case 16
  then show ?case by (rule campaign_insert_Err)
next
  case 17
  then show ?case by (rule campaign_update_Err)
next
  case 18
  then show ?case by (rule campaign_delete_Err)
qed (simp_all add: campaign_repo_def NewCampaignRepo_def CampaignRepo_FindByID_def CampaignRepo_List_def CampaignRepo_Create_def
    CampaignRepo_Update_def CampaignRepo_Delete_def)

section \<open>Applications\<close>

definition shown :: "User list \<Rightarrow> Application \<Rightarrow> Application" where
  "shown us r = r\<lparr>a_OperatorName :=
     (case List.find (\<lambda>u. u_TenantID u = a_TenantID r \<and> a_OperatorID r \<noteq> [] \<and> u_ID u = a_OperatorID r) us of
        None \<Rightarrow> [] | Some u \<Rightarrow> u_FullName u)\<rparr>"

definition pg_id :: "PG \<Rightarrow> string \<Rightarrow> string" where
  "pg_id pg i = (case pg_uuid pg i of None \<Rightarrow> [] | Some u \<Rightarrow> u)"

definition pg_operator :: "PG \<Rightarrow> string \<Rightarrow> string" where
  "pg_operator pg i = (if i = [] then [] else pg_id pg i)"

definition application_kind :: "PG \<Rightarrow> User list \<Rightarrow> Application kind" where
  "application_kind pg us = \<lparr>k_id = a_ID, k_owner = a_TenantID,
     k_new = \<lambda>a now. shown us (a\<lparr>a_LotID := pg_id pg (a_LotID a), a_CampaignID := pg_id pg (a_CampaignID a),
       a_AppliedAt := pg_ts pg (a_AppliedAt a), a_OperatorID := pg_operator pg (a_OperatorID a),
       a_CreatedAt := now, a_UpdatedAt := now\<rparr>),
     k_revised = \<lambda>old a now. shown us (old\<lparr>a_LotID := pg_id pg (a_LotID a), a_CampaignID := pg_id pg (a_CampaignID a),
       a_ProductName := a_ProductName a, a_Dose := a_Dose a, a_AppliedAt := pg_ts pg (a_AppliedAt a),
       a_OperatorID := pg_operator pg (a_OperatorID a), a_Notes := a_Notes a, a_UpdatedAt := now\<rparr>),
     k_before = \<lambda>a b. a_AppliedAt b \<le> a_AppliedAt a\<rparr>"

definition application_repo :: "'s ApplicationRepository \<Rightarrow> (Application, 's) repo" where
  "application_repo R = \<lparr>rp_find = app_FindByID R, rp_list = app_List R, rp_create = app_Create R, rp_update = app_Update R,
     rp_delete = app_Delete R\<rparr>"

lemma shown_sel [simp]: "a_ID (shown us r) = a_ID r" "a_TenantID (shown us r) = a_TenantID r" "a_AppliedAt (shown us r) = a_AppliedAt r"
  by (simp_all add: shown_def)

lemma application_kind_sel [simp]:
  "k_id (application_kind pg us) = a_ID" "k_owner (application_kind pg us) = a_TenantID"
  "k_before (application_kind pg us) = (\<lambda>a b. a_AppliedAt b \<le> a_AppliedAt a)"
  by (simp_all add: application_kind_def)

lemma application_kind_keys [simp]:
  "a_ID (k_new (application_kind pg us) a now) = a_ID a" "a_TenantID (k_new (application_kind pg us) a now) = a_TenantID a"
  "a_ID (k_revised (application_kind pg us) old a now) = a_ID old" "a_TenantID (k_revised (application_kind pg us) old a now) = a_TenantID old"
  by (simp_all add: application_kind_def)

lemma find_filter: "List.find P xs = (case filter P xs of [] \<Rightarrow> None | x # _ \<Rightarrow> Some x)"
  by (induction xs) auto

lemma scan_shown: "a_TenantID r = t \<Longrightarrow> scan_application (Some t) d r = shown (users d) r"
  by (auto simp: scan_application_def shown_def find_filter conj_commute conj_left_commute split: list.splits)

lemma application_row_Ok:
  assumes "application_row pg a i t created now = Ok r"
  shows "r = \<lparr>a_ID = i, a_TenantID = t, a_LotID = pg_id pg (a_LotID a), a_CampaignID = pg_id pg (a_CampaignID a),
    a_ProductName = a_ProductName a, a_Dose = a_Dose a, a_AppliedAt = pg_ts pg (a_AppliedAt a),
    a_OperatorID = pg_operator pg (a_OperatorID a), a_OperatorName = [], a_Notes = a_Notes a, a_CreatedAt = created, a_UpdatedAt = now\<rparr>"
  using assms by (auto simp: application_row_def pg_id_def pg_operator_def nullableUUID_def uuid_param_def split: option.splits if_splits)

lemma application_row_Err: "application_row pg a i t created now = Err e \<Longrightarrow> \<exists>x. e = PgError x"
  by (auto simp: application_row_def bind1_def check_def uuid_param_def split: res.splits option.splits if_splits)

lemma application_insert_Ok:
  assumes "application_insert pg a (Some (a_TenantID a)) now d = (Ok (), d')" "canonical_tenant pg (a_TenantID a)" "canonical_id pg (a_ID a)"
  shows "users d' = users d" "map (shown us) (applications d') = map (shown us) (applications d) @ [k_new (application_kind pg us) a now]"
    and "rows_of a_TenantID a_ID (map (shown us) (applications d)) (a_TenantID a) (a_ID a) = None"
  using assms by (auto simp: application_insert_def insert_stmt_Ok application_kind_def shown_def canonical_tenant_def canonical_id_def
      rows_of_None dest!: application_row_Ok)


lemma application_insert_Err: "application_insert pg a cur now d = (Err e, d') \<Longrightarrow> \<exists>x. e = PgError x"
  by (auto simp: application_insert_def insert_stmt_def bind1_def check_def uuid_param_def
      dest!: application_row_Err split: res.splits option.splits if_splits)

lemma application_update_Ok:
  assumes "application_update pg a (Some (a_TenantID a)) now d = (Ok n, d')" "canonical_id pg (a_ID a)"
  shows "users d' = users d" "map (shown us) (applications d') = map (\<lambda>x. if a_TenantID x = a_TenantID a \<and> a_ID x = a_ID a
      then k_revised (application_kind pg us) x a now else x) (map (shown us) (applications d))"
    and "n = 0 \<longleftrightarrow> rows_of a_TenantID a_ID (map (shown us) (applications d)) (a_TenantID a) (a_ID a) = None"
proof -
  from assms obtain new where new: "application_row pg a (a_ID a) [] zero_Time now = Ok new"
    by (auto simp: application_update_def bind1_def uuid_param_def canonical_id_def split: res.splits option.splits)
  let ?hit = "\<lambda>r. a_TenantID r = a_TenantID a \<and> a_ID r = a_ID a"
  have id: "a_ID new = a_ID a" using application_row_Ok [OF new] by simp
  have d: "d' = d\<lparr>applications := map (\<lambda>r. if ?hit r then new\<lparr>a_TenantID := a_TenantID r, a_CreatedAt := a_CreatedAt r\<rparr> else r) (applications d)\<rparr>"
    and n: "n = length (filter ?hit (applications d))"
    using assms new id by (auto simp: application_update_def uuid_param_def canonical_id_def Let_def)
  show "users d' = users d" by (simp add: d)
  have "shown us (new\<lparr>a_TenantID := a_TenantID r, a_CreatedAt := a_CreatedAt r\<rparr>) = k_revised (application_kind pg us) (shown us r) a now"
    if "?hit r" for r using that unfolding application_row_Ok [OF new] by (cases r) (simp add: application_kind_def shown_def)
  then show "map (shown us) (applications d') = map (\<lambda>x. if ?hit x then k_revised (application_kind pg us) x a now else x) (map (shown us) (applications d))"
    by (simp add: d)
  show "n = 0 \<longleftrightarrow> rows_of a_TenantID a_ID (map (shown us) (applications d)) (a_TenantID a) (a_ID a) = None"
    by (auto simp: n filter_empty_conv rows_of_None)
qed

lemma application_update_Err: "application_update pg a cur now d = (Err e, d') \<Longrightarrow> \<exists>x. e = PgError x"
  by (auto simp: application_update_def Let_def bind1_def check_def uuid_param_def
      dest!: application_row_Err split: res.splits option.splits if_splits)

lemma application_delete_Ok:
  assumes "application_delete pg i (Some t) now d = (Ok n, d')" "canonical_id pg i"
  shows "users d' = users d"
    and "map (shown us) (applications d') = filter (\<lambda>x. \<not> (a_TenantID x = t \<and> a_ID x = i)) (map (shown us) (applications d))"
    and "n = 0 \<longleftrightarrow> rows_of a_TenantID a_ID (map (shown us) (applications d)) t i = None"
  using assms by (auto simp: application_delete_def canonical_id_def Let_def uuid_param_def filter_empty_conv rows_of_None filter_map o_def)

lemma application_delete_Err: "application_delete pg i cur now d = (Err e, d') \<Longrightarrow> \<exists>x. e = PgError x"
  by (auto simp: application_delete_def Let_def uuid_param_def split: res.splits option.splits)

lemma applied_desc_sorted: "sorted_wrt (\<lambda>a b. a_AppliedAt b \<le> a_AppliedAt a) (sort_by (\<lambda>a b. a_AppliedAt b \<le> a_AppliedAt a) xs)"
  by (rule sorted_sort_by) auto

interpretation application_map: row_table pg "application_kind pg us" "\<lambda>d. map (shown us) (applications d)" "\<lambda>d. users d = us" "application_repo (NewApplicationRepo pg)"
  "''query application by id''" "''list applications''" "''insert application''" "''update application''" "''delete application''"
  "\<lambda>i cur d. bind1 (uuid_param pg i) (\<lambda>j. first_row (map (scan_application cur d) (filter (\<lambda>r. a_ID r = j) (visible a_TenantID cur (applications d)))))"
  "\<lambda>cur d. Ok (map (scan_application cur d) (sort_by (\<lambda>a b. a_AppliedAt b \<le> a_AppliedAt a) (visible a_TenantID cur (applications d))))"
  "application_insert pg" "application_update pg" "application_delete pg" for pg us
proof (unfold_locales, goal_cases)
  case (10 i d t)
  have "map (scan_application (Some t) d) (filter (\<lambda>r. a_ID r = i) (visible a_TenantID (Some t) (applications d))) =
      filter (\<lambda>r. a_TenantID r = t \<and> a_ID r = i) (map (shown us) (applications d))"
    using 10 by (simp add: filter_map o_def conj_commute scan_shown cong: map_cong)
  with 10 show ?case by (simp add: canonical_id_def uuid_param_def)
next
  case (11 t d rs)
  let ?xs = "sort_by (\<lambda>a b. a_AppliedAt b \<le> a_AppliedAt a) (filter (\<lambda>r. a_TenantID r = t) (applications d))"
  have rs: "rs = map (shown us) ?xs" using 11 by (auto simp: scan_shown)
  have "distinct (map (\<lambda>r. (a_ID r, a_TenantID r)) rs)"
    using 11(3) by (simp add: rs o_def distinct_map_filter)
  then have "distinct rs" by (simp add: distinct_map)
  moreover have "sorted_wrt (\<lambda>a b. a_AppliedAt b \<le> a_AppliedAt a) rs" using applied_desc_sorted by (simp add: rs sorted_wrt_map)
  ultimately show ?case by (auto simp: rs)
next
  case (12 r now d d')
  then show ?case using application_insert_Ok(1) [of pg r now d d'] application_insert_Ok(2,3) [of pg r now d d' us] by simp
next
  case (13 r now d n d')
  then show ?case using application_update_Ok(1) [of pg r now d n d'] application_update_Ok(2,3) [of pg r now d n d' us] by simp
next
  case (14 i t now d n d')
  then show ?case using application_delete_Ok(1) [of pg i t now d n d'] application_delete_Ok(2,3) [of pg i t now d n d' us] by simp
next
  case 16
  then show ?case by (rule application_insert_Err)
next
  case 17
  then show ?case by (rule application_update_Err)
next
  case 18
  then show ?case by (rule application_delete_Err)
qed (simp_all add: application_repo_def NewApplicationRepo_def ApplicationRepo_FindByID_def ApplicationRepo_List_def ApplicationRepo_Create_def
    ApplicationRepo_Update_def ApplicationRepo_Delete_def)

end
