(* ===== verification/Sha_Vectors.thy ===== *)
theory Sha_Vectors
  imports Sha256
begin

text \<open>
  Two digests of the hash model, computed by the kernel eight rounds at a time: the one-block test
  vector of FIPS 180-4, which ties the definitions of \<open>Sha256\<close> to the standard, and the digest of
  forty-three letters A, which is the text of thirty-two zero bytes in \<open>base64.RawURLEncoding\<close>.
\<close>

section \<open>Rounds in pieces\<close>

fun sha_steps :: "w32 list \<Rightarrow> w32 list \<times> hstate \<Rightarrow> w32 list \<times> hstate" where
  "sha_steps [] s = s"
| "sha_steps (k # ks) (ws, h) = sha_steps ks (schedule ws, sha_round k (hd ws) h)"

lemma sha_steps_append: "sha_steps (xs @ ys) s = sha_steps ys (sha_steps xs s)"
  by (induction xs s rule: sha_steps.induct) simp_all

lemma sha_rounds_steps: "sha_rounds ks ws h = snd (sha_steps ks (ws, h))"
  by (induction ks ws h rule: sha_rounds.induct) simp_all

lemma be_bytes_8: "be_bytes 8 x = [x div 256 ^ 7 mod 256, x div 256 ^ 6 mod 256, x div 256 ^ 5 mod 256,
   x div 256 ^ 4 mod 256, x div 256 ^ 3 mod 256, x div 256 ^ 2 mod 256, x div 256 mod 256, x mod 256]"
  by (simp add: be_bytes_def upt_rec_numeral upt_rec)

lemma be_bytes_4: "be_bytes 4 x = [x div 256 ^ 3 mod 256, x div 256 ^ 2 mod 256, x div 256 mod 256, x mod 256]"
  by (simp add: be_bytes_def upt_rec_numeral upt_rec)

lemma replicate_numeral: "replicate (numeral k) x = x # replicate (pred_numeral k) x"
  by (simp add: numeral_eq_Suc)

lemma K256_pieces: "K256 =
  [1116352408, 1899447441, 3049323471, 3921009573, 961987163, 1508970993, 2453635748, 2870763221] @
  [3624381080, 310598401, 607225278, 1426881987, 1925078388, 2162078206, 2614888103, 3248222580] @
  [3835390401, 4022224774, 264347078, 604807628, 770255983, 1249150122, 1555081692, 1996064986] @
  [2554220882, 2821834349, 2952996808, 3210313671, 3336571891, 3584528711, 113926993, 338241895] @
  [666307205, 773529912, 1294757372, 1396182291, 1695183700, 1986661051, 2177026350, 2456956037] @
  [2730485921, 2820302411, 3259730800, 3345764771, 3516065817, 3600352804, 4094571909, 275423344] @
  [430227734, 506948616, 659060556, 883997877, 958139571, 1322822218, 1537002063, 1747873779] @
  [1955562222, 2024104815, 2227730452, 2361852424, 2428436474, 2756734187, 3204031479, 3329325298]"
  by (simp add: K256_def)

text \<open>One block: the digest is the state after eight pieces added to the initial one.\<close>

lemma Sum256_block:
  assumes "be32 (sha_pad (map of_char s)) = ws" "length ws = 16" "sha_rounds K256 ws H256_init = h"
  shows "Sum256 s = map of_nat (concat (map (\<lambda>w. be_bytes 4 (unat w)) (hs_words (hs_add H256_init h))))"
  using assms by (simp add: Sum256_def sha_blocks.simps sha_block_def Let_def) (auto simp: sha_blocks.simps)

section \<open>The digest of \<open>abc\<close>\<close>

lemma abc_words: "be32 (sha_pad (map of_char ''abc'')) =
  [0x61626380, 0, 0, 0, 0, 0, 0, 0, 0, 0, 0, 0, 0, 0, 0, 0x18]"
  unfolding sha_pad_def by (simp add: be_bytes_8 replicate_numeral)

lemma abc_0:
  "sha_steps [0x428a2f98, 0x71374491, 0xb5c0fbcf, 0xe9b5dba5, 0x3956c25b, 0x59f111f1, 0x923f82a4, 0xab1c5ed5]
    ([0x61626380, 0, 0, 0, 0, 0, 0, 0, 0, 0, 0, 0, 0, 0, 0, 0x18],
     HS 0x6a09e667 0xbb67ae85 0x3c6ef372 0xa54ff53a 0x510e527f 0x9b05688c 0x1f83d9ab 0x5be0cd19) =
    ([0, 0, 0, 0, 0, 0, 0, 0x18, 0x61626380, 0xf0000, 0x7da86405, 0x600003c6, 0x3e9d7b78, 0x183fc00, 0x12dcbfdb, 0xe2e2c38e],
     HS 0x85a07b5f 0xe5030380 0x2b4209f5 0x4409a6a 0xc657a79 0x9b27a401 0x714260ad 0x43ada245)"
  by code_simp

lemma abc_1:
  "sha_steps [0xd807aa98, 0x12835b01, 0x243185be, 0x550c7dc3, 0x72be5d74, 0x80deb1fe, 0x9bdc06a7, 0xc19bf174]
    ([0, 0, 0, 0, 0, 0, 0, 0x18, 0x61626380, 0xf0000, 0x7da86405, 0x600003c6, 0x3e9d7b78, 0x183fc00, 0x12dcbfdb, 0xe2e2c38e],
     HS 0x85a07b5f 0xe5030380 0x2b4209f5 0x4409a6a 0xc657a79 0x9b27a401 0x714260ad 0x43ada245) =
    ([0x61626380, 0xf0000, 0x7da86405, 0x600003c6, 0x3e9d7b78, 0x183fc00, 0x12dcbfdb, 0xe2e2c38e, 0xc8215c1a, 0xb73679a2, 0xe5bc3909, 0x32663c5b, 0x9d209d67, 0xec8726cb, 0x702138a4, 0xd3b7973b],
     HS 0xb0fa238e 0xc0645fde 0xd932eb16 0x87912990 0x7590dcd 0xb92f20c 0x745a48de 0x1e578218)"
  by code_simp

lemma abc_2:
  "sha_steps [0xe49b69c1, 0xefbe4786, 0xfc19dc6, 0x240ca1cc, 0x2de92c6f, 0x4a7484aa, 0x5cb0a9dc, 0x76f988da]
    ([0x61626380, 0xf0000, 0x7da86405, 0x600003c6, 0x3e9d7b78, 0x183fc00, 0x12dcbfdb, 0xe2e2c38e, 0xc8215c1a, 0xb73679a2, 0xe5bc3909, 0x32663c5b, 0x9d209d67, 0xec8726cb, 0x702138a4, 0xd3b7973b],
     HS 0xb0fa238e 0xc0645fde 0xd932eb16 0x87912990 0x7590dcd 0xb92f20c 0x745a48de 0x1e578218) =
    ([0xc8215c1a, 0xb73679a2, 0xe5bc3909, 0x32663c5b, 0x9d209d67, 0xec8726cb, 0x702138a4, 0xd3b7973b, 0x93f5997f, 0x3b68ba73, 0xaff4ffc1, 0xf10a5c62, 0xa8b3996, 0x72af830a, 0x9409e33e, 0x24641522],
     HS 0xc5d53d8d 0xa7a3623f 0xc2606d6d 0x9dc68b63 0xaa47c347 0x49f5114a 0xe1257970 0x8ada8930)"
  by code_simp

lemma abc_3:
  "sha_steps [0x983e5152, 0xa831c66d, 0xb00327c8, 0xbf597fc7, 0xc6e00bf3, 0xd5a79147, 0x6ca6351, 0x14292967]
    ([0xc8215c1a, 0xb73679a2, 0xe5bc3909, 0x32663c5b, 0x9d209d67, 0xec8726cb, 0x702138a4, 0xd3b7973b, 0x93f5997f, 0x3b68ba73, 0xaff4ffc1, 0xf10a5c62, 0xa8b3996, 0x72af830a, 0x9409e33e, 0x24641522],
     HS 0xc5d53d8d 0xa7a3623f 0xc2606d6d 0x9dc68b63 0xaa47c347 0x49f5114a 0xe1257970 0x8ada8930) =
    ([0x93f5997f, 0x3b68ba73, 0xaff4ffc1, 0xf10a5c62, 0xa8b3996, 0x72af830a, 0x9409e33e, 0x24641522, 0x9f47bf94, 0xf0a64f5a, 0x3e246a79, 0x27333ba3, 0xc4763f2, 0x840abf27, 0x7a290d5d, 0x65c43da],
     HS 0x73b33bf5 0xea992a22 0xa0060b30 0x363482c9 0xba591112 0x109ab3a 0xade79437 0x6112a3b7)"
  by code_simp

lemma abc_4:
  "sha_steps [0x27b70a85, 0x2e1b2138, 0x4d2c6dfc, 0x53380d13, 0x650a7354, 0x766a0abb, 0x81c2c92e, 0x92722c85]
    ([0x93f5997f, 0x3b68ba73, 0xaff4ffc1, 0xf10a5c62, 0xa8b3996, 0x72af830a, 0x9409e33e, 0x24641522, 0x9f47bf94, 0xf0a64f5a, 0x3e246a79, 0x27333ba3, 0xc4763f2, 0x840abf27, 0x7a290d5d, 0x65c43da],
     HS 0x73b33bf5 0xea992a22 0xa0060b30 0x363482c9 0xba591112 0x109ab3a 0xade79437 0x6112a3b7) =
    ([0x9f47bf94, 0xf0a64f5a, 0x3e246a79, 0x27333ba3, 0xc4763f2, 0x840abf27, 0x7a290d5d, 0x65c43da, 0xfb3e89cb, 0xcc7617db, 0xb9e66c34, 0xa9993667, 0x84badedd, 0xc21462bc, 0x1487472c, 0xb20f7a99],
     HS 0x79ea687a 0x6dc57a8a 0x34df1604 0x41a65cb1 0x1efbc0a0 0xf0781bc8 0xa507a53d 0x772a26b)"
  by code_simp

lemma abc_5:
  "sha_steps [0xa2bfe8a1, 0xa81a664b, 0xc24b8b70, 0xc76c51a3, 0xd192e819, 0xd6990624, 0xf40e3585, 0x106aa070]
    ([0x9f47bf94, 0xf0a64f5a, 0x3e246a79, 0x27333ba3, 0xc4763f2, 0x840abf27, 0x7a290d5d, 0x65c43da, 0xfb3e89cb, 0xcc7617db, 0xb9e66c34, 0xa9993667, 0x84badedd, 0xc21462bc, 0x1487472c, 0xb20f7a99],
     HS 0x79ea687a 0x6dc57a8a 0x34df1604 0x41a65cb1 0x1efbc0a0 0xf0781bc8 0xa507a53d 0x772a26b) =
    ([0xfb3e89cb, 0xcc7617db, 0xb9e66c34, 0xa9993667, 0x84badedd, 0xc21462bc, 0x1487472c, 0xb20f7a99, 0xef57b9cd, 0xebe6b238, 0x9fe3095e, 0x78bc8d4b, 0xa43fcf15, 0x668b2ff8, 0xeeaba2cc, 0x12b1edeb],
     HS 0x4172328d 0xa14c14b0 0x72ab4b91 0x26628815 0xfecf0bc6 0xd57b94a9 0xb7755da1 0xa80f11f0)"
  by code_simp

lemma abc_6:
  "sha_steps [0x19a4c116, 0x1e376c08, 0x2748774c, 0x34b0bcb5, 0x391c0cb3, 0x4ed8aa4a, 0x5b9cca4f, 0x682e6ff3]
    ([0xfb3e89cb, 0xcc7617db, 0xb9e66c34, 0xa9993667, 0x84badedd, 0xc21462bc, 0x1487472c, 0xb20f7a99, 0xef57b9cd, 0xebe6b238, 0x9fe3095e, 0x78bc8d4b, 0xa43fcf15, 0x668b2ff8, 0xeeaba2cc, 0x12b1edeb],
     HS 0x4172328d 0xa14c14b0 0x72ab4b91 0x26628815 0xfecf0bc6 0xd57b94a9 0xb7755da1 0xa80f11f0) =
    ([0xef57b9cd, 0xebe6b238, 0x9fe3095e, 0x78bc8d4b, 0xa43fcf15, 0x668b2ff8, 0xeeaba2cc, 0x12b1edeb, 0xb80a5a34, 0x1ce797d5, 0x310fc1d7, 0xa31968ce, 0x7d8ce042, 0xd5892c87, 0xef2e48b, 0x86476aaa],
     HS 0x38cc9913 0x3ec45cdb 0xf5702fdb 0x101fd28f 0x54cb266b 0xe50e1b4f 0x9f4787c3 0x529e7d00)"
  by code_simp

lemma abc_7:
  "sha_steps [0x748f82ee, 0x78a5636f, 0x84c87814, 0x8cc70208, 0x90befffa, 0xa4506ceb, 0xbef9a3f7, 0xc67178f2]
    ([0xef57b9cd, 0xebe6b238, 0x9fe3095e, 0x78bc8d4b, 0xa43fcf15, 0x668b2ff8, 0xeeaba2cc, 0x12b1edeb, 0xb80a5a34, 0x1ce797d5, 0x310fc1d7, 0xa31968ce, 0x7d8ce042, 0xd5892c87, 0xef2e48b, 0x86476aaa],
     HS 0x38cc9913 0x3ec45cdb 0xf5702fdb 0x101fd28f 0x54cb266b 0xe50e1b4f 0x9f4787c3 0x529e7d00) =
    ([0xb80a5a34, 0x1ce797d5, 0x310fc1d7, 0xa31968ce, 0x7d8ce042, 0xd5892c87, 0xef2e48b, 0x86476aaa, 0xfb3bcd9a, 0xe1abf701, 0x9cf194d1, 0x47ad031d, 0xaa812721, 0x4360d9c, 0xdb5ae899, 0xbe66bc93],
     HS 0x506e3058 0xd39a2165 0x4d24d6c 0xb85e2ce9 0x5ef50f24 0xfb121210 0x948d25b6 0x961f4894)"
  by code_simp

lemma abc_rounds: "sha_rounds K256 [0x61626380, 0, 0, 0, 0, 0, 0, 0, 0, 0, 0, 0, 0, 0, 0, 0x18] H256_init =
  HS 0x506e3058 0xd39a2165 0x4d24d6c 0xb85e2ce9 0x5ef50f24 0xfb121210 0x948d25b6 0x961f4894"
  by (simp only: sha_rounds_steps K256_pieces sha_steps_append H256_init_def abc_0 abc_1 abc_2 abc_3 abc_4 abc_5 abc_6 abc_7 snd_conv)

lemma Sum256_abc: "Sum256 ''abc'' = [0xba, 0x78, 0x16, 0xbf, 0x8f, 0x01, 0xcf, 0xea, 0x41, 0x41, 0x40, 0xde, 0x5d, 0xae, 0x22, 0x23,
  0xb0, 0x03, 0x61, 0xa3, 0x96, 0x17, 0x7a, 0x9c, 0xb4, 0x10, 0xff, 0x61, 0xf2, 0, 0x15, 0xad]"
  by (subst Sum256_block [OF abc_words _ abc_rounds]) (simp_all add: H256_init_def be_bytes_4)

section \<open>The digest of the text of zero bytes\<close>

lemma zeros_words: "be32 (sha_pad (map of_char ''AAAAAAAAAAAAAAAAAAAAAAAAAAAAAAAAAAAAAAAAAAA'')) =
  [0x41414141, 0x41414141, 0x41414141, 0x41414141, 0x41414141, 0x41414141, 0x41414141, 0x41414141, 0x41414141, 0x41414141, 0x41414180, 0, 0, 0, 0, 0x158]"
  unfolding sha_pad_def by (simp add: be_bytes_8 replicate_numeral)

lemma zeros_0:
  "sha_steps [0x428a2f98, 0x71374491, 0xb5c0fbcf, 0xe9b5dba5, 0x3956c25b, 0x59f111f1, 0x923f82a4, 0xab1c5ed5]
    ([0x41414141, 0x41414141, 0x41414141, 0x41414141, 0x41414141, 0x41414141, 0x41414141, 0x41414141, 0x41414141, 0x41414141, 0x41414180, 0, 0, 0, 0, 0x158],
     HS 0x6a09e667 0xbb67ae85 0x3c6ef372 0xa54ff53a 0x510e527f 0x9b05688c 0x1f83d9ab 0x5be0cd19) =
    ([0x41414141, 0x41414141, 0x41414180, 0, 0, 0, 0, 0x158, 0x5d7d7d7c, 0x5e047dbb, 0x2d433689, 0xcdb98218, 0x19db1fff, 0xdb84d46, 0x84256a4, 0xa8c2632f],
     HS 0xf0dba637 0x3ca7d847 0xdba3f518 0xa11a8e54 0x17c84b28 0x789af61e 0x839332ce 0x58fc0d48)"
  by code_simp

lemma zeros_1:
  "sha_steps [0xd807aa98, 0x12835b01, 0x243185be, 0x550c7dc3, 0x72be5d74, 0x80deb1fe, 0x9bdc06a7, 0xc19bf174]
    ([0x41414141, 0x41414141, 0x41414180, 0, 0, 0, 0, 0x158, 0x5d7d7d7c, 0x5e047dbb, 0x2d433689, 0xcdb98218, 0x19db1fff, 0xdb84d46, 0x84256a4, 0xa8c2632f],
     HS 0xf0dba637 0x3ca7d847 0xdba3f518 0xa11a8e54 0x17c84b28 0x789af61e 0x839332ce 0x58fc0d48) =
    ([0x5d7d7d7c, 0x5e047dbb, 0x2d433689, 0xcdb98218, 0x19db1fff, 0xdb84d46, 0x84256a4, 0xa8c2632f, 0xdbc54fb2, 0x4527448e, 0x1d148b61, 0x64a2c3e5, 0xe2943550, 0x41d98d19, 0xf5532b6d, 0x7f4f91c8],
     HS 0xd0fe8938 0xa3d83a63 0x94f10b92 0xbbf07a78 0x5d3411e0 0x18cc61e9 0xa246060b 0x240c91fb)"
  by code_simp

lemma zeros_2:
  "sha_steps [0xe49b69c1, 0xefbe4786, 0xfc19dc6, 0x240ca1cc, 0x2de92c6f, 0x4a7484aa, 0x5cb0a9dc, 0x76f988da]
    ([0x5d7d7d7c, 0x5e047dbb, 0x2d433689, 0xcdb98218, 0x19db1fff, 0xdb84d46, 0x84256a4, 0xa8c2632f, 0xdbc54fb2, 0x4527448e, 0x1d148b61, 0x64a2c3e5, 0xe2943550, 0x41d98d19, 0xf5532b6d, 0x7f4f91c8],
     HS 0xd0fe8938 0xa3d83a63 0x94f10b92 0xbbf07a78 0x5d3411e0 0x18cc61e9 0xa246060b 0x240c91fb) =
    ([0xdbc54fb2, 0x4527448e, 0x1d148b61, 0x64a2c3e5, 0xe2943550, 0x41d98d19, 0xf5532b6d, 0x7f4f91c8, 0xf59d23a0, 0x902c98b2, 0x10296dcc, 0xcaafdc53, 0x960e27be, 0xf54e7d11, 0x3121254e, 0xbc9ab3f8],
     HS 0x188c4ac1 0xd09fefc2 0x6d59b3e5 0x7a71a1d2 0xbd1b2c2a 0x88a33a16 0x3a132db8 0xe1350f7a)"
  by code_simp

lemma zeros_3:
  "sha_steps [0x983e5152, 0xa831c66d, 0xb00327c8, 0xbf597fc7, 0xc6e00bf3, 0xd5a79147, 0x6ca6351, 0x14292967]
    ([0xdbc54fb2, 0x4527448e, 0x1d148b61, 0x64a2c3e5, 0xe2943550, 0x41d98d19, 0xf5532b6d, 0x7f4f91c8, 0xf59d23a0, 0x902c98b2, 0x10296dcc, 0xcaafdc53, 0x960e27be, 0xf54e7d11, 0x3121254e, 0xbc9ab3f8],
     HS 0x188c4ac1 0xd09fefc2 0x6d59b3e5 0x7a71a1d2 0xbd1b2c2a 0x88a33a16 0x3a132db8 0xe1350f7a) =
    ([0xf59d23a0, 0x902c98b2, 0x10296dcc, 0xcaafdc53, 0x960e27be, 0xf54e7d11, 0x3121254e, 0xbc9ab3f8, 0xe701b6b2, 0x483e210b, 0x4c1f9b94, 0x802b4498, 0x708d2d9a, 0x4d95cb97, 0x60b5a74a, 0xdaac15d8],
     HS 0xd970cab2 0x35df41d1 0x235af560 0x1ab1ca81 0x8c12c170 0xdf8549f3 0x650fff83 0xabf29515)"
  by code_simp

lemma zeros_4:
  "sha_steps [0x27b70a85, 0x2e1b2138, 0x4d2c6dfc, 0x53380d13, 0x650a7354, 0x766a0abb, 0x81c2c92e, 0x92722c85]
    ([0xf59d23a0, 0x902c98b2, 0x10296dcc, 0xcaafdc53, 0x960e27be, 0xf54e7d11, 0x3121254e, 0xbc9ab3f8, 0xe701b6b2, 0x483e210b, 0x4c1f9b94, 0x802b4498, 0x708d2d9a, 0x4d95cb97, 0x60b5a74a, 0xdaac15d8],
     HS 0xd970cab2 0x35df41d1 0x235af560 0x1ab1ca81 0x8c12c170 0xdf8549f3 0x650fff83 0xabf29515) =
    ([0xe701b6b2, 0x483e210b, 0x4c1f9b94, 0x802b4498, 0x708d2d9a, 0x4d95cb97, 0x60b5a74a, 0xdaac15d8, 0xf63903fc, 0x26048cb4, 0x7be57498, 0xf9049e09, 0x9a6ced33, 0x615918b, 0x40faaca4, 0x424bab1b],
     HS 0xc999d74b 0x8e555b43 0x3062ec43 0x2cc57dc 0x11b25cde 0x55f34a41 0x526ef1dc 0x3fb70e33)"
  by code_simp

lemma zeros_5:
  "sha_steps [0xa2bfe8a1, 0xa81a664b, 0xc24b8b70, 0xc76c51a3, 0xd192e819, 0xd6990624, 0xf40e3585, 0x106aa070]
    ([0xe701b6b2, 0x483e210b, 0x4c1f9b94, 0x802b4498, 0x708d2d9a, 0x4d95cb97, 0x60b5a74a, 0xdaac15d8, 0xf63903fc, 0x26048cb4, 0x7be57498, 0xf9049e09, 0x9a6ced33, 0x615918b, 0x40faaca4, 0x424bab1b],
     HS 0xc999d74b 0x8e555b43 0x3062ec43 0x2cc57dc 0x11b25cde 0x55f34a41 0x526ef1dc 0x3fb70e33) =
    ([0xf63903fc, 0x26048cb4, 0x7be57498, 0xf9049e09, 0x9a6ced33, 0x615918b, 0x40faaca4, 0x424bab1b, 0xa8b2449b, 0x2d20d06b, 0xa03be58b, 0xfe621096, 0x5acbab88, 0xc9fbf83e, 0xf33bd376, 0xae5d8da5],
     HS 0x865a673b 0x362b3751 0xfce51a5b 0xd1e562e9 0x93ca1ee0 0x77be805 0xbed73f78 0x818b6a8b)"
  by code_simp

lemma zeros_6:
  "sha_steps [0x19a4c116, 0x1e376c08, 0x2748774c, 0x34b0bcb5, 0x391c0cb3, 0x4ed8aa4a, 0x5b9cca4f, 0x682e6ff3]
    ([0xf63903fc, 0x26048cb4, 0x7be57498, 0xf9049e09, 0x9a6ced33, 0x615918b, 0x40faaca4, 0x424bab1b, 0xa8b2449b, 0x2d20d06b, 0xa03be58b, 0xfe621096, 0x5acbab88, 0xc9fbf83e, 0xf33bd376, 0xae5d8da5],
     HS 0x865a673b 0x362b3751 0xfce51a5b 0xd1e562e9 0x93ca1ee0 0x77be805 0xbed73f78 0x818b6a8b) =
    ([0xa8b2449b, 0x2d20d06b, 0xa03be58b, 0xfe621096, 0x5acbab88, 0xc9fbf83e, 0xf33bd376, 0xae5d8da5, 0x6e4ce83, 0xa03be248, 0xa428c487, 0x304b375a, 0x520f6aa8, 0xe25362d5, 0x1b790d8c, 0xd99b198f],
     HS 0xf640cf11 0xeb86627a 0xa40641ec 0xdda6287c 0x8edf9d77 0xd18f4183 0x8c7eff05 0xdbd66eb4)"
  by code_simp

lemma zeros_7:
  "sha_steps [0x748f82ee, 0x78a5636f, 0x84c87814, 0x8cc70208, 0x90befffa, 0xa4506ceb, 0xbef9a3f7, 0xc67178f2]
    ([0xa8b2449b, 0x2d20d06b, 0xa03be58b, 0xfe621096, 0x5acbab88, 0xc9fbf83e, 0xf33bd376, 0xae5d8da5, 0x6e4ce83, 0xa03be248, 0xa428c487, 0x304b375a, 0x520f6aa8, 0xe25362d5, 0x1b790d8c, 0xd99b198f],
     HS 0xf640cf11 0xeb86627a 0xa40641ec 0xdda6287c 0x8edf9d77 0xd18f4183 0x8c7eff05 0xdbd66eb4) =
    ([0x6e4ce83, 0xa03be248, 0xa428c487, 0x304b375a, 0x520f6aa8, 0xe25362d5, 0x1b790d8c, 0xd99b198f, 0xd8440858, 0xbb2fe99e, 0xbadbcb8, 0x4b52b0da, 0x418c38b2, 0xfb366f3f, 0xa6345a36, 0xb659f757],
     HS 0xa4f68d1e 0xfb922632 0xb2438114 0x605fec6f 0x33925140 0x8eaac44 0x7ea69ea1 0x8e050001)"
  by code_simp

lemma zeros_rounds: "sha_rounds K256 [0x41414141, 0x41414141, 0x41414141, 0x41414141, 0x41414141, 0x41414141, 0x41414141, 0x41414141, 0x41414141, 0x41414141, 0x41414180, 0, 0, 0, 0, 0x158] H256_init =
  HS 0xa4f68d1e 0xfb922632 0xb2438114 0x605fec6f 0x33925140 0x8eaac44 0x7ea69ea1 0x8e050001"
  by (simp only: sha_rounds_steps K256_pieces sha_steps_append H256_init_def zeros_0 zeros_1 zeros_2 zeros_3 zeros_4 zeros_5 zeros_6 zeros_7 snd_conv)

lemma Sum256_zeros: "Sum256 ''AAAAAAAAAAAAAAAAAAAAAAAAAAAAAAAAAAAAAAAAAAA'' = [0x0f, 0, 0x73, 0x85, 0xb6, 0xf9, 0xd4, 0xb7, 0xee, 0xb2, 0x74, 0x86, 0x05, 0xaf, 0xe1, 0xa9,
  0x84, 0xa0, 0xa3, 0xbf, 0xa3, 0xf0, 0x14, 0xd0, 0x9e, 0x2a, 0x78, 0x4c, 0xe9, 0xe5, 0xcd, 0x1a]"
  by (subst Sum256_block [OF zeros_words _ zeros_rounds]) (simp_all add: H256_init_def be_bytes_4)

end
