(* ===== verification/Seed_Plan.thy ===== *)
theory Seed_Plan
  imports Prelude
begin

text \<open>
  The data of \<^verbatim>\<open>cmd/seed/main.go\<close>: the four record types of the demo plan and \<open>demoPlan\<close> itself. A Go
  string is its UTF-8 bytes, so an accented letter is two characters here.
\<close>

record demoUser =
  du_email :: string
  du_pass :: string
  du_fullName :: string
  du_role :: string

record demoCampaign =
  dc_name :: string
  dc_season :: string
  dc_start :: string
  dc_end :: string

record demoApplication =
  da_lotName :: string
  da_campaignName :: string
  da_product :: string
  da_dose :: string
  da_appliedAt :: string
  da_operatorEmail :: string
  da_notes :: string

record demoTenant =
  dt_name :: string
  dt_users :: "demoUser list"
  dt_lots :: "string list"
  dt_campaigns :: "demoCampaign list"
  dt_applications :: "demoApplication list"

abbreviation a_acute :: string where "a_acute \<equiv> [CHR 0xC3, CHR 0xA1]"
abbreviation e_acute :: string where "e_acute \<equiv> [CHR 0xC3, CHR 0xA9]"
abbreviation i_acute :: string where "i_acute \<equiv> [CHR 0xC3, CHR 0xAD]"
abbreviation n_tilde :: string where "n_tilde \<equiv> [CHR 0xC3, CHR 0xB1]"
abbreviation o_acute :: string where "o_acute \<equiv> [CHR 0xC3, CHR 0xB3]"

definition demoPlan :: "demoTenant list" where
  "demoPlan =
    [\<lparr>dt_name = ''Coop La Esperanza'',
      dt_users =
       [\<lparr>du_email = ''admin@esperanza.coop'', du_pass = ''test123'', du_fullName = ''Admin Coop La Esperanza'', du_role = ''admin''\<rparr>,
        \<lparr>du_email = ''agronomo@esperanza.coop'', du_pass = ''test123'', du_fullName = ''Ing. Agr. Laura G'' @ o_acute @ ''mez'', du_role = ''agronomist''\<rparr>,
        \<lparr>du_email = ''productor@esperanza.coop'', du_pass = ''test123'', du_fullName = ''Productor Carlos Ruiz'', du_role = ''producer''\<rparr>,
        \<lparr>du_email = ''auditor@esperanza.coop'', du_pass = ''test123'', du_fullName = ''Auditor Marta D'' @ i_acute @ ''az'', du_role = ''auditor''\<rparr>,
        \<lparr>du_email = ''transportista@esperanza.coop'', du_pass = ''test123'', du_fullName = ''Transportista Juan P'' @ e_acute @ ''rez'', du_role = ''hauler''\<rparr>],
      dt_lots = [''Lote Norte - Soja'', ''Lote Sur - Maiz''],
      dt_campaigns =
       [\<lparr>dc_name = ''Campa'' @ n_tilde @ ''a 2025/2026'', dc_season = ''2025/2026'', dc_start = ''2025-09-15'', dc_end = ''2026-05-15''\<rparr>,
        \<lparr>dc_name = ''Campa'' @ n_tilde @ ''a 2026/2027'', dc_season = ''2026/2027'', dc_start = ''2026-09-15'', dc_end = ''2027-05-15''\<rparr>],
      dt_applications =
       [\<lparr>da_lotName = ''Lote Norte - Soja'', da_campaignName = ''Campa'' @ n_tilde @ ''a 2025/2026'', da_product = ''Glifosato 48%'', da_dose = ''3 L/ha'', da_appliedAt = ''2025-10-08T09:30:00Z'', da_operatorEmail = ''agronomo@esperanza.coop'', da_notes = ''Barbecho qu'' @ i_acute @ ''mico pre-siembra''\<rparr>,
        \<lparr>da_lotName = ''Lote Norte - Soja'', da_campaignName = ''Campa'' @ n_tilde @ ''a 2025/2026'', da_product = ''Tebuconazol'', da_dose = ''0.8 L/ha'', da_appliedAt = ''2025-12-12T11:00:00Z'', da_operatorEmail = [], da_notes = ''Control de enfermedades foliares''\<rparr>,
        \<lparr>da_lotName = ''Lote Sur - Maiz'', da_campaignName = ''Campa'' @ n_tilde @ ''a 2025/2026'', da_product = ''Atrazina'', da_dose = ''2 L/ha'', da_appliedAt = ''2025-11-20T08:15:00Z'', da_operatorEmail = ''productor@esperanza.coop'', da_notes = ''Pre-emergente''\<rparr>,
        \<lparr>da_lotName = ''Lote Sur - Maiz'', da_campaignName = ''Campa'' @ n_tilde @ ''a 2025/2026'', da_product = ''Urea 46%'', da_dose = ''120 kg/ha'', da_appliedAt = ''2026-01-25T10:00:00Z'', da_operatorEmail = ''transportista@esperanza.coop'', da_notes = ''Fertilizaci'' @ o_acute @ ''n nitrogenada''\<rparr>,
        \<lparr>da_lotName = ''Lote Norte - Soja'', da_campaignName = ''Campa'' @ n_tilde @ ''a 2025/2026'', da_product = ''Imidacloprid'', da_dose = ''0.6 L/ha'', da_appliedAt = ''2026-02-03T16:45:00Z'', da_operatorEmail = ''agronomo@esperanza.coop'', da_notes = ''Tratamiento de semillas en surco''\<rparr>,
        \<lparr>da_lotName = ''Lote Sur - Maiz'', da_campaignName = ''Campa'' @ n_tilde @ ''a 2025/2026'', da_product = ''Cipermetrina'', da_dose = ''0.5 L/ha'', da_appliedAt = ''2026-03-18T07:30:00Z'', da_operatorEmail = [], da_notes = ''Control de oruga cogollera''\<rparr>,
        \<lparr>da_lotName = ''Lote Norte - Soja'', da_campaignName = ''Campa'' @ n_tilde @ ''a 2026/2027'', da_product = ''Azoxistrobina'', da_dose = ''1 L/ha'', da_appliedAt = ''2026-11-05T09:00:00Z'', da_operatorEmail = ''admin@esperanza.coop'', da_notes = ''Fungicida preventivo''\<rparr>,
        \<lparr>da_lotName = ''Lote Sur - Maiz'', da_campaignName = ''Campa'' @ n_tilde @ ''a 2026/2027'', da_product = ''2,4-D Amine'', da_dose = ''1.5 L/ha'', da_appliedAt = ''2026-12-01T14:20:00Z'', da_operatorEmail = ''productor@esperanza.coop'', da_notes = ''Control de malezas de hoja ancha''\<rparr>,
        \<lparr>da_lotName = ''Lote Norte - Soja'', da_campaignName = ''Campa'' @ n_tilde @ ''a 2026/2027'', da_product = ''F'' @ o_acute @ ''sforo MAP'', da_dose = ''80 kg/ha'', da_appliedAt = ''2027-01-14T10:30:00Z'', da_operatorEmail = ''transportista@esperanza.coop'', da_notes = ''Fertilizaci'' @ o_acute @ ''n de base''\<rparr>,
        \<lparr>da_lotName = ''Lote Sur - Maiz'', da_campaignName = ''Campa'' @ n_tilde @ ''a 2026/2027'', da_product = ''Lambdacialotrina'', da_dose = ''0.4 L/ha'', da_appliedAt = ''2027-02-22T17:00:00Z'', da_operatorEmail = [], da_notes = ''Control de insectos tard'' @ i_acute @ ''os''\<rparr>]\<rparr>,
     \<lparr>dt_name = ''Estancia El Algarrobo'',
      dt_users =
       [\<lparr>du_email = ''admin@algarrobo.campo'', du_pass = ''test123'', du_fullName = ''Admin Estancia El Algarrobo'', du_role = ''admin''\<rparr>,
        \<lparr>du_email = ''agronomo@algarrobo.campo'', du_pass = ''test123'', du_fullName = ''Ing. Agr. Silvia Fern'' @ a_acute @ ''ndez'', du_role = ''agronomist''\<rparr>,
        \<lparr>du_email = ''productor@algarrobo.campo'', du_pass = ''test123'', du_fullName = ''Productor Roberto L'' @ o_acute @ ''pez'', du_role = ''producer''\<rparr>,
        \<lparr>du_email = ''auditor@algarrobo.campo'', du_pass = ''test123'', du_fullName = ''Auditor Paula Acosta'', du_role = ''auditor''\<rparr>,
        \<lparr>du_email = ''transportista@algarrobo.campo'', du_pass = ''test123'', du_fullName = ''Transportista Diego Torres'', du_role = ''hauler''\<rparr>],
      dt_lots = [''Lote Este - Trigo'', ''Lote Oeste - Cebada''],
      dt_campaigns =
       [\<lparr>dc_name = ''Campa'' @ n_tilde @ ''a 2025/2026'', dc_season = ''2025/2026'', dc_start = ''2025-09-15'', dc_end = ''2026-05-15''\<rparr>,
        \<lparr>dc_name = ''Campa'' @ n_tilde @ ''a 2026/2027'', dc_season = ''2026/2027'', dc_start = ''2026-09-15'', dc_end = ''2027-05-15''\<rparr>],
      dt_applications =
       [\<lparr>da_lotName = ''Lote Este - Trigo'', da_campaignName = ''Campa'' @ n_tilde @ ''a 2025/2026'', da_product = ''Glifosato 48%'', da_dose = ''3 L/ha'', da_appliedAt = ''2025-09-28T08:00:00Z'', da_operatorEmail = ''agronomo@algarrobo.campo'', da_notes = ''Barbecho''\<rparr>,
        \<lparr>da_lotName = ''Lote Este - Trigo'', da_campaignName = ''Campa'' @ n_tilde @ ''a 2025/2026'', da_product = ''Tebuconazol'', da_dose = ''0.7 L/ha'', da_appliedAt = ''2025-11-15T10:30:00Z'', da_operatorEmail = [], da_notes = ''Fusarium de la espiga''\<rparr>,
        \<lparr>da_lotName = ''Lote Oeste - Cebada'', da_campaignName = ''Campa'' @ n_tilde @ ''a 2025/2026'', da_product = ''2,4-D Amine'', da_dose = ''1.2 L/ha'', da_appliedAt = ''2025-10-30T09:15:00Z'', da_operatorEmail = ''productor@algarrobo.campo'', da_notes = ''Malezas de hoja ancha''\<rparr>,
        \<lparr>da_lotName = ''Lote Oeste - Cebada'', da_campaignName = ''Campa'' @ n_tilde @ ''a 2025/2026'', da_product = ''Urea 46%'', da_dose = ''100 kg/ha'', da_appliedAt = ''2026-01-08T11:00:00Z'', da_operatorEmail = ''transportista@algarrobo.campo'', da_notes = ''Fertilizaci'' @ o_acute @ ''n nitrogenada''\<rparr>,
        \<lparr>da_lotName = ''Lote Este - Trigo'', da_campaignName = ''Campa'' @ n_tilde @ ''a 2025/2026'', da_product = ''Azoxistrobina'', da_dose = ''0.9 L/ha'', da_appliedAt = ''2026-02-19T15:45:00Z'', da_operatorEmail = ''admin@algarrobo.campo'', da_notes = ''Preventivo de roya''\<rparr>,
        \<lparr>da_lotName = ''Lote Oeste - Cebada'', da_campaignName = ''Campa'' @ n_tilde @ ''a 2025/2026'', da_product = ''Cipermetrina'', da_dose = ''0.5 L/ha'', da_appliedAt = ''2026-03-10T07:45:00Z'', da_operatorEmail = [], da_notes = ''Pulg'' @ o_acute @ ''n de la espiga''\<rparr>,
        \<lparr>da_lotName = ''Lote Este - Trigo'', da_campaignName = ''Campa'' @ n_tilde @ ''a 2026/2027'', da_product = ''F'' @ o_acute @ ''sforo MAP'', da_dose = ''90 kg/ha'', da_appliedAt = ''2026-10-22T09:30:00Z'', da_operatorEmail = ''agronomo@algarrobo.campo'', da_notes = ''Fertilizaci'' @ o_acute @ ''n de base''\<rparr>,
        \<lparr>da_lotName = ''Lote Oeste - Cebada'', da_campaignName = ''Campa'' @ n_tilde @ ''a 2026/2027'', da_product = ''Imidacloprid'', da_dose = ''0.6 L/ha'', da_appliedAt = ''2026-12-14T10:00:00Z'', da_operatorEmail = ''productor@algarrobo.campo'', da_notes = ''Pulguilla en macollaje''\<rparr>,
        \<lparr>da_lotName = ''Lote Este - Trigo'', da_campaignName = ''Campa'' @ n_tilde @ ''a 2026/2027'', da_product = ''Lambdacialotrina'', da_dose = ''0.4 L/ha'', da_appliedAt = ''2027-01-27T16:30:00Z'', da_operatorEmail = ''transportista@algarrobo.campo'', da_notes = ''Insectos tard'' @ i_acute @ ''os''\<rparr>,
        \<lparr>da_lotName = ''Lote Oeste - Cebada'', da_campaignName = ''Campa'' @ n_tilde @ ''a 2026/2027'', da_product = ''Atrazina'', da_dose = ''1.8 L/ha'', da_appliedAt = ''2027-02-16T08:45:00Z'', da_operatorEmail = [], da_notes = ''Gram'' @ i_acute @ ''neas anuales''\<rparr>]\<rparr>]"

end
