(* ===== verification/Seed.thy ===== *)
theory Seed
  imports Seed_Plan Identity_Repos Farm_Repos Password Rfc3339
begin

text \<open>
  \<^verbatim>\<open>cmd/seed/main.go\<close>: the command that fills a database with the demo plan. Each helper looks its row up
  and inserts it only when the lookup finds none. Identifiers of new rows are drawn by the server
  (\<open>DEFAULT gen_random_uuid()\<close>), so they are the parameter \<open>gen\<close>, a function of the database the
  statement runs on; \<open>connect\<close> is \<open>pgxpool.New\<close>, which only parses the address. The state is the world
  and the lines printed so far.
\<close>

section \<open>Transactions and statements\<close>

text \<open>The command's own \<open>withTenant\<close>: that of the adapters without the wrapping of errors.\<close>

definition withTenant :: "string \<Rightarrow> (string \<Rightarrow> world \<Rightarrow> 'a res \<times> world) \<Rightarrow> world \<Rightarrow> 'a res \<times> world" where
  "withTenant tenantID fn w0 = (case roundtrip w0 of
      (Fault e, w1) \<Rightarrow> (Err (ErrText e), w1)
    | (LostAck e, w1) \<Rightarrow> (Err (ErrText e), w1)
    | (NoFault, w1) \<Rightarrow>
       (let d0 = w_db w1 in
        case pg_query (\<lambda>d. Ok ()) w1 of
          (Err e, w2) \<Rightarrow> (Err e, w2\<lparr>w_db := d0\<rparr>)
        | (Panic p, w2) \<Rightarrow> (Panic p, w2\<lparr>w_db := d0\<rparr>)
        | (Ok _, w2) \<Rightarrow>
           (case fn tenantID w2 of
              (Err e, w3) \<Rightarrow> (Err e, w3\<lparr>w_db := d0\<rparr>)
            | (Panic p, w3) \<Rightarrow> (Panic p, w3\<lparr>w_db := d0\<rparr>)
            | (Ok x, w3) \<Rightarrow>
               (case roundtrip w3 of
                  (NoFault, w4) \<Rightarrow> (Ok x, w4)
                | (Fault e, w4) \<Rightarrow> (Err (ErrText e), w4\<lparr>w_db := d0\<rparr>)
                | (LostAck e, w4) \<Rightarrow> (Err (ErrText e), w4)))))"

text \<open>\<open>INSERT \<dots> RETURNING id\<close>.\<close>

definition returning :: "(db \<Rightarrow> string) \<Rightarrow> unit res \<times> db \<Rightarrow> string res \<times> db" where
  "returning f r = (case r of
      (Ok _, d) \<Rightarrow> (Ok (f d), d)
    | (Err e, d) \<Rightarrow> (Err e, d)
    | (Panic p, d) \<Rightarrow> (Panic p, d))"

text \<open>The body of the helpers: the row's id, or that of a new row when there is none.\<close>

definition find_or_insert :: "PG \<Rightarrow> (string option \<Rightarrow> db \<Rightarrow> string res) \<Rightarrow>
    (string option \<Rightarrow> time \<Rightarrow> db \<Rightarrow> string res \<times> db) \<Rightarrow> string \<Rightarrow> world \<Rightarrow> string res \<times> world" where
  "find_or_insert pg sel ins g w = (case rls_query pg g sel w of
      (Ok i, w1) \<Rightarrow> (Ok i, w1)
    | (Err e, w1) \<Rightarrow> if \<not> errors_Is e ErrNoRows then (Err e, w1) else rls_exec pg g ins w1
    | (Panic p, w1) \<Rightarrow> (Panic p, w1))"

section \<open>The helpers\<close>

definition tenant_find :: "PG \<Rightarrow> string \<Rightarrow> db \<Rightarrow> string res" where
  "tenant_find pg name d = check ''22021'' (pg_text pg name)
     (bind1 (first_row (filter (\<lambda>t. t_Name t = name) (tenants d))) (\<lambda>t. Ok (t_ID t)))"

definition tenant_add :: "PG \<Rightarrow> (db \<Rightarrow> string) \<Rightarrow> string \<Rightarrow> time \<Rightarrow> db \<Rightarrow> string res \<times> db" where
  "tenant_add pg gen name now d = returning (\<lambda>d'. t_ID (last (tenants d'))) (insert_stmt
     (bind1 (uuid_param pg (gen d)) (\<lambda>i. check ''22021'' (pg_text pg name)
        (Ok \<lparr>t_ID = i, t_Name = name, t_CreatedAt = now, t_UpdatedAt = now\<rparr>)))
     (\<lambda>row. check ''23505'' (t_ID row \<notin> t_ID ` set (tenants d)) (Ok ()))
     (\<lambda>row d. d\<lparr>tenants := tenants d @ [row]\<rparr>) d)"

definition createTenant :: "PG \<Rightarrow> (db \<Rightarrow> string) \<Rightarrow> string \<Rightarrow> world \<Rightarrow> string res \<times> world" where
  "createTenant pg gen name w = (case pg_query (tenant_find pg name) w of
      (Ok i, w1) \<Rightarrow> (Ok i, w1)
    | (Err e, w1) \<Rightarrow> if \<not> errors_Is e ErrNoRows then (Err e, w1)
        else pg_exec (\<lambda>d. tenant_add pg gen name (pg_ts pg (w_clock w1)) d) w1
    | (Panic p, w1) \<Rightarrow> (Panic p, w1))"

definition user_find :: "PG \<Rightarrow> string \<Rightarrow> string option \<Rightarrow> db \<Rightarrow> string res" where
  "user_find pg email cur d = check ''22021'' (pg_text pg email)
     (bind1 (first_row (filter (\<lambda>r. u_Email r = email) (visible u_TenantID cur (users d)))) (\<lambda>u. Ok (u_ID u)))"

definition user_add :: "PG \<Rightarrow> (db \<Rightarrow> string) \<Rightarrow> string \<Rightarrow> string \<Rightarrow> string \<Rightarrow> string \<Rightarrow>
    string option \<Rightarrow> time \<Rightarrow> db \<Rightarrow> string res \<times> db" where
  "user_add pg gen tenantID email hash fullName cur now d = returning (\<lambda>d'. u_ID (last (users d')))
     (user_insert pg \<lparr>u_ID = gen d, u_TenantID = tenantID, u_Email = email, u_PasswordHash = hash, u_FullName = fullName,
        u_IsActive = True, u_Role = [], u_CreatedAt = now, u_UpdatedAt = now\<rparr> cur now d)"

definition createUser :: "PG \<Rightarrow> (db \<Rightarrow> string) \<Rightarrow> string \<Rightarrow> string \<Rightarrow> string \<Rightarrow> string \<Rightarrow> world \<Rightarrow> string res \<times> world" where
  "createUser pg gen tenantID email hash fullName = withTenant tenantID
     (find_or_insert pg (user_find pg email) (user_add pg gen tenantID email hash fullName))"

text \<open>\<open>ON CONFLICT (user_id, role_code) DO NOTHING\<close>\<close>

definition role_ensure :: "PG \<Rightarrow> UserRole \<Rightarrow> string option \<Rightarrow> time \<Rightarrow> db \<Rightarrow> unit res \<times> db" where
  "role_ensure pg m cur now d = insert_stmt
     (bind1 (uuid_param pg (ur_UserID m)) (\<lambda>u.
      bind1 (uuid_param pg (ur_TenantID m)) (\<lambda>t.
      check ''22021'' (pg_text pg (ur_RoleCode m))
        (Ok \<lparr>ur_UserID = u, ur_RoleCode = ur_RoleCode m, ur_TenantID = t\<rparr>))))
     (\<lambda>row.
       check ''42501'' (policy cur (ur_TenantID row))
       (if \<exists>r \<in> set (user_roles d). ur_UserID r = ur_UserID row \<and> ur_RoleCode r = ur_RoleCode row then Ok ()
        else check ''23503'' (ur_UserID row \<in> u_ID ` set (users d))
          (check ''23503'' (IsValidRoleCode (ur_RoleCode row))
          (check ''23503'' (ur_TenantID row \<in> t_ID ` set (tenants d)) (Ok ())))))
     (\<lambda>row d. if \<exists>r \<in> set (user_roles d). ur_UserID r = ur_UserID row \<and> ur_RoleCode r = ur_RoleCode row then d
        else d\<lparr>user_roles := user_roles d @ [row]\<rparr>) d"

definition assignRole :: "PG \<Rightarrow> string \<Rightarrow> string \<Rightarrow> string \<Rightarrow> world \<Rightarrow> unit res \<times> world" where
  "assignRole pg tenantID userID role = withTenant tenantID (\<lambda>g.
     rls_exec pg g (role_ensure pg \<lparr>ur_UserID = userID, ur_RoleCode = role, ur_TenantID = tenantID\<rparr>))"

definition lot_find :: "PG \<Rightarrow> string \<Rightarrow> string \<Rightarrow> string option \<Rightarrow> db \<Rightarrow> string res" where
  "lot_find pg tenantID name cur d = bind1 (uuid_param pg tenantID) (\<lambda>t. check ''22021'' (pg_text pg name)
     (bind1 (first_row (filter (\<lambda>r. l_TenantID r = t \<and> l_Name r = name) (visible l_TenantID cur (lots d)))) (\<lambda>l. Ok (l_ID l))))"

definition lot_add :: "PG \<Rightarrow> (db \<Rightarrow> string) \<Rightarrow> string \<Rightarrow> string \<Rightarrow> string option \<Rightarrow> time \<Rightarrow> db \<Rightarrow> string res \<times> db" where
  "lot_add pg gen tenantID name cur now d = returning (\<lambda>d'. l_ID (last (lots d')))
     (lot_insert pg \<lparr>l_ID = gen d, l_TenantID = tenantID, l_Name = name, l_AreaHA = 241 / 2, l_Crop = name,
        l_CreatedAt = now, l_UpdatedAt = now\<rparr> cur now d)"

definition createLot :: "PG \<Rightarrow> (db \<Rightarrow> string) \<Rightarrow> string \<Rightarrow> string \<Rightarrow> world \<Rightarrow> string res \<times> world" where
  "createLot pg gen tenantID name = withTenant tenantID
     (find_or_insert pg (lot_find pg tenantID name) (lot_add pg gen tenantID name))"

definition campaign_find :: "PG \<Rightarrow> string \<Rightarrow> string \<Rightarrow> string option \<Rightarrow> db \<Rightarrow> string res" where
  "campaign_find pg tenantID name cur d = bind1 (uuid_param pg tenantID) (\<lambda>t. check ''22021'' (pg_text pg name)
     (bind1 (first_row (filter (\<lambda>r. c_TenantID r = t \<and> c_Name r = name) (visible c_TenantID cur (campaigns d)))) (\<lambda>c. Ok (c_ID c))))"

definition campaign_add :: "PG \<Rightarrow> (db \<Rightarrow> string) \<Rightarrow> string \<Rightarrow> string \<Rightarrow> string \<Rightarrow> time \<Rightarrow> time \<Rightarrow>
    string option \<Rightarrow> time \<Rightarrow> db \<Rightarrow> string res \<times> db" where
  "campaign_add pg gen tenantID name season startedAt endedAt cur now d = returning (\<lambda>d'. c_ID (last (campaigns d')))
     (campaign_insert pg \<lparr>c_ID = gen d, c_TenantID = tenantID, c_Name = name, c_Season = season,
        c_StartedAt = Some startedAt, c_EndedAt = Some endedAt, c_CreatedAt = now, c_UpdatedAt = now\<rparr> cur now d)"

definition createCampaign :: "PG \<Rightarrow> (db \<Rightarrow> string) \<Rightarrow> string \<Rightarrow> string \<Rightarrow> string \<Rightarrow> time \<Rightarrow> time \<Rightarrow> world \<Rightarrow> string res \<times> world" where
  "createCampaign pg gen tenantID name season startedAt endedAt = withTenant tenantID
     (find_or_insert pg (campaign_find pg tenantID name) (campaign_add pg gen tenantID name season startedAt endedAt))"

text \<open>\<open>SELECT EXISTS\<close> with \<open>operator_id IS NOT DISTINCT FROM $6\<close>: NULL is the empty text on both sides.\<close>

definition application_exists :: "PG \<Rightarrow> string \<Rightarrow> string \<Rightarrow> string \<Rightarrow> string \<Rightarrow> time \<Rightarrow> string \<Rightarrow> string option \<Rightarrow> db \<Rightarrow> bool res" where
  "application_exists pg tenantID lotID campaignID product appliedAt operatorID cur d =
     bind1 (uuid_param pg tenantID) (\<lambda>t. bind1 (uuid_param pg lotID) (\<lambda>l. bind1 (uuid_param pg campaignID) (\<lambda>c.
     check ''22021'' (pg_text pg product)
     (bind1 (case nullableUUID operatorID of None \<Rightarrow> Ok [] | Some u \<Rightarrow> uuid_param pg u) (\<lambda>op.
       Ok (\<exists>r \<in> set (visible a_TenantID cur (applications d)). a_TenantID r = t \<and> a_LotID r = l \<and> a_CampaignID r = c \<and>
         a_ProductName r = product \<and> a_AppliedAt r = pg_ts pg appliedAt \<and> a_OperatorID r = op))))))"

definition application_add :: "PG \<Rightarrow> (db \<Rightarrow> string) \<Rightarrow> string \<Rightarrow> string \<Rightarrow> string \<Rightarrow> string \<Rightarrow> string \<Rightarrow> time \<Rightarrow> string \<Rightarrow> string \<Rightarrow>
    string option \<Rightarrow> time \<Rightarrow> db \<Rightarrow> unit res \<times> db" where
  "application_add pg gen tenantID lotID campaignID product dose appliedAt operatorID notes cur now d =
     application_insert pg \<lparr>a_ID = gen d, a_TenantID = tenantID, a_LotID = lotID, a_CampaignID = campaignID,
       a_ProductName = product, a_Dose = dose, a_AppliedAt = appliedAt, a_OperatorID = operatorID, a_OperatorName = [],
       a_Notes = notes, a_CreatedAt = now, a_UpdatedAt = now\<rparr> cur now d"

definition createApplication :: "PG \<Rightarrow> (db \<Rightarrow> string) \<Rightarrow> string \<Rightarrow> string \<Rightarrow> string \<Rightarrow> string \<Rightarrow> string \<Rightarrow> time \<Rightarrow> string \<Rightarrow> string \<Rightarrow>
    world \<Rightarrow> unit res \<times> world" where
  "createApplication pg gen tenantID lotID campaignID product dose appliedAt operatorID notes = withTenant tenantID (\<lambda>g w.
     bindR (rls_query pg g (application_exists pg tenantID lotID campaignID product appliedAt operatorID) w) (\<lambda>exists w1.
       if exists then (Ok (), w1)
       else rls_exec pg g (application_add pg gen tenantID lotID campaignID product dose appliedAt operatorID notes) w1))"

section \<open>The command\<close>

type_synonym console = "world \<times> string list"

definition on_db :: "(world \<Rightarrow> 'a res \<times> world) \<Rightarrow> console \<Rightarrow> 'a res \<times> console" where
  "on_db f s = (case f (fst s) of (r, w) \<Rightarrow> (r, (w, snd s)))"

definition Printf :: "string \<Rightarrow> console \<Rightarrow> unit res \<times> console" where
  "Printf line s = (Ok (), (fst s, snd s @ [line]))"

text \<open>\<open>%q\<close> of a printable text without quotes and backslashes, as every text of the plan is.\<close>

definition go_quote :: "string \<Rightarrow> string" where
  "go_quote s = CHR 0x22 # s @ [CHR 0x22]"

text \<open>\<open>time.Parse("2006-01-02", s)\<close>\<close>

definition Parse_Date :: "string \<Rightarrow> time option" where
  "Parse_Date s =
     Option.bind (year4 s) (\<lambda>(y, s). Option.bind (skip CHR ''-'' s) (\<lambda>s.
     Option.bind (getnum s True) (\<lambda>(mo, s). Option.bind (skip CHR ''-'' s) (\<lambda>s.
     Option.bind (getnum s True) (\<lambda>(d, s).
       if s \<noteq> [] \<or> mo < 1 \<or> 12 < mo \<or> d < 1 \<or> daysIn mo (int y) < d then None
       else Some (day_number (int y) (int mo) (int d) * 86400 * Second))))))"

definition parsed :: "string \<Rightarrow> time option \<Rightarrow> console \<Rightarrow> time res \<times> console" where
  "parsed m t s = (case t of None \<Rightarrow> (Err (Errorf m (ErrText ''parsing time'')), s) | Some x \<Rightarrow> (Ok x, s))"

text \<open>A \<open>map[string]string\<close> that is only written under fresh or equal keys and read with a default.\<close>

type_synonym ids = "string \<Rightarrow> string option"

definition id_at :: "ids \<Rightarrow> string \<Rightarrow> string" where
  "id_at m k = (case m k of None \<Rightarrow> [] | Some i \<Rightarrow> i)"

fun seed_users :: "PG \<Rightarrow> (db \<Rightarrow> string) \<Rightarrow> argon2_IDKey \<Rightarrow> string \<Rightarrow> string \<Rightarrow> demoUser list \<Rightarrow> ids \<Rightarrow> console \<Rightarrow> ids res \<times> console" where
  "seed_users pg gen kdf name tenantID [] m s = (Ok m, s)"
| "seed_users pg gen kdf name tenantID (u # us) m s =
     bindR (wrapR ''hash password'' (on_db (PasswordHasher_Hash kdf world_rand (du_pass u)) s)) (\<lambda>hash s.
     bindR (wrapR (''user '' @ go_quote (du_email u)) (on_db (createUser pg gen tenantID (du_email u) hash (du_fullName u)) s)) (\<lambda>userID s.
     bindR (wrapR (''role '' @ go_quote (du_role u)) (on_db (assignRole pg tenantID userID (du_role u)) s)) (\<lambda>_ s.
     bindR (Printf (''tenant='' @ name @ '' user='' @ du_email u @ '' password='' @ du_pass u @ '' role='' @ du_role u) s) (\<lambda>_ s.
       seed_users pg gen kdf name tenantID us (m(du_email u \<mapsto> userID)) s))))"

fun seed_lots :: "PG \<Rightarrow> (db \<Rightarrow> string) \<Rightarrow> string \<Rightarrow> string list \<Rightarrow> ids \<Rightarrow> console \<Rightarrow> ids res \<times> console" where
  "seed_lots pg gen tenantID [] m s = (Ok m, s)"
| "seed_lots pg gen tenantID (name # names) m s =
     bindR (wrapR (''lot '' @ go_quote name) (on_db (createLot pg gen tenantID name) s)) (\<lambda>lotID s.
       seed_lots pg gen tenantID names (m(name \<mapsto> lotID)) s)"

fun seed_campaigns :: "PG \<Rightarrow> (db \<Rightarrow> string) \<Rightarrow> string \<Rightarrow> demoCampaign list \<Rightarrow> ids \<Rightarrow> console \<Rightarrow> ids res \<times> console" where
  "seed_campaigns pg gen tenantID [] m s = (Ok m, s)"
| "seed_campaigns pg gen tenantID (c # cs) m s =
     bindR (parsed (''campaign '' @ go_quote (dc_name c) @ '' start '' @ go_quote (dc_start c)) (Parse_Date (dc_start c)) s) (\<lambda>start s.
     bindR (parsed (''campaign '' @ go_quote (dc_name c) @ '' end '' @ go_quote (dc_end c)) (Parse_Date (dc_end c)) s) (\<lambda>ending s.
     bindR (wrapR (''campaign '' @ go_quote (dc_name c))
         (on_db (createCampaign pg gen tenantID (dc_name c) (dc_season c) start ending) s)) (\<lambda>campaignID s.
       seed_campaigns pg gen tenantID cs (m(dc_name c \<mapsto> campaignID)) s)))"

fun seed_applications :: "PG \<Rightarrow> (db \<Rightarrow> string) \<Rightarrow> string \<Rightarrow> ids \<Rightarrow> ids \<Rightarrow> ids \<Rightarrow> demoApplication list \<Rightarrow> console \<Rightarrow> unit res \<times> console" where
  "seed_applications pg gen tenantID lotIDs campaignIDs userIDs [] s = (Ok (), s)"
| "seed_applications pg gen tenantID lotIDs campaignIDs userIDs (a # as) s =
     bindR (parsed (''application '' @ go_quote (da_product a) @ '' on '' @ go_quote (da_lotName a) @ '': bad applied_at '' @ go_quote (da_appliedAt a))
         (Parse_RFC3339 (da_appliedAt a)) s) (\<lambda>applied s.
     bindR (wrapR (''application '' @ go_quote (da_product a) @ '' on '' @ go_quote (da_lotName a))
         (on_db (createApplication pg gen tenantID (id_at lotIDs (da_lotName a)) (id_at campaignIDs (da_campaignName a))
            (da_product a) (da_dose a) applied (id_at userIDs (da_operatorEmail a)) (da_notes a)) s)) (\<lambda>_ s.
       seed_applications pg gen tenantID lotIDs campaignIDs userIDs as s))"

definition seed_tenant :: "PG \<Rightarrow> (db \<Rightarrow> string) \<Rightarrow> argon2_IDKey \<Rightarrow> demoTenant \<Rightarrow> console \<Rightarrow> unit res \<times> console" where
  "seed_tenant pg gen kdf t s =
     bindR (wrapR (''tenant '' @ go_quote (dt_name t)) (on_db (createTenant pg gen (dt_name t)) s)) (\<lambda>tenantID s.
     bindR (seed_users pg gen kdf (dt_name t) tenantID (dt_users t) Map.empty s) (\<lambda>userIDs s.
     bindR (seed_lots pg gen tenantID (dt_lots t) Map.empty s) (\<lambda>lotIDs s.
     bindR (seed_campaigns pg gen tenantID (dt_campaigns t) Map.empty s) (\<lambda>campaignIDs s.
     bindR (seed_applications pg gen tenantID lotIDs campaignIDs userIDs (dt_applications t) s) (\<lambda>_ s.
       Printf (''tenant='' @ dt_name t @ '' id='' @ tenantID) s)))))"

fun seed_plan :: "PG \<Rightarrow> (db \<Rightarrow> string) \<Rightarrow> argon2_IDKey \<Rightarrow> demoTenant list \<Rightarrow> console \<Rightarrow> unit res \<times> console" where
  "seed_plan pg gen kdf [] s = Printf ''seed done'' s"
| "seed_plan pg gen kdf (t # ts) s = bindR (seed_tenant pg gen kdf t s) (\<lambda>_ s. seed_plan pg gen kdf ts s)"

definition seed_run :: "PG \<Rightarrow> (db \<Rightarrow> string) \<Rightarrow> argon2_IDKey \<Rightarrow> (string \<Rightarrow> go_error option) \<Rightarrow> string \<Rightarrow> console \<Rightarrow> unit res \<times> console" where
  "seed_run pg gen kdf connect dsn s =
     (if dsn = [] then (Err (ErrText ''DATABASE_URL is required''), s)
      else case connect dsn of
          Some e \<Rightarrow> (Err (Errorf ''connect'' e), s)
        | None \<Rightarrow> seed_plan pg gen kdf demoPlan s)"

end
