(* ===== verification/Seed_Facts.thy ===== *)
theory Seed_Facts
  imports Seed "HOL-Library.Sublist"
begin

text \<open>
  Seeding again: once the command has succeeded, running it on that database, or on any in which rows
  were only added since, writes nothing, whatever fails on the way (\<open>seed_again\<close>). \<open>ensures\<close> is
  the property of a step that makes this compose; the four lookups with their inserts satisfy the
  contract \<open>ensure_exists\<close> that gives it.
\<close>

section \<open>Transactions\<close>

lemma withTenant_snd: "snd (withTenant t fn w) = snd (WithTenant t fn w)"
  by (auto simp: withTenant_def WithTenant_def Let_def split: prod.splits fault.splits res.splits)

lemma withTenant_Ok: "withTenant t fn w = (Ok x, w') \<longleftrightarrow> WithTenant t fn w = (Ok x, w')"
  by (auto simp: withTenant_def WithTenant_def Let_def split: prod.splits fault.splits res.splits)

section \<open>Databases that only grew\<close>

definition grows :: "db \<Rightarrow> db \<Rightarrow> bool" where
  "grows d d' \<longleftrightarrow> prefix (tenants d) (tenants d') \<and> prefix (users d) (users d') \<and> prefix (user_roles d) (user_roles d') \<and>
     prefix (lots d) (lots d') \<and> prefix (campaigns d) (campaigns d') \<and> prefix (applications d) (applications d') \<and>
     audit_log d' = audit_log d \<and> audit_serial d' = audit_serial d \<and> refresh_tokens d' = refresh_tokens d"

lemma grows_refl [simp]: "grows d d"
  by (simp add: grows_def)

lemma grows_trans: "grows d d1 \<Longrightarrow> grows d1 d2 \<Longrightarrow> grows d d2"
  by (auto simp: grows_def intro: prefix_order.trans)

lemma grows_append [simp]:
  "grows d (d\<lparr>tenants := tenants d @ ts\<rparr>)" "grows d (d\<lparr>users := users d @ us\<rparr>)" "grows d (d\<lparr>user_roles := user_roles d @ rs\<rparr>)"
  "grows d (d\<lparr>lots := lots d @ ls\<rparr>)" "grows d (d\<lparr>campaigns := campaigns d @ cs\<rparr>)"
  "grows d (d\<lparr>applications := applications d @ as\<rparr>)"
  by (simp_all add: grows_def)

lemma first_row_grows:
  "first_row (filter P xs) = Ok r \<Longrightarrow> prefix xs ys \<Longrightarrow> first_row (filter P ys) = Ok r"
  by (auto simp: prefix_def)

section \<open>Lookup and insert\<close>

locale ensure_exists =
  fixes sel :: "db \<Rightarrow> string res" and ins :: "db \<Rightarrow> string res \<times> db"
  assumes ins_found: "sel d = Err e \<Longrightarrow> errors_Is e ErrNoRows \<Longrightarrow> ins d = (Ok i, d') \<Longrightarrow> grows d d' \<and> sel d' = Ok i"
    and sel_stays: "sel d = Ok i \<Longrightarrow> grows d d' \<Longrightarrow> sel d' = Ok i"
begin

lemma ensured:
  assumes "sel d = Ok i \<and> d' = d \<or> (\<exists>e. sel d = Err e \<and> errors_Is e ErrNoRows \<and> ins d = (Ok i, d'))" "grows d' d''"
  shows "grows d d' \<and> sel d'' = Ok i"
  using assms(1)
proof (elim disjE conjE exE)
  assume "sel d = Ok i" "d' = d"
  then show ?thesis using sel_stays [of d i d''] assms(2) by simp
next
  fix e assume "sel d = Err e" "errors_Is e ErrNoRows" "ins d = (Ok i, d')"
  from ins_found [OF this] sel_stays [of d' i d''] assms(2) show ?thesis by blast
qed

end

text \<open>\<open>ensures p f f'\<close>: when \<open>f\<close> succeeds its database only grew, and from then on \<open>f'\<close> leaves any database that has grown
  further as it is and has no other result. \<open>p\<close> is where the state keeps the database.\<close>

definition ensures :: "('s \<Rightarrow> db) \<Rightarrow> ('s \<Rightarrow> 'a res \<times> 's) \<Rightarrow> ('s \<Rightarrow> 'a res \<times> 's) \<Rightarrow> bool" where
  "ensures p f f' \<longleftrightarrow> (\<forall>s x s1. f s = (Ok x, s1) \<longrightarrow> grows (p s) (p s1) \<and>
     (\<forall>s2. grows (p s1) (p s2) \<longrightarrow> p (snd (f' s2)) = p s2 \<and> (\<forall>y. fst (f' s2) = Ok y \<longrightarrow> y = x)))"

lemma ensuresI:
  assumes "\<And>s x s1. f s = (Ok x, s1) \<Longrightarrow> grows (p s) (p s1)"
    and "\<And>s x s1 s2. f s = (Ok x, s1) \<Longrightarrow> grows (p s1) (p s2) \<Longrightarrow> p (snd (f' s2)) = p s2 \<and> (\<forall>y. fst (f' s2) = Ok y \<longrightarrow> y = x)"
  shows "ensures p f f'"
  using assms unfolding ensures_def by blast

lemma ensuresD:
  assumes "ensures p f f'" "f s = (Ok x, s1)"
  shows "grows (p s) (p s1)" "grows (p s1) (p s2) \<Longrightarrow> p (snd (f' s2)) = p s2"
    "grows (p s1) (p s2) \<Longrightarrow> f' s2 = (Ok y, s3) \<Longrightarrow> y = x"
  using assms unfolding ensures_def by (blast, blast, metis fst_conv)

lemma ensures_bind:
  assumes f: "ensures p f f'" and g: "\<And>x. ensures p (g x) (g' x)"
  shows "ensures p (\<lambda>s. bindR (f s) g) (\<lambda>s. bindR (f' s) g')"
proof (rule ensuresI)
  fix s y s2 assume "bindR (f s) g = (Ok y, s2)"
  then obtain x s1 where s: "f s = (Ok x, s1)" "g x s1 = (Ok y, s2)" by (rule bindR_OkE)
  from ensuresD(1) [OF f s(1)] ensuresD(1) [OF g s(2)] show "grows (p s) (p s2)" by (rule grows_trans)
  fix s3 assume s3: "grows (p s2) (p s3)"
  with ensuresD(1) [OF g s(2)] have "grows (p s1) (p s3)" by (rule grows_trans)
  note f3 = ensuresD(2,3) [OF f s(1) this]
  show "p (snd (bindR (f' s3) g')) = p s3 \<and> (\<forall>z. fst (bindR (f' s3) g') = Ok z \<longrightarrow> z = y)"
  proof (cases "f' s3")
    case (Pair r s4)
    with f3(1) have s4: "p s4 = p s3" by simp
    with s3 have gr: "grows (p s2) (p s4)" by simp
    show ?thesis
    proof (cases r)
      case (Ok x')
      with f3(2) Pair have "x' = x" by simp
      with ensuresD(2,3) [OF g s(2) gr] Ok Pair s4 show ?thesis by (metis bindR_simps(1) prod.collapse)
    qed (use Pair s4 in simp_all)
  qed
qed

text \<open>A step that leaves the database alone may have another result the next time, when what follows does not depend
  on it.\<close>

lemma ensures_after:
  assumes f: "\<And>s. p (snd (f s)) = p s" and g: "\<And>x y. ensures p (g x) (g' y)"
  shows "ensures p (\<lambda>s. bindR (f s) g) (\<lambda>s. bindR (f s) g')"
proof (rule ensuresI)
  fix s y s2 assume "bindR (f s) g = (Ok y, s2)"
  then obtain x s1 where s: "f s = (Ok x, s1)" "g x s1 = (Ok y, s2)" by (rule bindR_OkE)
  have "p s1 = p s" using f [of s] s(1) by simp
  with ensuresD(1) [OF g s(2)] show "grows (p s) (p s2)" by simp
  fix s3 assume s3: "grows (p s2) (p s3)"
  show "p (snd (bindR (f s3) g')) = p s3 \<and> (\<forall>z. fst (bindR (f s3) g') = Ok z \<longrightarrow> z = y)"
  proof (cases "f s3")
    case (Pair r s4)
    with f [of s3] have s4: "p s4 = p s3" by simp
    with s3 have gr: "grows (p s2) (p s4)" by simp
    show ?thesis
      using ensuresD(2,3) [OF g s(2) gr] Pair s4 by (cases r) (simp_all, metis prod.collapse)
  qed
qed

lemma ensures_quiet:
  assumes "\<And>s. p (snd (f s)) = p s" "\<And>s s' x y. fst (f s) = Ok x \<Longrightarrow> fst (f s') = Ok y \<Longrightarrow> y = x"
  shows "ensures p f f"
  by (rule ensuresI) (metis assms fst_conv snd_conv grows_refl)+

lemma ensures_wrapR: "ensures p f f' \<Longrightarrow> ensures p (\<lambda>s. wrapR m (f s)) (\<lambda>s. wrapR m (f' s))"
proof (rule ensuresI)
  assume f: "ensures p f f'"
  fix s x s1 assume "wrapR m (f s) = (Ok x, s1)"
  then have s: "f s = (Ok x, s1)" by simp
  show "grows (p s) (p s1)" by (rule ensuresD(1) [OF f s])
  fix s2 assume "grows (p s1) (p s2)"
  note f2 = ensuresD(2,3) [OF f s this]
  obtain r s3 where "f' s2 = (r, s3)" by fastforce
  then show "p (snd (wrapR m (f' s2))) = p s2 \<and> (\<forall>y. fst (wrapR m (f' s2)) = Ok y \<longrightarrow> y = x)"
    using f2 by (cases r) simp_all
qed


section \<open>The helpers\<close>

lemma find_or_insert_Ok:
  assumes "find_or_insert pg sel ins g w = (Ok i, w')"
  obtains cur now where "current_tenant_id pg g = Inr cur"
    "sel cur (w_db w) = Ok i \<and> w_db w' = w_db w \<or>
     (\<exists>e. sel cur (w_db w) = Err e \<and> errors_Is e ErrNoRows \<and> ins cur now (w_db w) = (Ok i, w_db w'))"
proof -
  obtain r w1 where q: "rls_query pg g sel w = (r, w1)" by fastforce
  have w1: "w_db w1 = w_db w" using rls_query_db [of pg g sel w] q by simp
  show thesis
  proof (cases r)
    case (Ok j)
    with assms q have "j = i" "w' = w1" by (simp_all add: find_or_insert_def)
    with rls_query_Ok [OF q [unfolded Ok]] w1 that show thesis by auto
  next
    case (Err e)
    with assms q have e: "errors_Is e ErrNoRows" and x: "rls_exec pg g ins w1 = (Ok i, w')"
      by (auto simp: find_or_insert_def split: if_splits)
    from rls_exec_Err [OF q [unfolded Err rls_query_def]] e obtain cur where
      "current_tenant_id pg g = Inr cur" "sel cur (w_db w) = Err e"
      by (auto simp: current_tenant_id_def split: if_splits option.splits)
    with rls_exec_Ok [OF x] w1 e that show thesis by auto
  qed (use assms q in \<open>simp add: find_or_insert_def\<close>)
qed

lemma find_or_insert_found:
  assumes "\<And>cur. current_tenant_id pg g = Inr cur \<Longrightarrow> sel cur (w_db w) = Ok i"
  shows "w_db (snd (find_or_insert pg sel ins g w)) = w_db w \<and> (\<forall>y. fst (find_or_insert pg sel ins g w) = Ok y \<longrightarrow> y = i)"
proof -
  obtain r w1 where q: "rls_query pg g sel w = (r, w1)" by fastforce
  have w1: "w_db w1 = w_db w" using rls_query_db [of pg g sel w] q by simp
  show ?thesis
  proof (cases r)
    case (Ok j)
    from rls_query_Ok [OF q [unfolded Ok]] assms have "j = i" by auto
    with Ok q w1 show ?thesis by (simp add: find_or_insert_def)
  next
    case (Err e)
    from rls_exec_Err [OF q [unfolded Err rls_query_def]] assms have "\<not> errors_Is e ErrNoRows"
      by (auto simp: current_tenant_id_def split: if_splits option.splits)
    with Err q w1 show ?thesis by (simp add: find_or_insert_def)
  qed (use q w1 in \<open>simp add: find_or_insert_def\<close>)
qed

text \<open>A transaction whose body, from any database that has grown, changes nothing and can only give \<open>x\<close>.\<close>

lemma withTenant_still:
  assumes "\<And>w1. w_db w1 = w_db w \<Longrightarrow> w_db (snd (fn t w1)) = w_db w1 \<and> (\<forall>y. fst (fn t w1) = Ok y \<longrightarrow> y = x)"
  shows "w_db (snd (withTenant t fn w)) = w_db w \<and> (\<forall>y. fst (withTenant t fn w) = Ok y \<longrightarrow> y = x)"
proof -
  obtain r w' where r: "WithTenant t fn w = (r, w')" by fastforce
  from WithTenant_db [OF r] assms have "w_db w' = w_db w" by (metis snd_conv)
  moreover have "y = x" if "fst (withTenant t fn w) = Ok y" for y
  proof -
    from that have "WithTenant t fn w = (Ok y, snd (withTenant t fn w))" by (metis prod.collapse withTenant_Ok)
    then obtain w1 w2 where "fn t w1 = (Ok y, w2)" "w_db w1 = w_db w" by (rule WithTenant_Ok)
    with assms show ?thesis by (metis fst_conv)
  qed
  ultimately show ?thesis using r by (simp add: withTenant_snd)
qed

lemma ensures_find_or_insert:
  assumes "\<And>cur now. ensure_exists (sel cur) (ins cur now)"
  shows "ensures w_db (withTenant t (find_or_insert pg sel ins)) (withTenant t (find_or_insert pg sel ins'))"
proof (rule ensuresI)
  fix w i w' assume "withTenant t (find_or_insert pg sel ins) w = (Ok i, w')"
  then obtain w1 w2 where body: "find_or_insert pg sel ins t w1 = (Ok i, w2)" and db: "w_db w1 = w_db w" "w_db w' = w_db w2"
    unfolding withTenant_Ok by (rule WithTenant_Ok)
  from body obtain cur now where cur: "current_tenant_id pg t = Inr cur" and
    f: "sel cur (w_db w) = Ok i \<and> w_db w' = w_db w \<or>
     (\<exists>e. sel cur (w_db w) = Err e \<and> errors_Is e ErrNoRows \<and> ins cur now (w_db w) = (Ok i, w_db w'))"
    by (rule find_or_insert_Ok) (simp add: db)
  show "grows (w_db w) (w_db w')" using ensure_exists.ensured [OF assms f grows_refl] by simp
  fix w3 :: world assume "grows (w_db w') (w_db w3)"
  with ensure_exists.ensured [OF assms f] have "sel cur (w_db w3) = Ok i" by blast
  then show "w_db (snd (withTenant t (find_or_insert pg sel ins') w3)) = w_db w3 \<and>
      (\<forall>y. fst (withTenant t (find_or_insert pg sel ins') w3) = Ok y \<longrightarrow> y = i)"
    by (intro withTenant_still find_or_insert_found) (use cur in simp)
qed


section \<open>The four tables\<close>

lemma first_row_Err: "first_row xs = Err e \<longleftrightarrow> xs = [] \<and> e = ErrNoRows"
  by (cases xs) (auto simp: first_row_def)

lemma returning_Ok: "returning f r = (Ok i, d) \<longleftrightarrow> r = (Ok (), d) \<and> i = f d"
  by (cases r; cases "fst r") (auto simp: returning_def)

lemma bind1_Err: "bind1 r f = Err e \<longleftrightarrow> r = Err e \<or> (\<exists>x. r = Ok x \<and> f x = Err e)"
  by (cases r) simp_all

lemma check_NoRows: "check c b r = Err e \<Longrightarrow> errors_Is e ErrNoRows \<Longrightarrow> b \<and> r = Err e"
  by (auto simp: check_def split: if_splits)

lemma uuid_param_NoRows: "uuid_param pg s = Err e \<Longrightarrow> \<not> errors_Is e ErrNoRows"
  by (auto simp: uuid_param_def split: option.splits)

lemma visible_append [simp]: "visible tid cur (xs @ ys) = visible tid cur xs @ visible tid cur ys"
  by (simp add: visible_def)

lemma visible_row: "policy cur (tid r) \<Longrightarrow> visible tid cur [r] = [r]"
  by (simp add: visible_def)

lemma prefix_visible: "prefix xs ys \<Longrightarrow> prefix (visible tid cur xs) (visible tid cur ys)"
  by (auto simp: prefix_def)

interpretation tenant_row: ensure_exists "tenant_find pg name" "tenant_add pg gen name now" for pg gen name now
proof
  fix d e i d'
  assume "tenant_find pg name d = Err e" "errors_Is e ErrNoRows" and a: "tenant_add pg gen name now d = (Ok i, d')"
  then have "pg_text pg name" "filter (\<lambda>t. t_Name t = name) (tenants d) = []"
    unfolding tenant_find_def by (auto dest!: check_NoRows simp: bind1_Err first_row_Err)
  then show "grows d d' \<and> tenant_find pg name d' = Ok i"
    using a by (auto simp: tenant_add_def returning_Ok insert_stmt_Ok tenant_find_def)
next
  fix d i d'
  assume "tenant_find pg name d = Ok i" "grows d d'"
  then show "tenant_find pg name d' = Ok i" by (auto simp: tenant_find_def grows_def prefix_def)
qed


interpretation user_row: ensure_exists "user_find pg email cur" "user_add pg gen tn email hash nm cur now"
  for pg email cur gen tn hash nm now
proof
  fix d e i d'
  assume "user_find pg email cur d = Err e" "errors_Is e ErrNoRows" and a: "user_add pg gen tn email hash nm cur now d = (Ok i, d')"
  then have "pg_text pg email" "filter (\<lambda>r. u_Email r = email) (visible u_TenantID cur (users d)) = []"
    unfolding user_find_def by (auto dest!: check_NoRows simp: bind1_Err first_row_Err)
  then show "grows d d' \<and> user_find pg email cur d' = Ok i"
    using a by (auto simp: user_add_def returning_Ok user_insert_def user_insert_row_def insert_stmt_Ok user_find_def visible_row)
next
  fix d i d'
  assume "user_find pg email cur d = Ok i" "grows d d'"
  then show "user_find pg email cur d' = Ok i" by (auto simp: user_find_def grows_def prefix_def)
qed

interpretation lot_row: ensure_exists "lot_find pg tn name cur" "lot_add pg gen tn name cur now" for pg tn name cur gen now
proof
  fix d e i d'
  assume s: "lot_find pg tn name cur d = Err e" "errors_Is e ErrNoRows" and a: "lot_add pg gen tn name cur now d = (Ok i, d')"
  then obtain t where "pg_text pg name" "pg_uuid pg tn = Some t"
    "filter (\<lambda>r. l_TenantID r = t \<and> l_Name r = name) (visible l_TenantID cur (lots d)) = []"
    unfolding lot_find_def by (auto dest!: check_NoRows uuid_param_NoRows simp: bind1_Err first_row_Err)
  then show "grows d d' \<and> lot_find pg tn name cur d' = Ok i"
    using a by (auto simp: lot_add_def returning_Ok lot_insert_def insert_stmt_Ok lot_find_def visible_row split: option.splits)
next
  fix d i d'
  assume "lot_find pg tn name cur d = Ok i" "grows d d'"
  then show "lot_find pg tn name cur d' = Ok i" by (auto simp: lot_find_def grows_def prefix_def)
qed

interpretation campaign_row: ensure_exists "campaign_find pg tn name cur" "campaign_add pg gen tn name ssn st en cur now"
  for pg tn name cur gen ssn st en now
proof
  fix d e i d'
  assume s: "campaign_find pg tn name cur d = Err e" "errors_Is e ErrNoRows"
    and a: "campaign_add pg gen tn name ssn st en cur now d = (Ok i, d')"
  then obtain t where "pg_text pg name" "pg_uuid pg tn = Some t"
    "filter (\<lambda>r. c_TenantID r = t \<and> c_Name r = name) (visible c_TenantID cur (campaigns d)) = []"
    unfolding campaign_find_def by (auto dest!: check_NoRows uuid_param_NoRows simp: bind1_Err first_row_Err)
  then show "grows d d' \<and> campaign_find pg tn name cur d' = Ok i"
    using a by (auto simp: campaign_add_def returning_Ok campaign_insert_def insert_stmt_Ok campaign_find_def visible_row)
next
  fix d i d'
  assume "campaign_find pg tn name cur d = Ok i" "grows d d'"
  then show "campaign_find pg tn name cur d' = Ok i" by (auto simp: campaign_find_def grows_def prefix_def)
qed

lemmas ensures_row = ensures_find_or_insert [OF user_row.ensure_exists_axioms] ensures_find_or_insert [OF lot_row.ensure_exists_axioms]
  ensures_find_or_insert [OF campaign_row.ensure_exists_axioms]

section \<open>Every helper\<close>

lemma ensures_createTenant: "ensures w_db (createTenant pg gen name) (createTenant pg gen name)"
proof (rule ensuresI)
  fix w i w' assume c: "createTenant pg gen name w = (Ok i, w')"
  obtain r w1 where q: "pg_query (tenant_find pg name) w = (r, w1)" by fastforce
  have w1: "w_db w1 = w_db w" using pg_query_db [of "tenant_find pg name" w] q by simp
  have f: "\<exists>now. tenant_find pg name (w_db w) = Ok i \<and> w_db w' = w_db w \<or>
     (\<exists>e. tenant_find pg name (w_db w) = Err e \<and> errors_Is e ErrNoRows \<and> tenant_add pg gen name now (w_db w) = (Ok i, w_db w'))"
  proof (cases r)
    case (Ok j)
    with c q w1 pg_query_Ok [OF q [unfolded Ok]] show ?thesis by (simp add: createTenant_def)
  next
    case (Err e)
    with c q have e: "errors_Is e ErrNoRows" and x: "pg_exec (\<lambda>d. tenant_add pg gen name (pg_ts pg (w_clock w1)) d) w1 = (Ok i, w')"
      by (auto simp: createTenant_def split: if_splits)
    from pg_exec_Err [OF q [unfolded Err pg_query_def]] e have "tenant_find pg name (w_db w) = Err e" by auto
    with pg_exec_Ok [OF x] w1 e show ?thesis by auto
  qed (use c q in \<open>simp add: createTenant_def\<close>)
  then show "grows (w_db w) (w_db w')" using tenant_row.ensured by (metis grows_refl)
  fix w3 :: world assume "grows (w_db w') (w_db w3)"
  with f have t: "tenant_find pg name (w_db w3) = Ok i" using tenant_row.ensured by metis
  obtain r3 w4 where q3: "pg_query (tenant_find pg name) w3 = (r3, w4)" by fastforce
  have w4: "w_db w4 = w_db w3" using pg_query_db [of "tenant_find pg name" w3] q3 by simp
  show "w_db (snd (createTenant pg gen name w3)) = w_db w3 \<and> (\<forall>y. fst (createTenant pg gen name w3) = Ok y \<longrightarrow> y = i)"
  proof (cases r3)
    case (Ok j)
    with pg_query_Ok [OF q3 [unfolded Ok]] t q3 w4 show ?thesis by (simp add: createTenant_def)
  next
    case (Err e)
    from pg_exec_Err [OF q3 [unfolded Err pg_query_def]] t have "\<not> errors_Is e ErrNoRows" by auto
    with Err q3 w4 show ?thesis by (simp add: createTenant_def)
  qed (use q3 w4 in \<open>simp add: createTenant_def\<close>)
qed

lemma ensures_createUser: "ensures w_db (createUser pg gen tn em h nm) (createUser pg gen tn em h' nm)"
  unfolding createUser_def by (rule ensures_row)

lemma ensures_createLot: "ensures w_db (createLot pg gen tn name) (createLot pg gen tn name)"
  unfolding createLot_def by (rule ensures_row)

lemma ensures_createCampaign: "ensures w_db (createCampaign pg gen tn name ssn st en) (createCampaign pg gen tn name ssn st en)"
  unfolding createCampaign_def by (rule ensures_row)


text \<open>A statement, as part of a transaction.\<close>

lemma rls_exec_still:
  assumes "\<And>cur now x d'. current_tenant_id pg g = Inr cur \<Longrightarrow> q cur now (w_db w) = (Ok x, d') \<Longrightarrow> d' = w_db w"
  shows "w_db (snd (rls_exec pg g q w)) = w_db w"
proof -
  obtain r w' where r: "rls_exec pg g q w = (r, w')" by fastforce
  from rls_exec_db [OF r] assms r show ?thesis by auto
qed

lemma ensures_assignRole: "ensures w_db (assignRole pg tn u role) (assignRole pg tn u role)"
proof (rule ensuresI)
  let ?m = "\<lparr>ur_UserID = u, ur_RoleCode = role, ur_TenantID = tn\<rparr>"
  have grown: "grows d d' \<and> (\<exists>r \<in> set (user_roles d'). pg_uuid pg u = Some (ur_UserID r) \<and> ur_RoleCode r = role)"
    if "role_ensure pg ?m cur now d = (Ok x, d')" for cur now d x d'
    using that by (auto simp: role_ensure_def insert_stmt_Ok)
  fix w x w' assume "assignRole pg tn u role w = (Ok x, w')"
  then obtain w1 w2 where "rls_exec pg tn (role_ensure pg ?m) w1 = (Ok x, w2)" and db: "w_db w1 = w_db w" "w_db w' = w_db w2"
    unfolding assignRole_def withTenant_Ok by (rule WithTenant_Ok)
  from rls_exec_Ok [OF this(1)] db obtain cur where
    "role_ensure pg ?m cur (pg_ts pg (w_clock w1)) (w_db w) = (Ok x, w_db w')" by auto
  note done' = grown [OF this]
  then show "grows (w_db w) (w_db w')" by simp
  fix w3 :: world assume g3: "grows (w_db w') (w_db w3)"
  have "set (user_roles (w_db w')) \<subseteq> set (user_roles (w_db w3))" using g3 by (simp add: grows_def set_mono_prefix)
  with done' have "\<exists>r \<in> set (user_roles (w_db w3)). pg_uuid pg u = Some (ur_UserID r) \<and> ur_RoleCode r = role" by blast
  then have "w_db (snd (rls_exec pg tn (role_ensure pg ?m) w4)) = w_db w4" if "w_db w4 = w_db w3" for w4
    by (intro rls_exec_still) (use that in \<open>auto simp: role_ensure_def insert_stmt_Ok\<close>)
  then show "w_db (snd (assignRole pg tn u role w3)) = w_db w3 \<and> (\<forall>y. fst (assignRole pg tn u role w3) = Ok y \<longrightarrow> y = x)"
    unfolding assignRole_def by (intro withTenant_still) simp
qed

lemma application_exists_Ok: "application_exists pg tn l c prd ap op cur d = Ok b \<longleftrightarrow> pg_text pg prd \<and>
   (\<exists>t l' c' op'. pg_uuid pg tn = Some t \<and> pg_uuid pg l = Some l' \<and> pg_uuid pg c = Some c' \<and>
      (if op = [] then op' = [] else pg_uuid pg op = Some op') \<and>
      b = (\<exists>r \<in> set (visible a_TenantID cur (applications d)). a_TenantID r = t \<and> a_LotID r = l' \<and> a_CampaignID r = c' \<and>
         a_ProductName r = prd \<and> a_AppliedAt r = pg_ts pg ap \<and> a_OperatorID r = op'))"
  by (auto simp: application_exists_def nullableUUID_def)

lemma ensures_createApplication:
  "ensures w_db (createApplication pg gen tn l c prd dose ap op notes) (createApplication pg gen tn l c prd dose ap op notes)"
proof (rule ensuresI)
  let ?sel = "application_exists pg tn l c prd ap op" and ?ins = "application_add pg gen tn l c prd dose ap op notes"
  have added: "grows d d' \<and> ?sel cur d' = Ok True" if "?sel cur d = Ok False" "?ins cur now d = (Ok x, d')" for cur now d x d'
    using that unfolding application_exists_Ok
    by (auto simp: application_add_def application_insert_def application_row_def insert_stmt_Ok nullableUUID_def visible_row split: if_splits)
  have stays: "?sel cur d' = Ok True" if "?sel cur d = Ok True" "grows d d'" for cur d d'
  proof -
    from that(2) have "set (visible a_TenantID cur (applications d)) \<subseteq> set (visible a_TenantID cur (applications d'))"
      by (auto simp: grows_def prefix_def)
    moreover from that(1) obtain r t l' c' op' where "r \<in> set (visible a_TenantID cur (applications d))" "pg_text pg prd"
      "pg_uuid pg tn = Some t" "pg_uuid pg l = Some l'" "pg_uuid pg c = Some c'" "if op = [] then op' = [] else pg_uuid pg op = Some op'"
      "a_TenantID r = t \<and> a_LotID r = l' \<and> a_CampaignID r = c' \<and> a_ProductName r = prd \<and> a_AppliedAt r = pg_ts pg ap \<and> a_OperatorID r = op'"
      unfolding application_exists_Ok by blast
    ultimately show ?thesis unfolding application_exists_Ok by blast
  qed
  let ?body = "\<lambda>g w. bindR (rls_query pg g ?sel w) (\<lambda>exists w1. if exists then (Ok (), w1) else rls_exec pg g ?ins w1)"
  fix w x w' assume "createApplication pg gen tn l c prd dose ap op notes w = (Ok x, w')"
  then obtain w1 w2 where body: "?body tn w1 = (Ok x, w2)" and db: "w_db w1 = w_db w" "w_db w' = w_db w2"
    unfolding createApplication_def withTenant_Ok by (rule WithTenant_Ok)
  from body obtain b w5 where q: "rls_query pg tn ?sel w1 = (Ok b, w5)"
    and i: "(if b then (Ok (), w5) else rls_exec pg tn ?ins w5) = (Ok x, w2)" by (rule bindR_OkE)
  have w5: "w_db w5 = w_db w" using rls_query_db [of pg tn ?sel w1] q db by simp
  from rls_query_Ok [OF q] db obtain cur where cur: "current_tenant_id pg tn = Inr cur" "?sel cur (w_db w) = Ok b" by auto
  have f: "grows (w_db w) (w_db w') \<and> ?sel cur (w_db w') = Ok True"
  proof (cases b)
    case True
    with i w5 cur db show ?thesis by simp
  next
    case False
    with i rls_exec_Ok [of pg tn ?ins w5 x w2] cur w5 db obtain now where "?ins cur now (w_db w) = (Ok x, w_db w')" by auto
    with added cur False show ?thesis by simp
  qed
  then show "grows (w_db w) (w_db w')" by simp
  fix w3 :: world assume g3: "grows (w_db w') (w_db w3)"
  have "w_db (snd (?body tn w4)) = w_db w4" if w4: "w_db w4 = w_db w3" for w4
  proof (cases "rls_query pg tn ?sel w4")
    case (Pair r w6)
    have w6: "w_db w6 = w_db w4" using rls_query_db [of pg tn ?sel w4] Pair by simp
    show ?thesis
    proof (cases r)
      case (Ok b')
      from rls_query_Ok [OF Pair [unfolded Ok]] cur(1) w4 stays f g3 have b' by auto
      with Ok Pair w6 show ?thesis by simp
    qed (use Pair w6 in simp_all)
  qed
  then show "w_db (snd (createApplication pg gen tn l c prd dose ap op notes w3)) = w_db w3 \<and>
      (\<forall>y. fst (createApplication pg gen tn l c prd dose ap op notes w3) = Ok y \<longrightarrow> y = x)"
    unfolding createApplication_def by (intro withTenant_still) simp
qed

section \<open>The command\<close>

abbreviation console_db :: "console \<Rightarrow> db" where
  "console_db s \<equiv> w_db (fst s)"

lemma ensures_on_db: "ensures w_db f f' \<Longrightarrow> ensures console_db (on_db f) (on_db f')"
  unfolding ensures_def on_db_def by (auto split: prod.splits) (metis fst_conv snd_conv)+

lemma ensures_Printf: "ensures console_db (Printf l) (Printf l)"
  by (rule ensures_quiet) (simp_all add: Printf_def)

lemma ensures_parsed: "ensures console_db (parsed m t) (parsed m t)"
  by (rule ensures_quiet) (auto simp: parsed_def split: option.splits)

lemma ensures_return: "ensures p (Pair (Ok x)) (Pair (Ok x))"
  by (rule ensures_quiet) simp_all

lemmas ensures_steps = ensures_bind ensures_wrapR ensures_on_db ensures_Printf ensures_parsed ensures_return ensures_createTenant
  ensures_createUser ensures_assignRole ensures_createLot ensures_createCampaign ensures_createApplication

lemma Hash_quiet: "console_db (snd (wrapR m (on_db (PasswordHasher_Hash kdf world_rand p) s))) = console_db s"
proof -
  have "w_db w' = w_db w" if "world_rand n w = (x, w')" for n x w w' using w_db_rand [of n w] that by simp
  then show ?thesis by (auto simp: on_db_def PasswordHasher_Hash_def split: prod.splits option.splits)
qed

lemma ensures_users: "ensures console_db (seed_users pg gen kdf nm tn us m) (seed_users pg gen kdf nm tn us m)"
proof (induction us arbitrary: m)
  case (Cons u us)
  show ?case unfolding seed_users.simps
    by (rule ensures_after [where p = console_db], rule Hash_quiet) (intro ensures_steps Cons.IH)
qed (rule ensures_quiet; simp)


lemma ensures_lots: "ensures console_db (seed_lots pg gen tn ns m) (seed_lots pg gen tn ns m)"
proof (induction ns arbitrary: m)
  case (Cons n ns)
  show ?case unfolding seed_lots.simps by (intro ensures_steps Cons.IH)
qed (rule ensures_quiet; simp)

lemma ensures_campaigns: "ensures console_db (seed_campaigns pg gen tn cs m) (seed_campaigns pg gen tn cs m)"
proof (induction cs arbitrary: m)
  case (Cons c cs)
  show ?case unfolding seed_campaigns.simps by (intro ensures_steps Cons.IH)
qed (rule ensures_quiet; simp)

lemma ensures_applications: "ensures console_db (seed_applications pg gen tn li ci ui as) (seed_applications pg gen tn li ci ui as)"
proof (induction as)
  case (Cons a as)
  show ?case unfolding seed_applications.simps by (intro ensures_steps Cons.IH)
qed (rule ensures_quiet; simp)

lemma ensures_tenant: "ensures console_db (seed_tenant pg gen kdf t) (seed_tenant pg gen kdf t)"
  unfolding seed_tenant_def
  by (intro ensures_steps ensures_users ensures_lots ensures_campaigns ensures_applications)

lemma ensures_plan: "ensures console_db (seed_plan pg gen kdf ts) (seed_plan pg gen kdf ts)"
proof (induction ts)
  case (Cons t ts)
  show ?case unfolding seed_plan.simps by (intro ensures_steps ensures_tenant Cons.IH)
qed (simp add: ensures_Printf)

lemma seed_again:
  assumes "seed_run pg gen kdf connect dsn s = (Ok (), s1)" "grows (console_db s1) (console_db s2)"
  shows "console_db (snd (seed_run pg gen kdf connect' dsn' s2)) = console_db s2"
proof -
  from assms(1) have "seed_plan pg gen kdf demoPlan s = (Ok (), s1)"
    by (auto simp: seed_run_def split: if_splits option.splits)
  from ensuresD(2) [OF ensures_plan this assms(2)] show ?thesis
    by (simp add: seed_run_def split: option.splits)
qed

end
