(* ===== verification/Seed_Live.thy ===== *)
theory Seed_Live
  imports Seed_Facts
begin

text \<open>
  Seeding succeeds: on a freshly migrated database that can be reached, with entropy for the salts, the
  command ends without an error and the database then holds the whole plan (\<open>seed_once\<close>). One lemma per
  helper says what it does to such a database, one per loop carries the conditions (\<open>seed_inv\<close>) and the
  maps of identifiers from one helper to the next, and \<open>planted\<close> is what is there at the end.
\<close>

section \<open>The plan\<close>

definition tenant_consistent :: "demoTenant \<Rightarrow> bool" where
  "tenant_consistent t \<longleftrightarrow> list_all (\<lambda>u. IsValidRoleCode (du_role u)) (dt_users t) \<and>
     list_all (\<lambda>c. Parse_Date (dc_start c) \<noteq> None \<and> Parse_Date (dc_end c) \<noteq> None) (dt_campaigns t) \<and>
     list_all (\<lambda>a. da_lotName a \<in> set (dt_lots t) \<and> da_campaignName a \<in> set (map dc_name (dt_campaigns t)) \<and>
       (da_operatorEmail a = [] \<or> da_operatorEmail a \<in> set (map du_email (dt_users t))) \<and>
       Parse_RFC3339 (da_appliedAt a) \<noteq> None) (dt_applications t)"

definition plan_consistent :: "demoTenant list \<Rightarrow> bool" where
  "plan_consistent plan \<longleftrightarrow> distinct (map dt_name plan) \<and> distinct (concat (map (\<lambda>t. map du_email (dt_users t)) plan)) \<and>
     list_all tenant_consistent plan"

lemma demoPlan_consistent: "plan_consistent demoPlan"
  by code_simp

definition tenant_texts :: "demoTenant \<Rightarrow> string list" where
  "tenant_texts t = dt_name t # concat (map (\<lambda>u. [du_email u, du_fullName u, du_role u]) (dt_users t)) @ dt_lots t @
     concat (map (\<lambda>c. [dc_name c, dc_season c]) (dt_campaigns t)) @
     concat (map (\<lambda>a. [da_product a, da_dose a, da_notes a]) (dt_applications t))"

text \<open>What the command relies on: the server draws identifiers that are canonical and not in use, takes the texts of the
  plan, the hashes and the area, and the hash function does not fail.\<close>

definition seedable :: "PG \<Rightarrow> (db \<Rightarrow> string) \<Rightarrow> argon2_IDKey \<Rightarrow> string list \<Rightarrow> bool" where
  "seedable pg gen kdf texts \<longleftrightarrow>
     (\<forall>d. pg_uuid pg (gen d) = Some (gen d) \<and> gen d \<noteq> [] \<and> gen d \<notin> t_ID ` set (tenants d) \<union> u_ID ` set (users d) \<union>
        l_ID ` set (lots d) \<union> c_ID ` set (campaigns d) \<union> a_ID ` set (applications d)) \<and>
     pg_numeric pg (241 / 2) \<noteq> None \<and> list_all (pg_text pg) texts \<and> (\<forall>salt key. pg_text pg (phc_string salt key)) \<and>
     (\<forall>pw salt. \<exists>key. kdf pw salt 1 65536 4 32 = Ok key \<and> length key = 32)"

text \<open>Every row is identified as the server prints it, a membership is one of an existing user and an account one of an existing
  tenant, and no two accounts share an address.\<close>

definition seed_inv :: "PG \<Rightarrow> db \<Rightarrow> bool" where
  "seed_inv pg d \<longleftrightarrow> (\<forall>t \<in> set (tenants d). pg_uuid pg (t_ID t) = Some (t_ID t) \<and> t_ID t \<noteq> []) \<and>
     (\<forall>u \<in> set (users d). pg_uuid pg (u_ID u) = Some (u_ID u) \<and> u_ID u \<noteq> []) \<and>
     (\<forall>l \<in> set (lots d). pg_uuid pg (l_ID l) = Some (l_ID l)) \<and>
     (\<forall>c \<in> set (campaigns d). pg_uuid pg (c_ID c) = Some (c_ID c)) \<and>
     (\<forall>m \<in> set (user_roles d). ur_UserID m \<in> u_ID ` set (users d)) \<and>
     (\<forall>u \<in> set (users d). u_TenantID u \<in> t_ID ` set (tenants d)) \<and> distinct (map u_Email (users d))"

section \<open>Each helper\<close>

lemma withTenant_clean: "w_faults w = [] \<Longrightarrow> fn t w = (Ok x, w\<lparr>w_db := d\<rparr>) \<Longrightarrow> withTenant t fn w = (Ok x, w\<lparr>w_db := d\<rparr>)"
  by (simp add: withTenant_Ok WithTenant_clean roundtrip_clean)

lemma seedable_fresh:
  assumes "seedable pg gen kdf txt"
  shows "\<forall>r \<in> set (lots d). l_ID r \<noteq> gen d" "\<forall>r \<in> set (campaigns d). c_ID r \<noteq> gen d" "\<forall>r \<in> set (applications d). a_ID r \<noteq> gen d"
    "pg_uuid pg (gen d) = Some (gen d)" "gen d \<notin> u_ID ` set (users d)" "gen d \<noteq> []"
  using assms unfolding seedable_def by (metis UnI1 UnI2 image_eqI)+

lemma createTenant_live:
  assumes "w_faults w = []" "seedable pg gen kdf txt" "pg_text pg name" "name \<notin> t_Name ` set (tenants (w_db w))"
  shows "\<exists>row. createTenant pg gen name w = (Ok (gen (w_db w)), w\<lparr>w_db := (w_db w)\<lparr>tenants := tenants (w_db w) @ [row]\<rparr>\<rparr>) \<and>
    t_ID row = gen (w_db w) \<and> t_Name row = name"
proof -
  have "filter (\<lambda>t. t_Name t = name) (tenants (w_db w)) = []" using assms(4) by (auto simp: filter_empty_conv)
  then show ?thesis using assms
    by (auto simp: createTenant_def pg_query_clean pg_exec_clean tenant_find_def first_row_def tenant_add_def returning_def
        insert_stmt_def seedable_def uuid_param_def)
qed

lemma createUser_live:
  assumes "w_faults w = []" "seedable pg gen kdf txt" "list_all (pg_text pg) [em, h, nm]" "em \<notin> u_Email ` set (users (w_db w))"
    and "tn \<in> t_ID ` set (tenants (w_db w))" "pg_uuid pg tn = Some tn" "tn \<noteq> []"
  shows "\<exists>row. createUser pg gen tn em h nm w = (Ok (gen (w_db w)), w\<lparr>w_db := (w_db w)\<lparr>users := users (w_db w) @ [row]\<rparr>\<rparr>) \<and>
    u_ID row = gen (w_db w) \<and> u_TenantID row = tn \<and> u_Email row = em \<and> u_PasswordHash row = h \<and> u_FullName row = nm \<and> u_IsActive row"
proof -
  let ?row = "\<lparr>u_ID = gen (w_db w), u_TenantID = tn, u_Email = em, u_PasswordHash = h, u_FullName = nm, u_IsActive = True,
     u_Role = [], u_CreatedAt = pg_ts pg (w_clock w), u_UpdatedAt = pg_ts pg (w_clock w)\<rparr>"
  have "filter (\<lambda>u. u_Email u = em) (visible u_TenantID (Some tn) (users (w_db w))) = []"
    using assms(4) by (auto simp: filter_empty_conv)
  then have "createUser pg gen tn em h nm w = (Ok (gen (w_db w)), w\<lparr>w_db := (w_db w)\<lparr>users := users (w_db w) @ [?row]\<rparr>\<rparr>)"
    using assms(1,3-) seedable_fresh(4,5) [OF assms(2)] unfolding createUser_def
    by (intro withTenant_clean)
      (auto simp: find_or_insert_def rls_query_clean rls_exec_clean user_find_def first_row_def user_add_def user_insert_def
        user_insert_row_def returning_def insert_stmt_def uuid_param_def)
  then show ?thesis by (intro exI [of _ ?row]) simp
qed

lemma assignRole_live:
  assumes "w_faults w = []" "pg_text pg role" "IsValidRoleCode role" "pg_uuid pg u = Some u" "u \<in> u_ID ` set (users (w_db w))"
    and "u \<notin> ur_UserID ` set (user_roles (w_db w))"
    and "tn \<in> t_ID ` set (tenants (w_db w))" "pg_uuid pg tn = Some tn" "tn \<noteq> []"
  shows "assignRole pg tn u role w = (Ok (), w\<lparr>w_db := (w_db w)\<lparr>user_roles := user_roles (w_db w) @
    [\<lparr>ur_UserID = u, ur_RoleCode = role, ur_TenantID = tn\<rparr>]\<rparr>\<rparr>)"
proof -
  have "\<not> (\<exists>r \<in> set (user_roles (w_db w)). ur_UserID r = u \<and> ur_RoleCode r = role)" using assms(6) by auto
  then show ?thesis using assms unfolding assignRole_def
    by (intro withTenant_clean) (auto simp: rls_exec_clean role_ensure_def insert_stmt_def uuid_param_def)
qed


lemma createLot_live:
  assumes "w_faults w = []" "seedable pg gen kdf txt" "pg_text pg name"
    and "tn \<in> t_ID ` set (tenants (w_db w))" "pg_uuid pg tn = Some tn" "tn \<noteq> []"
  shows "\<exists>ls l. createLot pg gen tn name w = (Ok (l_ID l), w\<lparr>w_db := (w_db w)\<lparr>lots := lots (w_db w) @ ls\<rparr>\<rparr>) \<and>
    (\<forall>x \<in> set ls. pg_uuid pg (l_ID x) = Some (l_ID x)) \<and> l \<in> set (lots (w_db w) @ ls) \<and> l_Name l = name \<and> l_TenantID l = tn"
proof (cases "filter (\<lambda>r. l_TenantID r = tn \<and> l_Name r = name) (visible l_TenantID (Some tn) (lots (w_db w)))")
  case Nil
  from assms(2) obtain a where a: "pg_numeric pg (241 / 2) = Some a" by (auto simp: seedable_def)
  let ?row = "\<lparr>l_ID = gen (w_db w), l_TenantID = tn, l_Name = name, l_AreaHA = a, l_Crop = name,
     l_CreatedAt = pg_ts pg (w_clock w), l_UpdatedAt = pg_ts pg (w_clock w)\<rparr>"
  have "createLot pg gen tn name w = (Ok (l_ID ?row), w\<lparr>w_db := (w_db w)\<lparr>lots := lots (w_db w) @ [?row]\<rparr>\<rparr>)"
    unfolding createLot_def using assms(1,3-) Nil a seedable_fresh(1,4) [OF assms(2)]
    by (intro withTenant_clean) (auto simp: find_or_insert_def rls_query_clean rls_exec_clean lot_find_def first_row_def lot_add_def
        lot_insert_def returning_def insert_stmt_def uuid_param_def)
  then show ?thesis using assms(2) by (intro exI [of _ "[?row]"] exI [of _ ?row]) (auto simp: seedable_def)
next
  case (Cons l ls)
  then have "l \<in> set (filter (\<lambda>r. l_TenantID r = tn \<and> l_Name r = name) (visible l_TenantID (Some tn) (lots (w_db w))))" by simp
  moreover have "createLot pg gen tn name w = (Ok (l_ID l), w\<lparr>w_db := (w_db w)\<lparr>lots := lots (w_db w) @ []\<rparr>\<rparr>)"
    unfolding createLot_def using assms Cons
    by (intro withTenant_clean) (auto simp: find_or_insert_def rls_query_clean lot_find_def first_row_def uuid_param_def)
  ultimately show ?thesis by (intro exI [of _ "[]"] exI [of _ l]) auto
qed

lemma createCampaign_live:
  assumes "w_faults w = []" "seedable pg gen kdf txt" "list_all (pg_text pg) [name, ssn]"
    and "tn \<in> t_ID ` set (tenants (w_db w))" "pg_uuid pg tn = Some tn" "tn \<noteq> []"
  shows "\<exists>cs c. createCampaign pg gen tn name ssn st en w = (Ok (c_ID c), w\<lparr>w_db := (w_db w)\<lparr>campaigns := campaigns (w_db w) @ cs\<rparr>\<rparr>) \<and>
    (\<forall>x \<in> set cs. pg_uuid pg (c_ID x) = Some (c_ID x)) \<and> c \<in> set (campaigns (w_db w) @ cs) \<and> c_Name c = name \<and> c_TenantID c = tn"
proof (cases "filter (\<lambda>r. c_TenantID r = tn \<and> c_Name r = name) (visible c_TenantID (Some tn) (campaigns (w_db w)))")
  case Nil
  let ?row = "\<lparr>c_ID = gen (w_db w), c_TenantID = tn, c_Name = name, c_Season = ssn, c_StartedAt = Some (pg_date pg st),
     c_EndedAt = Some (pg_date pg en), c_CreatedAt = pg_ts pg (w_clock w), c_UpdatedAt = pg_ts pg (w_clock w)\<rparr>"
  have "createCampaign pg gen tn name ssn st en w = (Ok (c_ID ?row), w\<lparr>w_db := (w_db w)\<lparr>campaigns := campaigns (w_db w) @ [?row]\<rparr>\<rparr>)"
    unfolding createCampaign_def using assms(1,3-) Nil seedable_fresh(2,4) [OF assms(2)]
    by (intro withTenant_clean) (auto simp: find_or_insert_def rls_query_clean rls_exec_clean campaign_find_def first_row_def campaign_add_def
        campaign_insert_def returning_def insert_stmt_def uuid_param_def)
  then show ?thesis using assms(2) by (intro exI [of _ "[?row]"] exI [of _ ?row]) (auto simp: seedable_def)
next
  case (Cons c cs)
  then have "c \<in> set (filter (\<lambda>r. c_TenantID r = tn \<and> c_Name r = name) (visible c_TenantID (Some tn) (campaigns (w_db w))))" by simp
  moreover have "createCampaign pg gen tn name ssn st en w = (Ok (c_ID c), w\<lparr>w_db := (w_db w)\<lparr>campaigns := campaigns (w_db w) @ []\<rparr>\<rparr>)"
    unfolding createCampaign_def using assms Cons
    by (intro withTenant_clean) (auto simp: find_or_insert_def rls_query_clean campaign_find_def first_row_def uuid_param_def)
  ultimately show ?thesis by (intro exI [of _ "[]"] exI [of _ c]) auto
qed

lemma createApplication_live:
  assumes "w_faults w = []" "seedable pg gen kdf txt" "list_all (pg_text pg) [prd, dose, notes]"
    and "tn \<in> t_ID ` set (tenants (w_db w))" "pg_uuid pg tn = Some tn" "tn \<noteq> []"
    and "pg_uuid pg l = Some l" "pg_uuid pg c = Some c" "op = [] \<or> op \<in> u_ID ` set (users (w_db w)) \<and> pg_uuid pg op = Some op"
  shows "\<exists>as a. createApplication pg gen tn l c prd dose ap op notes w =
      (Ok (), w\<lparr>w_db := (w_db w)\<lparr>applications := applications (w_db w) @ as\<rparr>\<rparr>) \<and>
    a \<in> set (applications (w_db w) @ as) \<and> a_TenantID a = tn \<and> a_LotID a = l \<and> a_CampaignID a = c \<and>
    a_ProductName a = prd \<and> a_AppliedAt a = pg_ts pg ap \<and> a_OperatorID a = op"
proof -
  have cur: "current_tenant_id pg tn = Inr (Some tn)" using assms(5,6) by simp
  show ?thesis
proof (cases "\<exists>r \<in> set (visible a_TenantID (Some tn) (applications (w_db w))). a_TenantID r = tn \<and> a_LotID r = l \<and> a_CampaignID r = c \<and>
         a_ProductName r = prd \<and> a_AppliedAt r = pg_ts pg ap \<and> a_OperatorID r = op")
  case True
  have "(case nullableUUID op of None \<Rightarrow> Ok [] | Some u \<Rightarrow> uuid_param pg u) = Ok op"
    using assms(9) by (auto simp: nullableUUID_def)
  with assms True have "application_exists pg tn l c prd ap op (Some tn) (w_db w) = Ok True"
    by (simp add: application_exists_def uuid_param_def)
  with assms have "createApplication pg gen tn l c prd dose ap op notes w =
      (Ok (), w\<lparr>w_db := (w_db w)\<lparr>applications := applications (w_db w) @ []\<rparr>\<rparr>)"
    unfolding createApplication_def by (intro withTenant_clean) (simp_all add: rls_query_clean [OF assms(1) cur])
  with True show ?thesis by (intro exI [of _ "[]"]) auto
next
  case False
  let ?row = "\<lparr>a_ID = gen (w_db w), a_TenantID = tn, a_LotID = l, a_CampaignID = c, a_ProductName = prd, a_Dose = dose,
     a_AppliedAt = pg_ts pg ap, a_OperatorID = op, a_OperatorName = [], a_Notes = notes,
     a_CreatedAt = pg_ts pg (w_clock w), a_UpdatedAt = pg_ts pg (w_clock w)\<rparr>"
  have op: "(case nullableUUID op of None \<Rightarrow> Ok [] | Some u \<Rightarrow> uuid_param pg u) = Ok op"
    using assms(9) by (auto simp: nullableUUID_def)
  with assms False have "application_exists pg tn l c prd ap op (Some tn) (w_db w) = Ok False"
    by (simp add: application_exists_def uuid_param_def)
  moreover have "application_add pg gen tn l c prd dose ap op notes (Some tn) (pg_ts pg (w_clock w)) (w_db w) =
      (Ok (), (w_db w)\<lparr>applications := applications (w_db w) @ [?row]\<rparr>)"
    using assms(1,3-) op seedable_fresh(3,4) [OF assms(2)]
    by (auto simp: application_add_def application_insert_def application_row_def insert_stmt_def uuid_param_def operator_exists_def)
  ultimately have "createApplication pg gen tn l c prd dose ap op notes w =
      (Ok (), w\<lparr>w_db := (w_db w)\<lparr>applications := applications (w_db w) @ [?row]\<rparr>\<rparr>)"
    unfolding createApplication_def using assms by (intro withTenant_clean) (simp_all add: rls_query_clean [OF assms(1) cur] rls_exec_clean [OF assms(1) cur])
  then show ?thesis by (intro exI [of _ "[?row]"] exI [of _ ?row]) simp
qed
qed


section \<open>What a seeded database holds\<close>

definition user_planted :: "argon2_IDKey \<Rightarrow> db \<Rightarrow> string \<Rightarrow> demoUser \<Rightarrow> bool" where
  "user_planted kdf d tn u \<longleftrightarrow> (\<exists>r \<in> set (users d). u_Email r = du_email u \<and> u_TenantID r = tn \<and> u_FullName r = du_fullName u \<and>
     u_IsActive r \<and> phc_verify kdf (u_PasswordHash r) (du_pass u) = Ok True \<and>
     \<lparr>ur_UserID = u_ID r, ur_RoleCode = du_role u, ur_TenantID = tn\<rparr> \<in> set (user_roles d))"

definition application_planted :: "PG \<Rightarrow> db \<Rightarrow> string \<Rightarrow> demoApplication \<Rightarrow> bool" where
  "application_planted pg d tn a \<longleftrightarrow> (\<exists>r \<in> set (applications d). \<exists>l \<in> set (lots d). \<exists>c \<in> set (campaigns d). a_TenantID r = tn \<and>
     a_LotID r = l_ID l \<and> l_TenantID l = tn \<and> l_Name l = da_lotName a \<and>
     a_CampaignID r = c_ID c \<and> c_TenantID c = tn \<and> c_Name c = da_campaignName a \<and>
     a_ProductName r = da_product a \<and> map_option (pg_ts pg) (Parse_RFC3339 (da_appliedAt a)) = Some (a_AppliedAt r) \<and>
     (if da_operatorEmail a = [] then a_OperatorID r = []
      else \<exists>u \<in> set (users d). u_ID u = a_OperatorID r \<and> u_TenantID u = tn \<and> u_Email u = da_operatorEmail a))"

definition planted :: "PG \<Rightarrow> argon2_IDKey \<Rightarrow> db \<Rightarrow> demoTenant \<Rightarrow> bool" where
  "planted pg kdf d t \<longleftrightarrow> (\<exists>tr \<in> set (tenants d). t_Name tr = dt_name t \<and>
     (\<forall>u \<in> set (dt_users t). user_planted kdf d (t_ID tr) u) \<and>
     (\<forall>n \<in> set (dt_lots t). \<exists>l \<in> set (lots d). l_TenantID l = t_ID tr \<and> l_Name l = n) \<and>
     (\<forall>c \<in> set (dt_campaigns t). \<exists>r \<in> set (campaigns d). c_TenantID r = t_ID tr \<and> c_Name r = dc_name c) \<and>
     (\<forall>a \<in> set (dt_applications t). application_planted pg d (t_ID tr) a))"

lemma grows_sets:
  assumes "grows d d'"
  shows "set (tenants d) \<subseteq> set (tenants d')" "set (users d) \<subseteq> set (users d')" "set (user_roles d) \<subseteq> set (user_roles d')"
    "set (lots d) \<subseteq> set (lots d')" "set (campaigns d) \<subseteq> set (campaigns d')" "set (applications d) \<subseteq> set (applications d')"
  using assms by (simp_all add: grows_def set_mono_prefix)

lemma user_planted_grows: "user_planted kdf d tn u \<Longrightarrow> grows d d' \<Longrightarrow> user_planted kdf d' tn u"
  unfolding user_planted_def using grows_sets(2,3) by blast

lemma application_planted_grows:
  assumes "application_planted pg d tn a" "grows d d'"
  shows "application_planted pg d' tn a"
proof (cases "da_operatorEmail a = []")
  case True
  with assms grows_sets [OF assms(2)] show ?thesis unfolding application_planted_def by simp blast
next
  case False
  with assms grows_sets [OF assms(2)] show ?thesis unfolding application_planted_def by simp blast
qed

lemma planted_grows:
  assumes "planted pg kdf d t" "grows d d'"
  shows "planted pg kdf d' t"
proof -
  from assms(1) obtain tr where tr: "tr \<in> set (tenants d)" "t_Name tr = dt_name t"
    "\<forall>u \<in> set (dt_users t). user_planted kdf d (t_ID tr) u"
    "\<forall>n \<in> set (dt_lots t). \<exists>l \<in> set (lots d). l_TenantID l = t_ID tr \<and> l_Name l = n"
    "\<forall>c \<in> set (dt_campaigns t). \<exists>r \<in> set (campaigns d). c_TenantID r = t_ID tr \<and> c_Name r = dc_name c"
    "\<forall>a \<in> set (dt_applications t). application_planted pg d (t_ID tr) a" unfolding planted_def by blast
  then show ?thesis
    unfolding planted_def
    using grows_sets [OF assms(2)] user_planted_grows [OF _ assms(2)] application_planted_grows [OF _ assms(2)]
    by (intro bexI [of _ tr]) blast+
qed

section \<open>The loops\<close>

lemma Hash_live:
  assumes "seedable pg gen kdf txt" "w_entropy w = Some salt # es"
  shows "\<exists>h. PasswordHasher_Hash kdf world_rand p w = (Ok h, w\<lparr>w_entropy := es\<rparr>) \<and> pg_text pg h \<and> phc_verify kdf h p = Ok True"
proof -
  let ?salt = "take 16 (salt @ replicate 16 0)"
  from assms(1) obtain key where key: "kdf p ?salt 1 65536 4 32 = Ok key" "length key = 32"
    unfolding seedable_def by blast
  then have "PasswordHasher_Hash kdf world_rand p w = (Ok (phc_string ?salt key), w\<lparr>w_entropy := es\<rparr>)"
    using assms(2) by (simp add: PasswordHasher_Hash_def world_rand_def ArgonSaltLen_def ArgonTime_def ArgonMemory_def
        ArgonThreads_def ArgonKeyLen_def)
  moreover have "phc_verify kdf (phc_string ?salt key) p = Ok True"
    using key by (simp add: phc_verify_string ArgonTime_def ArgonMemory_def ArgonThreads_def)
  moreover have "pg_text pg (phc_string ?salt key)" using assms(1) by (simp add: seedable_def)
  ultimately show ?thesis by blast
qed

text \<open>The conditions the loops keep, and what the map of user ids says.\<close>

definition seeding :: "PG \<Rightarrow> string \<Rightarrow> console \<Rightarrow> bool" where
  "seeding pg tn s \<longleftrightarrow> w_faults (fst s) = [] \<and> seed_inv pg (console_db s) \<and> tn \<in> t_ID ` set (tenants (console_db s))"

definition user_ids :: "string \<Rightarrow> db \<Rightarrow> ids \<Rightarrow> bool" where
  "user_ids tn d m \<longleftrightarrow> (\<forall>k i. m k = Some i \<longrightarrow> (\<exists>u \<in> set (users d). u_ID u = i \<and> u_TenantID u = tn \<and> u_Email u = k))"

definition lot_ids :: "string \<Rightarrow> db \<Rightarrow> ids \<Rightarrow> bool" where
  "lot_ids tn d m \<longleftrightarrow> (\<forall>k i. m k = Some i \<longrightarrow> (\<exists>l \<in> set (lots d). l_ID l = i \<and> l_TenantID l = tn \<and> l_Name l = k))"

definition campaign_ids :: "string \<Rightarrow> db \<Rightarrow> ids \<Rightarrow> bool" where
  "campaign_ids tn d m \<longleftrightarrow> (\<forall>k i. m k = Some i \<longrightarrow> (\<exists>c \<in> set (campaigns d). c_ID c = i \<and> c_TenantID c = tn \<and> c_Name c = k))"

lemma ids_empty [simp]: "user_ids tn d Map.empty" "lot_ids tn d Map.empty" "campaign_ids tn d Map.empty"
  by (simp_all add: user_ids_def lot_ids_def campaign_ids_def)

lemma ids_grow:
  assumes "grows d d'"
  shows "user_ids tn d m \<Longrightarrow> user_ids tn d' m" "lot_ids tn d m \<Longrightarrow> lot_ids tn d' m" "campaign_ids tn d m \<Longrightarrow> campaign_ids tn d' m"
  unfolding user_ids_def lot_ids_def campaign_ids_def using grows_sets [OF assms] by blast+

lemma seeding_tenant: "seeding pg tn s \<Longrightarrow> pg_uuid pg tn = Some tn \<and> tn \<noteq> []"
  by (auto simp: seeding_def seed_inv_def)

text \<open>One account: hashed, inserted, given its role and noted in the map.\<close>

lemma seed_user_live:
  assumes "seedable pg gen kdf txt" "seeding pg tn s" "w_entropy (fst s) = Some salt # es"
    and "list_all (pg_text pg) [du_email u, du_fullName u, du_role u]" "IsValidRoleCode (du_role u)"
    and "du_email u \<notin> u_Email ` set (users (console_db s))"
  shows "\<exists>row s1. (\<forall>us m. seed_users pg gen kdf nm tn (u # us) m s = seed_users pg gen kdf nm tn us (m(du_email u \<mapsto> u_ID row)) s1) \<and>
    seeding pg tn s1 \<and> w_entropy (fst s1) = es \<and> grows (console_db s) (console_db s1) \<and>
    tenants (console_db s1) = tenants (console_db s) \<and> users (console_db s1) = users (console_db s) @ [row] \<and>
    u_TenantID row = tn \<and> u_Email row = du_email u \<and> user_planted kdf (console_db s1) tn u"
proof -
  obtain w out where s: "s = (w, out)" by fastforce
  from Hash_live [OF assms(1), of w] assms(3) s obtain h where
    h: "PasswordHasher_Hash kdf world_rand (du_pass u) w = (Ok h, w\<lparr>w_entropy := es\<rparr>)"
      "pg_text pg h" "phc_verify kdf h (du_pass u) = Ok True" by auto
  let ?d = "w_db w" and ?w1 = "w\<lparr>w_entropy := es\<rparr>"
  note tn = seeding_tenant [OF assms(2)] and fresh = seedable_fresh [OF assms(1), where d = "w_db w"]
  have pre: "w_faults w = []" "seed_inv pg ?d" "tn \<in> t_ID ` set (tenants ?d)" using assms(2) s by (simp_all add: seeding_def)
  have "\<exists>row. createUser pg gen tn (du_email u) h (du_fullName u) ?w1 =
      (Ok (gen (w_db ?w1)), ?w1\<lparr>w_db := (w_db ?w1)\<lparr>users := users (w_db ?w1) @ [row]\<rparr>\<rparr>) \<and>
    u_ID row = gen (w_db ?w1) \<and> u_TenantID row = tn \<and> u_Email row = du_email u \<and> u_PasswordHash row = h \<and>
    u_FullName row = du_fullName u \<and> u_IsActive row"
    by (rule createUser_live [OF _ assms(1)]) (use pre tn h(2) assms(4,6) s in auto)
  then obtain row where cu: "createUser pg gen tn (du_email u) h (du_fullName u) ?w1 =
      (Ok (u_ID row), ?w1\<lparr>w_db := ?d\<lparr>users := users ?d @ [row]\<rparr>\<rparr>)"
    and row: "u_ID row = gen ?d" "u_TenantID row = tn" "u_Email row = du_email u" "u_PasswordHash row = h"
      "u_FullName row = du_fullName u" "u_IsActive row" by auto
  let ?w2 = "?w1\<lparr>w_db := ?d\<lparr>users := users ?d @ [row]\<rparr>\<rparr>"
  define m0 where "m0 = \<lparr>ur_UserID = u_ID row, ur_RoleCode = du_role u, ur_TenantID = tn\<rparr>"
  have "gen ?d \<notin> ur_UserID ` set (user_roles ?d)" using fresh(5) pre(2) by (auto simp: seed_inv_def)
  then have "assignRole pg tn (u_ID row) (du_role u) ?w2 = (Ok (), ?w2\<lparr>w_db := (w_db ?w2)\<lparr>user_roles := user_roles (w_db ?w2) @
      [\<lparr>ur_UserID = u_ID row, ur_RoleCode = du_role u, ur_TenantID = tn\<rparr>]\<rparr>\<rparr>)"
    by (intro assignRole_live) (use pre tn row fresh assms(4,5) in auto)
  note ar = this [folded m0_def, simplified]
  define s1 where "s1 = (?w1\<lparr>w_db := ?d\<lparr>users := users ?d @ [row], user_roles := user_roles ?d @ [m0]\<rparr>\<rparr>,
    out @ [''tenant='' @ nm @ '' user='' @ du_email u @ '' password='' @ du_pass u @ '' role='' @ du_role u])"
  have "seed_users pg gen kdf nm tn (u # us) m s = seed_users pg gen kdf nm tn us (m(du_email u \<mapsto> u_ID row)) s1" for us m
    using h(1) cu ar by (simp add: s on_db_def Printf_def s1_def)
  moreover have "seeding pg tn s1" using pre row fresh assms(6) s by (auto simp: seeding_def seed_inv_def s1_def m0_def)
  moreover have "user_planted kdf (console_db s1) tn u"
    unfolding user_planted_def by (intro bexI [of _ row]) (use row h(3) in \<open>simp_all add: s1_def m0_def\<close>)
  ultimately show ?thesis using row by (intro exI [of _ row] exI [of _ s1]) (simp add: s1_def s grows_def)
qed

lemma seed_users_live:
  assumes "seedable pg gen kdf txt" "seeding pg tn s" "w_entropy (fst s) = map Some salts @ es" "length salts = length us"
    and "\<forall>u \<in> set us. list_all (pg_text pg) [du_email u, du_fullName u, du_role u] \<and> IsValidRoleCode (du_role u)"
    and "distinct (map du_email us)" "du_email ` set us \<inter> u_Email ` set (users (console_db s)) = {}"
    and "user_ids tn (console_db s) m"
  shows "\<exists>m' s'. seed_users pg gen kdf nm tn us m s = (Ok m', s') \<and> seeding pg tn s' \<and> w_entropy (fst s') = es \<and>
    grows (console_db s) (console_db s') \<and> tenants (console_db s') = tenants (console_db s) \<and>
    u_Email ` set (users (console_db s')) = u_Email ` set (users (console_db s)) \<union> du_email ` set us \<and>
    (\<forall>u \<in> set us. user_planted kdf (console_db s') tn u) \<and> user_ids tn (console_db s') m' \<and> dom m' = dom m \<union> du_email ` set us"
  using assms(2-)
proof (induction us arbitrary: s m salts)
  case Nil
  then show ?case by simp
next
  case (Cons u us)
  from Cons.prems(3) obtain salt salts' where salts: "salts = salt # salts'" by (cases salts) auto
  from seed_user_live [OF assms(1) Cons.prems(1), of salt "map Some salts' @ es" u nm] Cons.prems(2,4,6) salts
  obtain row s1 where step: "\<And>us m. seed_users pg gen kdf nm tn (u # us) m s = seed_users pg gen kdf nm tn us (m(du_email u \<mapsto> u_ID row)) s1"
    and s1: "seeding pg tn s1" "w_entropy (fst s1) = map Some salts' @ es" "grows (console_db s) (console_db s1)"
      "tenants (console_db s1) = tenants (console_db s)" "users (console_db s1) = users (console_db s) @ [row]"
      "u_TenantID row = tn" "u_Email row = du_email u" "user_planted kdf (console_db s1) tn u" by auto
  let ?m = "m(du_email u \<mapsto> u_ID row)"
  have "\<exists>m' s'. seed_users pg gen kdf nm tn us ?m s1 = (Ok m', s') \<and> seeding pg tn s' \<and> w_entropy (fst s') = es \<and>
    grows (console_db s1) (console_db s') \<and> tenants (console_db s') = tenants (console_db s1) \<and>
    u_Email ` set (users (console_db s')) = u_Email ` set (users (console_db s1)) \<union> du_email ` set us \<and>
    (\<forall>u \<in> set us. user_planted kdf (console_db s') tn u) \<and> user_ids tn (console_db s') m' \<and> dom m' = dom ?m \<union> du_email ` set us"
  proof (rule Cons.IH [OF s1(1,2)])
    show "du_email ` set us \<inter> u_Email ` set (users (console_db s1)) = {}" using Cons.prems(5,6) by (auto simp: s1(5,7))
    show "user_ids tn (console_db s1) ?m"
      using ids_grow(1) [OF s1(3) Cons.prems(7)] s1(6,7) by (auto simp: user_ids_def s1(5))
  qed (use Cons.prems(3,4,5) salts in auto)
  then obtain m' s' where r: "seed_users pg gen kdf nm tn us ?m s1 = (Ok m', s')" "seeding pg tn s'"
    "w_entropy (fst s') = es" "grows (console_db s1) (console_db s')" "tenants (console_db s') = tenants (console_db s1)"
    "u_Email ` set (users (console_db s')) = u_Email ` set (users (console_db s1)) \<union> du_email ` set us"
    "\<forall>u \<in> set us. user_planted kdf (console_db s') tn u" "user_ids tn (console_db s') m'"
    "dom m' = dom ?m \<union> du_email ` set us" by (elim exE conjE) (rule that)
  show ?case
    by (intro exI [of _ m'] exI [of _ s'])
      (use r(1-3,5-9) s1(4,5,7) step grows_trans [OF s1(3) r(4)] user_planted_grows [OF s1(8) r(4)] in auto)
qed

lemma seed_lots_live:
  assumes "seedable pg gen kdf txt" "seeding pg tn s" "list_all (pg_text pg) ns" "lot_ids tn (console_db s) m"
  shows "\<exists>m' s' ls. seed_lots pg gen tn ns m s = (Ok m', s') \<and> seeding pg tn s' \<and> w_entropy (fst s') = w_entropy (fst s) \<and>
    console_db s' = (console_db s)\<lparr>lots := lots (console_db s) @ ls\<rparr> \<and> lot_ids tn (console_db s') m' \<and> dom m' = dom m \<union> set ns"
  using assms(2-)
proof (induction ns arbitrary: s m)
  case Nil
  then show ?case by (intro exI [of _ m] exI [of _ s] exI [of _ "[]"]) simp
next
  case (Cons n ns)
  obtain w out where s: "s = (w, out)" by fastforce
  note tn = seeding_tenant [OF Cons.prems(1)]
  have "\<exists>ls l. createLot pg gen tn n w = (Ok (l_ID l), w\<lparr>w_db := (w_db w)\<lparr>lots := lots (w_db w) @ ls\<rparr>\<rparr>) \<and>
    (\<forall>x \<in> set ls. pg_uuid pg (l_ID x) = Some (l_ID x)) \<and> l \<in> set (lots (w_db w) @ ls) \<and> l_Name l = n \<and> l_TenantID l = tn"
    by (rule createLot_live [OF _ assms(1)]) (use Cons.prems(1,2) tn s in \<open>simp_all add: seeding_def\<close>)
  then obtain ls l where c: "createLot pg gen tn n w = (Ok (l_ID l), w\<lparr>w_db := (w_db w)\<lparr>lots := lots (w_db w) @ ls\<rparr>\<rparr>)"
    and l: "\<forall>x \<in> set ls. pg_uuid pg (l_ID x) = Some (l_ID x)" "l \<in> set (lots (w_db w) @ ls)" "l_Name l = n" "l_TenantID l = tn" by blast
  define s1 where "s1 = (w\<lparr>w_db := (w_db w)\<lparr>lots := lots (w_db w) @ ls\<rparr>\<rparr>, out)"
  have step: "seed_lots pg gen tn (n # ns) m s = seed_lots pg gen tn ns (m(n \<mapsto> l_ID l)) s1"
    using c by (simp add: s on_db_def s1_def)
  have s1: "seeding pg tn s1" using Cons.prems(1) l(1) s by (auto simp: seeding_def seed_inv_def s1_def)
  have g1: "grows (console_db s) (console_db s1)" by (simp add: s s1_def)
  have "lot_ids tn (console_db s1) (m(n \<mapsto> l_ID l))"
    using ids_grow(2) [OF g1 Cons.prems(3)] l by (auto simp: lot_ids_def s1_def)
  moreover have "list_all (pg_text pg) ns" using Cons.prems(2) by simp
  ultimately obtain m' s' ls' where r: "seed_lots pg gen tn ns (m(n \<mapsto> l_ID l)) s1 = (Ok m', s')"
    "seeding pg tn s'" "w_entropy (fst s') = w_entropy (fst s1)" "console_db s' = (console_db s1)\<lparr>lots := lots (console_db s1) @ ls'\<rparr>"
    "lot_ids tn (console_db s') m'" "dom m' = dom (m(n \<mapsto> l_ID l)) \<union> set ns" using Cons.IH [OF s1] by blast
  show ?case
  proof (intro exI conjI)
    show "seed_lots pg gen tn (n # ns) m s = (Ok m', s')" using step r(1) by simp
    show "w_entropy (fst s') = w_entropy (fst s)" unfolding r(3) by (simp add: s1_def s)
    show "console_db s' = (console_db s)\<lparr>lots := lots (console_db s) @ (ls @ ls')\<rparr>" unfolding r(4) by (simp add: s1_def s)
    show "dom m' = dom m \<union> set (n # ns)" unfolding r(6) by auto
  qed (rule r)+
qed

lemma seed_campaigns_live:
  assumes "seedable pg gen kdf txt" "seeding pg tn s" "campaign_ids tn (console_db s) m"
    and "\<forall>c \<in> set cs. list_all (pg_text pg) [dc_name c, dc_season c] \<and> Parse_Date (dc_start c) \<noteq> None \<and> Parse_Date (dc_end c) \<noteq> None"
  shows "\<exists>m' s' rs. seed_campaigns pg gen tn cs m s = (Ok m', s') \<and> seeding pg tn s' \<and> w_entropy (fst s') = w_entropy (fst s) \<and>
    console_db s' = (console_db s)\<lparr>campaigns := campaigns (console_db s) @ rs\<rparr> \<and> campaign_ids tn (console_db s') m' \<and>
    dom m' = dom m \<union> dc_name ` set cs"
  using assms(2-)
proof (induction cs arbitrary: s m)
  case Nil
  then show ?case by (intro exI [of _ m] exI [of _ s] exI [of _ "[]"]) simp
next
  case (Cons c cs)
  obtain w out where s: "s = (w, out)" by fastforce
  note tn = seeding_tenant [OF Cons.prems(1)]
  from Cons.prems(3) obtain st en where d: "Parse_Date (dc_start c) = Some st" "Parse_Date (dc_end c) = Some en" by auto
  have "\<exists>rs r. createCampaign pg gen tn (dc_name c) (dc_season c) st en w =
      (Ok (c_ID r), w\<lparr>w_db := (w_db w)\<lparr>campaigns := campaigns (w_db w) @ rs\<rparr>\<rparr>) \<and>
    (\<forall>x \<in> set rs. pg_uuid pg (c_ID x) = Some (c_ID x)) \<and> r \<in> set (campaigns (w_db w) @ rs) \<and> c_Name r = dc_name c \<and> c_TenantID r = tn"
    by (rule createCampaign_live [OF _ assms(1)]) (use Cons.prems(1,3) tn s in \<open>simp_all add: seeding_def\<close>)
  then obtain rs r0 where cr: "createCampaign pg gen tn (dc_name c) (dc_season c) st en w =
      (Ok (c_ID r0), w\<lparr>w_db := (w_db w)\<lparr>campaigns := campaigns (w_db w) @ rs\<rparr>\<rparr>)"
    and l: "\<forall>x \<in> set rs. pg_uuid pg (c_ID x) = Some (c_ID x)" "r0 \<in> set (campaigns (w_db w) @ rs)" "c_Name r0 = dc_name c" "c_TenantID r0 = tn"
    by blast
  define s1 where "s1 = (w\<lparr>w_db := (w_db w)\<lparr>campaigns := campaigns (w_db w) @ rs\<rparr>\<rparr>, out)"
  have step: "seed_campaigns pg gen tn (c # cs) m s = seed_campaigns pg gen tn cs (m(dc_name c \<mapsto> c_ID r0)) s1"
    using cr d by (simp add: s on_db_def s1_def parsed_def)
  have s1: "seeding pg tn s1" using Cons.prems(1) l(1) s by (auto simp: seeding_def seed_inv_def s1_def)
  have g1: "grows (console_db s) (console_db s1)" by (simp add: s s1_def)
  have "campaign_ids tn (console_db s1) (m(dc_name c \<mapsto> c_ID r0))"
    using ids_grow(3) [OF g1 Cons.prems(2)] l by (auto simp: campaign_ids_def s1_def)
  moreover have "\<forall>c \<in> set cs. list_all (pg_text pg) [dc_name c, dc_season c] \<and> Parse_Date (dc_start c) \<noteq> None \<and> Parse_Date (dc_end c) \<noteq> None"
    using Cons.prems(3) by simp
  ultimately obtain m' s' rs' where r: "seed_campaigns pg gen tn cs (m(dc_name c \<mapsto> c_ID r0)) s1 = (Ok m', s')"
    "seeding pg tn s'" "w_entropy (fst s') = w_entropy (fst s1)"
    "console_db s' = (console_db s1)\<lparr>campaigns := campaigns (console_db s1) @ rs'\<rparr>"
    "campaign_ids tn (console_db s') m'" "dom m' = dom (m(dc_name c \<mapsto> c_ID r0)) \<union> dc_name ` set cs"
    using Cons.IH [OF s1] by blast
  show ?case
  proof (intro exI conjI)
    show "seed_campaigns pg gen tn (c # cs) m s = (Ok m', s')" using step r(1) by simp
    show "w_entropy (fst s') = w_entropy (fst s)" unfolding r(3) by (simp add: s1_def s)
    show "console_db s' = (console_db s)\<lparr>campaigns := campaigns (console_db s) @ (rs @ rs')\<rparr>" unfolding r(4) by (simp add: s1_def s)
    show "dom m' = dom m \<union> dc_name ` set (c # cs)" unfolding r(6) by auto
  qed (rule r)+
qed

text \<open>One application, whose lot, campaign and operator the maps know.\<close>

lemma operator_known:
  assumes "user_ids tn d ui" "em = [] \<or> em \<in> dom ui" "[] \<notin> dom ui"
  shows "if em = [] then id_at ui em = [] else \<exists>u \<in> set (users d). u_ID u = id_at ui em \<and> u_TenantID u = tn \<and> u_Email u = em"
  using assms by (auto simp: user_ids_def id_at_def split: option.split)

lemma seed_application_live:
  assumes "seedable pg gen kdf txt" "seeding pg tn s"
    and ids: "lot_ids tn (console_db s) li" "campaign_ids tn (console_db s) ci" "user_ids tn (console_db s) ui"
    and ok: "list_all (pg_text pg) [da_product a, da_dose a, da_notes a]" "da_lotName a \<in> dom li" "da_campaignName a \<in> dom ci"
      "da_operatorEmail a = [] \<or> da_operatorEmail a \<in> dom ui" "Parse_RFC3339 (da_appliedAt a) \<noteq> None" "[] \<notin> dom ui"
  shows "\<exists>s1 rs. (\<forall>as. seed_applications pg gen tn li ci ui (a # as) s = seed_applications pg gen tn li ci ui as s1) \<and>
    seeding pg tn s1 \<and> w_entropy (fst s1) = w_entropy (fst s) \<and>
    console_db s1 = (console_db s)\<lparr>applications := applications (console_db s) @ rs\<rparr> \<and> application_planted pg (console_db s1) tn a"
proof -
  obtain w out where s: "s = (w, out)" by fastforce
  let ?op = "id_at ui (da_operatorEmail a)"
  note tn = seeding_tenant [OF assms(2)] and op = operator_known [OF ids(3) ok(4,6)]
  from ok obtain l c ap where m: "li (da_lotName a) = Some l" "ci (da_campaignName a) = Some c"
    "Parse_RFC3339 (da_appliedAt a) = Some ap" by auto
  with ids(1,2) s obtain lr cr where lr: "lr \<in> set (lots (w_db w))" "l_ID lr = l" "l_TenantID lr = tn" "l_Name lr = da_lotName a"
    and cr: "cr \<in> set (campaigns (w_db w))" "c_ID cr = c" "c_TenantID cr = tn" "c_Name cr = da_campaignName a"
    unfolding lot_ids_def campaign_ids_def by fastforce
  have inv: "seed_inv pg (w_db w)" using assms(2) s by (simp add: seeding_def)
  have op': "?op = [] \<or> ?op \<in> u_ID ` set (users (w_db w)) \<and> pg_uuid pg ?op = Some ?op"
    using inv op s unfolding seed_inv_def by (metis fst_conv image_eqI)
  have "\<exists>rs r. createApplication pg gen tn l c (da_product a) (da_dose a) ap ?op (da_notes a) w =
      (Ok (), w\<lparr>w_db := (w_db w)\<lparr>applications := applications (w_db w) @ rs\<rparr>\<rparr>) \<and>
    r \<in> set (applications (w_db w) @ rs) \<and> a_TenantID r = tn \<and> a_LotID r = l \<and> a_CampaignID r = c \<and>
    a_ProductName r = da_product a \<and> a_AppliedAt r = pg_ts pg ap \<and> a_OperatorID r = ?op"
  proof (rule createApplication_live [OF _ assms(1)])
    show "pg_uuid pg l = Some l" "pg_uuid pg c = Some c" using inv lr(1,2) cr(1,2) by (auto simp: seed_inv_def)
  qed (use assms(2) ok(1) tn s op' in \<open>simp_all add: seeding_def\<close>)
  then obtain rs r where ca: "createApplication pg gen tn l c (da_product a) (da_dose a) ap ?op (da_notes a) w =
      (Ok (), w\<lparr>w_db := (w_db w)\<lparr>applications := applications (w_db w) @ rs\<rparr>\<rparr>)"
    and r: "r \<in> set (applications (w_db w) @ rs)" "a_TenantID r = tn" "a_LotID r = l" "a_CampaignID r = c"
      "a_ProductName r = da_product a" "a_AppliedAt r = pg_ts pg ap" "a_OperatorID r = ?op" by blast
  let ?s1 = "(w\<lparr>w_db := (w_db w)\<lparr>applications := applications (w_db w) @ rs\<rparr>\<rparr>, out)"
  have "seed_applications pg gen tn li ci ui (a # as) s = seed_applications pg gen tn li ci ui as ?s1" for as
    using ca m by (simp add: s on_db_def parsed_def id_at_def [of li] id_at_def [of ci])
  moreover have "seeding pg tn ?s1" using assms(2) s by (auto simp: seeding_def seed_inv_def)
  moreover have "application_planted pg (console_db ?s1) tn a"
    unfolding application_planted_def
    by (intro bexI [of _ r] bexI [of _ lr] bexI [of _ cr]) (use r lr cr m op s in \<open>auto split: if_splits\<close>)
  ultimately show ?thesis by (intro exI [of _ ?s1] exI [of _ rs]) (simp add: s)
qed

lemma seed_applications_live:
  assumes "seedable pg gen kdf txt" "seeding pg tn s"
    and "lot_ids tn (console_db s) li" "campaign_ids tn (console_db s) ci" "user_ids tn (console_db s) ui"
    and "\<forall>a \<in> set as. list_all (pg_text pg) [da_product a, da_dose a, da_notes a] \<and> da_lotName a \<in> dom li \<and> da_campaignName a \<in> dom ci \<and>
       (da_operatorEmail a = [] \<or> da_operatorEmail a \<in> dom ui) \<and> Parse_RFC3339 (da_appliedAt a) \<noteq> None" "[] \<notin> dom ui"
  shows "\<exists>s' rs. seed_applications pg gen tn li ci ui as s = (Ok (), s') \<and> seeding pg tn s' \<and> w_entropy (fst s') = w_entropy (fst s) \<and>
    console_db s' = (console_db s)\<lparr>applications := applications (console_db s) @ rs\<rparr> \<and>
    (\<forall>a \<in> set as. application_planted pg (console_db s') tn a)"
  using assms(2-)
proof (induction as arbitrary: s)
  case Nil
  then show ?case by (intro exI [of _ s] exI [of _ "[]"]) simp
next
  case (Cons a as)
  have "\<exists>s1 rs. (\<forall>as. seed_applications pg gen tn li ci ui (a # as) s = seed_applications pg gen tn li ci ui as s1) \<and>
    seeding pg tn s1 \<and> w_entropy (fst s1) = w_entropy (fst s) \<and>
    console_db s1 = (console_db s)\<lparr>applications := applications (console_db s) @ rs\<rparr> \<and> application_planted pg (console_db s1) tn a"
    by (rule seed_application_live [OF assms(1) Cons.prems(1-4)]) (use Cons.prems(5,6) in simp_all)
  then obtain s1 rs where
    step: "\<And>as. seed_applications pg gen tn li ci ui (a # as) s = seed_applications pg gen tn li ci ui as s1"
    and s1: "seeding pg tn s1" "w_entropy (fst s1) = w_entropy (fst s)"
      "console_db s1 = (console_db s)\<lparr>applications := applications (console_db s) @ rs\<rparr>"
      "application_planted pg (console_db s1) tn a" by blast
  have g1: "grows (console_db s) (console_db s1)" by (simp add: s1(3))
  have "\<forall>a \<in> set as. list_all (pg_text pg) [da_product a, da_dose a, da_notes a] \<and> da_lotName a \<in> dom li \<and> da_campaignName a \<in> dom ci \<and>
       (da_operatorEmail a = [] \<or> da_operatorEmail a \<in> dom ui) \<and> Parse_RFC3339 (da_appliedAt a) \<noteq> None"
    using Cons.prems(5) by simp
  from Cons.IH [OF s1(1) ids_grow(2) [OF g1 Cons.prems(2)] ids_grow(3) [OF g1 Cons.prems(3)] ids_grow(1) [OF g1 Cons.prems(4)] this Cons.prems(6)]
  obtain s' rs' where q: "seed_applications pg gen tn li ci ui as s1 = (Ok (), s')"
    "seeding pg tn s'" "w_entropy (fst s') = w_entropy (fst s1)"
    "console_db s' = (console_db s1)\<lparr>applications := applications (console_db s1) @ rs'\<rparr>"
    "\<forall>a \<in> set as. application_planted pg (console_db s') tn a" by (elim exE conjE) (rule that)
  have "grows (console_db s1) (console_db s')" unfolding q(4) by simp
  note pl' = application_planted_grows [OF s1(4) this]
  show ?case
    by (intro exI [of _ s'] exI [of _ "rs @ rs'"]) (use q s1(2,3) pl' in \<open>simp add: step del: seed_applications.simps\<close>)
qed

section \<open>The whole command\<close>

lemma planted_by_maps:
  assumes "tr \<in> set (tenants d)" "t_Name tr = dt_name t" "\<forall>u \<in> set (dt_users t). user_planted kdf d (t_ID tr) u"
    and "lot_ids (t_ID tr) d li" "set (dt_lots t) \<subseteq> dom li"
    and "campaign_ids (t_ID tr) d ci" "dc_name ` set (dt_campaigns t) \<subseteq> dom ci"
    and "\<forall>a \<in> set (dt_applications t). application_planted pg d (t_ID tr) a"
  shows "planted pg kdf d t"
proof -
  have "\<exists>l \<in> set (lots d). l_TenantID l = t_ID tr \<and> l_Name l = n" if n: "n \<in> set (dt_lots t)" for n
    using assms(4,5) n by (force simp: lot_ids_def)
  moreover have "\<exists>r \<in> set (campaigns d). c_TenantID r = t_ID tr \<and> c_Name r = dc_name c" if c: "c \<in> set (dt_campaigns t)" for c
  proof -
    from assms(7) c obtain i where "ci (dc_name c) = Some i" by blast
    with assms(6) show ?thesis by (auto simp: campaign_ids_def)
  qed
  ultimately show ?thesis using assms unfolding planted_def by (intro bexI [of _ tr]) blast+
qed

lemma seed_tenant_live:
  assumes "seedable pg gen kdf txt" "w_faults (fst s) = []" "seed_inv pg (console_db s)" "tenant_consistent t"
    and "list_all (pg_text pg) (tenant_texts t)" "dt_name t \<notin> t_Name ` set (tenants (console_db s))"
    and "distinct (map du_email (dt_users t))" "[] \<notin> du_email ` set (dt_users t)"
    and "du_email ` set (dt_users t) \<inter> u_Email ` set (users (console_db s)) = {}"
    and "w_entropy (fst s) = map Some salts @ es" "length salts = length (dt_users t)"
  shows "\<exists>s'. seed_tenant pg gen kdf t s = (Ok (), s') \<and> w_faults (fst s') = [] \<and> seed_inv pg (console_db s') \<and>
    w_entropy (fst s') = es \<and> grows (console_db s) (console_db s') \<and> planted pg kdf (console_db s') t \<and>
    t_Name ` set (tenants (console_db s')) = insert (dt_name t) (t_Name ` set (tenants (console_db s))) \<and>
    u_Email ` set (users (console_db s')) = u_Email ` set (users (console_db s)) \<union> du_email ` set (dt_users t)"
proof -
  obtain w out where s: "s = (w, out)" by fastforce
  let ?d = "w_db w" and ?tn = "gen (w_db w)"
  have tx: "pg_text pg (dt_name t)" "list_all (pg_text pg) (dt_lots t)"
    "\<forall>u \<in> set (dt_users t). list_all (pg_text pg) [du_email u, du_fullName u, du_role u] \<and> IsValidRoleCode (du_role u)"
    "\<forall>c \<in> set (dt_campaigns t). list_all (pg_text pg) [dc_name c, dc_season c] \<and> Parse_Date (dc_start c) \<noteq> None \<and> Parse_Date (dc_end c) \<noteq> None"
    "\<forall>a \<in> set (dt_applications t). list_all (pg_text pg) [da_product a, da_dose a, da_notes a]"
    using assms(4,5) unfolding tenant_texts_def tenant_consistent_def by (auto simp: list_all_iff)
  from createTenant_live [OF _ assms(1) tx(1), of w] assms(2,6) s obtain row where
    ct: "createTenant pg gen (dt_name t) w = (Ok ?tn, w\<lparr>w_db := ?d\<lparr>tenants := tenants ?d @ [row]\<rparr>\<rparr>)"
    and row: "t_ID row = ?tn" "t_Name row = dt_name t" by auto
  define s1 where "s1 = (w\<lparr>w_db := ?d\<lparr>tenants := tenants ?d @ [row]\<rparr>\<rparr>, out)"
  have s1: "seeding pg ?tn s1"
    using assms(2,3) s row seedable_fresh(4,6) [OF assms(1), of ?d] by (auto simp: seeding_def seed_inv_def s1_def)
  have "w_entropy (fst s1) = map Some salts @ es" "du_email ` set (dt_users t) \<inter> u_Email ` set (users (console_db s1)) = {}"
    using assms(9,10) by (simp_all add: s1_def s)
  from seed_users_live [OF assms(1) s1 this(1) assms(11) tx(3) assms(7) this(2) ids_empty(1), of "dt_name t"] obtain ui s2 where
    us: "seed_users pg gen kdf (dt_name t) ?tn (dt_users t) Map.empty s1 = (Ok ui, s2)"
    and s2: "seeding pg ?tn s2" "w_entropy (fst s2) = es" "grows (console_db s1) (console_db s2)" "tenants (console_db s2) = tenants (console_db s1)"
      "u_Email ` set (users (console_db s2)) = u_Email ` set (users (console_db s1)) \<union> du_email ` set (dt_users t)"
      "\<forall>u \<in> set (dt_users t). user_planted kdf (console_db s2) ?tn u" "user_ids ?tn (console_db s2) ui"
      "dom ui = dom (Map.empty :: ids) \<union> du_email ` set (dt_users t)" by (elim exE conjE) (rule that)
  from seed_lots_live [OF assms(1) s2(1) tx(2) ids_empty(2)] obtain li s3 ls where
    lo: "seed_lots pg gen ?tn (dt_lots t) Map.empty s2 = (Ok li, s3)"
    and s3: "seeding pg ?tn s3" "w_entropy (fst s3) = w_entropy (fst s2)"
      "console_db s3 = (console_db s2)\<lparr>lots := lots (console_db s2) @ ls\<rparr>" "lot_ids ?tn (console_db s3) li"
      "dom li = dom (Map.empty :: ids) \<union> set (dt_lots t)" by (elim exE conjE) (rule that)
  from seed_campaigns_live [OF assms(1) s3(1) ids_empty(3) tx(4)] obtain ci s4 cs where
    ca: "seed_campaigns pg gen ?tn (dt_campaigns t) Map.empty s3 = (Ok ci, s4)"
    and s4: "seeding pg ?tn s4" "w_entropy (fst s4) = w_entropy (fst s3)"
      "console_db s4 = (console_db s3)\<lparr>campaigns := campaigns (console_db s3) @ cs\<rparr>" "campaign_ids ?tn (console_db s4) ci"
      "dom ci = dom (Map.empty :: ids) \<union> dc_name ` set (dt_campaigns t)" by (elim exE conjE) (rule that)
  have g: "grows (console_db s1) (console_db s2)" "grows (console_db s2) (console_db s4)" "grows (console_db s3) (console_db s4)"
    using s2(3) s3(3) s4(3) by (simp_all add: grows_def)
  have "\<forall>a \<in> set (dt_applications t). list_all (pg_text pg) [da_product a, da_dose a, da_notes a] \<and> da_lotName a \<in> dom li \<and>
       da_campaignName a \<in> dom ci \<and> (da_operatorEmail a = [] \<or> da_operatorEmail a \<in> dom ui) \<and> Parse_RFC3339 (da_appliedAt a) \<noteq> None"
    using assms(4) tx(5) s2(8) s3(5) s4(5) by (auto simp: tenant_consistent_def list_all_iff)
  moreover have "[] \<notin> dom ui" using s2(8) assms(8) by simp
  ultimately obtain s5 rs where ap: "seed_applications pg gen ?tn li ci ui (dt_applications t) s4 = (Ok (), s5)"
    and s5: "seeding pg ?tn s5" "w_entropy (fst s5) = w_entropy (fst s4)"
      "console_db s5 = (console_db s4)\<lparr>applications := applications (console_db s4) @ rs\<rparr>"
      "\<forall>a \<in> set (dt_applications t). application_planted pg (console_db s5) ?tn a"
    using seed_applications_live [OF assms(1) s4(1) ids_grow(2) [OF g(3) s3(4)] s4(4) ids_grow(1) [OF g(2) s2(7)]] by blast
  have g5: "grows (console_db s2) (console_db s5)" by (rule grows_trans [OF g(2)]) (simp add: s5(3))
  define s' where "s' = (fst s5, snd s5 @ [''tenant='' @ dt_name t @ '' id='' @ ?tn])"
  have sn: "seed_tenant pg gen kdf t s = (Ok (), s')"
    using ct us lo ca ap by (simp add: seed_tenant_def s on_db_def s1_def [symmetric] Printf_def s'_def)
  have nms: "tenants (console_db s') = tenants ?d @ [row]" by (simp add: s'_def s5(3) s4(3) s3(3) s2(4) s1_def)
  have "planted pg kdf (console_db s') t"
    using row s2(6) user_planted_grows [OF _ g5] s3(4) s4(4) s5(4) s3(5) s4(5) nms
    by (intro planted_by_maps [of row _ _ _ li ci]) (auto simp: s'_def s5(3) s4(3) lot_ids_def campaign_ids_def)
  moreover have "w_faults (fst s') = []" "seed_inv pg (console_db s')" using s5(1) by (simp_all add: seeding_def s'_def)
  moreover have "w_entropy (fst s') = es" by (simp add: s'_def s5(2) s4(2) s3(2) s2(2))
  moreover have "grows (console_db s) (console_db s')"
    using grows_trans [OF _ grows_trans [OF s2(3) g5], of "console_db s"] by (simp add: s1_def s s'_def)
  moreover have "t_Name ` set (tenants (console_db s')) = insert (dt_name t) (t_Name ` set (tenants (console_db s)))"
    unfolding nms by (simp add: row s)
  moreover have "u_Email ` set (users (console_db s')) = u_Email ` set (users (console_db s)) \<union> du_email ` set (dt_users t)"
    using s2(5) by (simp add: s'_def s5(3) s4(3) s3(3) s1_def s)
  ultimately show ?thesis using sn by blast
qed

lemma seed_plan_live:
  assumes "seedable pg gen kdf txt" "w_faults (fst s) = []" "seed_inv pg (console_db s)" "list_all tenant_consistent plan"
    and "\<forall>t \<in> set plan. list_all (pg_text pg) (tenant_texts t) \<and> [] \<notin> du_email ` set (dt_users t)"
    and "distinct (map dt_name plan)" "dt_name ` set plan \<inter> t_Name ` set (tenants (console_db s)) = {}"
    and "distinct (concat (map (\<lambda>t. map du_email (dt_users t)) plan))"
    and "(\<Union>t \<in> set plan. du_email ` set (dt_users t)) \<inter> u_Email ` set (users (console_db s)) = {}"
    and "w_entropy (fst s) = map Some salts @ es" "length salts = sum_list (map (\<lambda>t. length (dt_users t)) plan)"
  shows "\<exists>s'. seed_plan pg gen kdf plan s = (Ok (), s') \<and> seed_inv pg (console_db s') \<and> grows (console_db s) (console_db s') \<and>
    (\<forall>t \<in> set plan. planted pg kdf (console_db s') t)"
  using assms(2-)
proof (induction plan arbitrary: s salts)
  case Nil
  then show ?case by (simp add: Printf_def)
next
  case (Cons t plan)
  define n where "n = length (dt_users t)"
  have salts: "map Some salts @ es = map Some (take n salts) @ (map Some (drop n salts) @ es)" "length (take n salts) = length (dt_users t)"
    using Cons.prems(10) by (simp_all add: n_def flip: map_append)
  have "\<exists>s'. seed_tenant pg gen kdf t s = (Ok (), s') \<and> w_faults (fst s') = [] \<and> seed_inv pg (console_db s') \<and>
    w_entropy (fst s') = map Some (drop n salts) @ es \<and> grows (console_db s) (console_db s') \<and> planted pg kdf (console_db s') t \<and>
    t_Name ` set (tenants (console_db s')) = insert (dt_name t) (t_Name ` set (tenants (console_db s))) \<and>
    u_Email ` set (users (console_db s')) = u_Email ` set (users (console_db s)) \<union> du_email ` set (dt_users t)"
    by (rule seed_tenant_live [OF assms(1) Cons.prems(1,2) _ _ _ _ _ _ _ salts(2)])
      (use Cons.prems(3-9) salts(1) in auto)
  then obtain s1 where s1: "seed_tenant pg gen kdf t s = (Ok (), s1)" "w_faults (fst s1) = []" "seed_inv pg (console_db s1)"
    "w_entropy (fst s1) = map Some (drop n salts) @ es" "grows (console_db s) (console_db s1)" "planted pg kdf (console_db s1) t"
    "t_Name ` set (tenants (console_db s1)) = insert (dt_name t) (t_Name ` set (tenants (console_db s)))"
    "u_Email ` set (users (console_db s1)) = u_Email ` set (users (console_db s)) \<union> du_email ` set (dt_users t)" by (elim exE conjE) (rule that)
  have "\<exists>s'. seed_plan pg gen kdf plan s1 = (Ok (), s') \<and> seed_inv pg (console_db s') \<and> grows (console_db s1) (console_db s') \<and>
    (\<forall>t \<in> set plan. planted pg kdf (console_db s') t)"
  proof (rule Cons.IH [OF s1(2,3) _ _ _ _ _ _ s1(4)])
    show "dt_name ` set plan \<inter> t_Name ` set (tenants (console_db s1)) = {}" using Cons.prems(5,6) by (auto simp: s1(7))
    show "(\<Union>t \<in> set plan. du_email ` set (dt_users t)) \<inter> u_Email ` set (users (console_db s1)) = {}"
    proof -
      have "du_email ` set (dt_users t) \<inter> (\<Union>t \<in> set plan. du_email ` set (dt_users t)) = {}" using Cons.prems(7) by auto
      moreover have "(\<Union>t \<in> set plan. du_email ` set (dt_users t)) \<inter> u_Email ` set (users (console_db s)) = {}"
        using Cons.prems(8) by auto
      ultimately show ?thesis unfolding s1(8) by blast
    qed
    show "length (drop n salts) = sum_list (map (\<lambda>t. length (dt_users t)) plan)" using Cons.prems(10) by (simp add: n_def)
  qed (use Cons.prems(3,4,5,7) in auto)
  then obtain s' where s': "seed_plan pg gen kdf plan s1 = (Ok (), s')" "seed_inv pg (console_db s')" "grows (console_db s1) (console_db s')"
    "\<forall>t \<in> set plan. planted pg kdf (console_db s') t" by (elim exE conjE) (rule that)
  from planted_grows [OF s1(6) s'(3)] grows_trans [OF s1(5) s'(3)] s' s1(1) show ?case by auto
qed

text \<open>A database in which no tenant, no account and no membership exists.\<close>

definition plan_texts :: "string list" where
  "plan_texts = concat (map tenant_texts demoPlan)"

definition unseeded :: "PG \<Rightarrow> db \<Rightarrow> bool" where
  "unseeded pg d \<longleftrightarrow> tenants d = [] \<and> users d = [] \<and> user_roles d = [] \<and>
     (\<forall>l \<in> set (lots d). pg_uuid pg (l_ID l) = Some (l_ID l)) \<and> (\<forall>c \<in> set (campaigns d). pg_uuid pg (c_ID c) = Some (c_ID c))"

lemma demoPlan_users: "\<forall>t \<in> set demoPlan. [] \<notin> du_email ` set (dt_users t)"
  "sum_list (map (\<lambda>t. length (dt_users t)) demoPlan) = 10"
  by (simp_all add: demoPlan_def)

lemma seed_once:
  assumes "seedable pg gen kdf plan_texts" "w_faults w = []" "unseeded pg (w_db w)" "w_entropy w = map Some salts @ es" "length salts = 10"
    and "dsn \<noteq> []" "connect dsn = None"
  shows "\<exists>s'. seed_run pg gen kdf connect dsn (w, out) = (Ok (), s') \<and> seed_inv pg (console_db s') \<and> grows (w_db w) (console_db s') \<and>
    (\<forall>t \<in> set demoPlan. planted pg kdf (console_db s') t)"
proof -
  have "list_all (pg_text pg) plan_texts" using assms(1) by (simp add: seedable_def)
  then have "\<forall>t \<in> set demoPlan. list_all (pg_text pg) (tenant_texts t)" by (auto simp: plan_texts_def list_all_iff)
  with seed_plan_live [OF assms(1), of "(w, out)" demoPlan salts es] demoPlan_consistent demoPlan_users assms(2-)
  show ?thesis by (auto simp: seed_run_def plan_consistent_def seed_inv_def unseeded_def)
qed

end
