(* ===== verification/Session_Runs.thy ===== *)
theory Session_Runs
  imports Wiring
begin

text \<open>
  Runs of the authentication service on a database without faults, for the statements that it does
  answer: each store operation with its effect, a replay that is answered \<open>ErrUnauthorized\<close>, and the
  rotation of a live token (\<open>Refresh_live\<close>) under the conditions collected in \<open>refreshable\<close>.
\<close>

section \<open>Calls on a database without faults\<close>

lemma ids_canonical_business [simp]: "ids_canonical pg (business w) \<longleftrightarrow> ids_canonical pg (w_db w)"
  by (simp add: ids_canonical_def)

lemma FindByHash_clean:
  assumes "w_faults w = []" "r \<in> set (refresh_tokens (w_db w))" "distinct (map rr_TokenHash (refresh_tokens (w_db w)))"
    and "pg_text pg (rr_TokenHash r)"
  shows "RefreshTokenStore_FindByHash pg (rr_TokenHash r) w = (Ok r, w)"
proof -
  have "filter (\<lambda>t. rr_TokenHash t = rr_TokenHash r) (refresh_tokens (w_db w)) = [r]"
    by (rule filter_unique [OF assms(2,3)]) simp_all
  with assms(1,4) show ?thesis
    by (simp add: RefreshTokenStore_FindByHash_def pg_query_clean first_row_def check_def rowR_Ok_eq)
qed

lemma ListByUser_clean:
  assumes "w_faults w = []" "canonical_id pg t" "t \<noteq> []" "canonical_id pg u"
  shows "\<exists>ms. UserRoleRepo_ListByUser pg t u w = (Ok ms, w)"
  using assms
  by (simp add: UserRoleRepo_ListByUser_def WithTenant_clean rls_query_def rls_exec_def pg_exec_clean
      roundtrip_clean current_tenant_id_def canonical_id_def uuid_param_def)

lemma resolveRole_clean:
  assumes "w_faults w = []" "canonical_id pg t" "t \<noteq> []" "canonical_id pg u"
  shows "resolveRole (NewUserRoleRepo pg) t u w = (Ok (strongest (privileges (held_codes pg (w_db w) t u))), w)"
proof -
  from ListByUser_clean [OF assms] obtain ms where l: "UserRoleRepo_ListByUser pg t u w = (Ok ms, w)" by blast
  then have r: "resolveRole (NewUserRoleRepo pg) t u w = (Ok (first_held rolePrecedence (set (map ur_RoleCode ms))), w)"
    by (simp add: resolveRole_def NewUserRoleRepo_def)
  with roles_pg.resolve_strongest [OF r] show ?thesis by simp
qed

lemma Revoke_clean:
  assumes "w_faults w = []" "canonical_id pg i" "canonical_id pg j"
  shows "RefreshTokenStore_Revoke pg i j w = (Ok (), w\<lparr>w_db := (w_db w)\<lparr>refresh_tokens :=
    revoked_one i j (Unix (pg_ts pg (w_clock w))) (refresh_tokens (w_db w))\<rparr>\<rparr>)"
  using assms by (simp add: RefreshTokenStore_Revoke_def pg_exec_clean canonical_id_def uuid_param_def revoked_one_def)

lemma RevokeFamily_clean:
  assumes "w_faults w = []" "canonical_id pg f"
  shows "RefreshTokenStore_RevokeFamily pg f w = (Ok (), w\<lparr>w_db := (w_db w)\<lparr>refresh_tokens :=
    revoked_family f (Unix (pg_ts pg (w_clock w))) (refresh_tokens (w_db w))\<rparr>\<rparr>)"
  using assms by (simp add: RefreshTokenStore_RevokeFamily_def pg_exec_clean canonical_id_def uuid_param_def
      revoked_family_def live_def)

lemma Store_clean:
  assumes "w_faults w = []" "pg_text pg (rr_TokenHash t)"
    and "canonical_id pg (rr_ID t)" "canonical_id pg (rr_UserID t)" "canonical_id pg (rr_TenantID t)" "canonical_id pg (rr_FamilyID t)"
    and "rr_ID t \<notin> rr_ID ` set (refresh_tokens (w_db w))" "rr_TokenHash t \<notin> rr_TokenHash ` set (refresh_tokens (w_db w))"
    and "rr_UserID t \<in> u_ID ` set (users (w_db w))" "rr_TenantID t \<in> t_ID ` set (tenants (w_db w))"
    and "rr_RevokedAt t = None" "rr_ReplacedBy t = []"
  shows "RefreshTokenStore_Store pg t w = (Ok (), w\<lparr>w_db := (w_db w)\<lparr>refresh_tokens := refresh_tokens (w_db w) @ [t]\<rparr>\<rparr>)"
  using assms by (simp add: RefreshTokenStore_Store_def pg_exec_clean token_insert_def canonical_id_def uuid_param_def
      insert_stmt_def check_def)

lemma NewRefreshToken_clean:
  assumes "w_entropy w = Some raw # Some b1 # Some b2 # es" "length raw = 32" "length b1 = 16" "length b2 = 16"
  shows "\<exists>rt. NewRefreshToken world_rand world_now ttl w = (Ok rt, w\<lparr>w_entropy := es\<rparr>) \<and>
    rt_Plain rt = b64_EncodeToString alpha_url raw \<and> rt_Hash rt = HashToken (b64_EncodeToString alpha_url raw) \<and>
    rt_ID rt = uuid_string (uuid_bits b1) \<and> rt_FamilyID rt = uuid_string (uuid_bits b2)"
  using assms by (simp add: NewRefreshToken_def world_rand_def world_now_def newUUIDish_def Let_def)

lemma EmitSignal_api: "\<exists>s'. EmitSignal (Some (api_signals l)) sg an t a r s = (Ok (), s')"
  using api_sink.EmitSignal_fail_open [of l sg an t a r s] by (metis prod.collapse)

section \<open>Refresh without faults\<close>

lemma replay_clean:
  assumes "w_faults w = []" "canonical_id (lib_pg l) (rr_FamilyID r)"
  shows "fst (refresh_replay (api_auth l secret) ctx r w) = Err ErrUnauthorized"
proof -
  note f = RevokeFamily_clean [OF assms]
  obtain w2 where "EmitSignal (Some (api_signals l)) SignalRefreshReplay False (rr_TenantID r) (rr_UserID r)
      (FromRequestID ctx) (snd (RefreshTokenStore_RevokeFamily (lib_pg l) (rr_FamilyID r) w)) = (Ok (), w2)"
    using EmitSignal_api by blast
  with f show ?thesis by (simp add: refresh_replay_def api_auth_def NewRefreshTokenStore_def)
qed

text \<open>A live, unexpired token whose user and tenant exist is rotated, given entropy, a fresh identifier
  and hash, and a library that signs the claims.\<close>

definition refreshable :: "libs \<Rightarrow> string \<Rightarrow> RefreshTokenRecord \<Rightarrow> byte list \<Rightarrow> byte list \<Rightarrow> string \<Rightarrow> world \<Rightarrow> bool" where
  "refreshable l secret r raw b1 access w \<longleftrightarrow> w_faults w = [] \<and>
     ids_canonical (lib_pg l) (w_db w) \<and> single_live (refresh_tokens (w_db w)) \<and>
     r \<in> set (refresh_tokens (w_db w)) \<and> live r \<and> Unix (w_clock w) < rr_ExpiresAt r \<and>
     rr_UserID r \<in> u_ID ` set (users (w_db w)) \<and> rr_TenantID r \<in> t_ID ` set (tenants (w_db w)) \<and> rr_TenantID r \<noteq> [] \<and>
     list_all (pg_text (lib_pg l)) [rr_TokenHash r, HashToken (b64_EncodeToString alpha_url raw)] \<and>
     (\<exists>b2 es. w_entropy w = Some raw # Some b1 # Some b2 # es \<and> length raw = 32 \<and> length b1 = 16 \<and> length b2 = 16) \<and>
     uuid_string (uuid_bits b1) \<notin> rr_ID ` set (refresh_tokens (w_db w)) \<and>
     HashToken (b64_EncodeToString alpha_url raw) \<notin> rr_TokenHash ` set (refresh_tokens (w_db w)) \<and>
     jwt_sign (lib_jwt l) HS256 secret (claims_map
       \<lparr>tc_UserID = rr_UserID r, tc_TenantID = rr_TenantID r,
        tc_Role = strongest (privileges (held_codes (lib_pg l) (w_db w) (rr_TenantID r) (rr_UserID r)))\<rparr>
       (w_clock w) accessTokenTTL) = Ok access"

lemma live_tokens_hash: "rr_TokenHash ` set (revoked_one i j n ts) = rr_TokenHash ` set ts" "rr_ID ` set (revoked_one i j n ts) = rr_ID ` set ts"
  by (metis list.set_map revoked_one_ids)+

lemma Refresh_live:
  assumes "refreshable l secret r raw b1 access w" "rr_TokenHash r = HashToken p" "p \<noteq> []"
  shows "\<exists>w'. AuthService_Refresh (api_auth l secret) ctx p w =
    (Ok \<lparr>as_AccessToken = access, as_RefreshToken = b64_EncodeToString alpha_url raw, as_ExpiresIn = 900,
        as_UserID = rr_UserID r, as_TenantID = rr_TenantID r, as_Role = []\<rparr>, w')"
proof -
  let ?pg = "lib_pg l" and ?svc = "api_auth l secret"
  from assms(1) obtain b2 es where h: "w_faults w = []" "ids_canonical ?pg (w_db w)" "single_live (refresh_tokens (w_db w))"
     "r \<in> set (refresh_tokens (w_db w))" "live r" "Unix (w_clock w) < rr_ExpiresAt r"
     "rr_UserID r \<in> u_ID ` set (users (w_db w))" "rr_TenantID r \<in> t_ID ` set (tenants (w_db w))" "rr_TenantID r \<noteq> []"
     "pg_text ?pg (rr_TokenHash r)" "pg_text ?pg (HashToken (b64_EncodeToString alpha_url raw))"
     "w_entropy w = Some raw # Some b1 # Some b2 # es" "length raw = 32" "length b1 = 16" "length b2 = 16"
     "uuid_string (uuid_bits b1) \<notin> rr_ID ` set (refresh_tokens (w_db w))"
     "HashToken (b64_EncodeToString alpha_url raw) \<notin> rr_TokenHash ` set (refresh_tokens (w_db w))"
     "jwt_sign (lib_jwt l) HS256 secret (claims_map
       \<lparr>tc_UserID = rr_UserID r, tc_TenantID = rr_TenantID r,
        tc_Role = strongest (privileges (held_codes ?pg (w_db w) (rr_TenantID r) (rr_UserID r)))\<rparr>
       (w_clock w) accessTokenTTL) = Ok access"
    by (auto simp: refreshable_def)
  have ids: "canonical_id ?pg (rr_ID r)" "canonical_id ?pg (rr_UserID r)" "canonical_id ?pg (rr_TenantID r)"
    "canonical_id ?pg (rr_FamilyID r)" "canonical_id ?pg (uuid_string (uuid_bits b1))"
    using h(2,4) uuid_string_v4 [OF h(14)] by (auto simp: ids_canonical_def)
  have "distinct (map rr_TokenHash (refresh_tokens (w_db w)))" using h(3) by (simp add: single_live_def)
  note find = FindByHash_clean [OF h(1,4) this h(10), unfolded assms(2)]
  note role = resolveRole_clean [OF h(1) ids(3) h(9) ids(2)]
  obtain rt where rt: "NewRefreshToken world_rand world_now refreshTokenTTL w = (Ok rt, w\<lparr>w_entropy := es\<rparr>)"
    "rt_Plain rt = b64_EncodeToString alpha_url raw" "rt_Hash rt = HashToken (b64_EncodeToString alpha_url raw)"
    "rt_ID rt = uuid_string (uuid_bits b1)"
    using NewRefreshToken_clean [OF h(12-15)] by blast
  define w1 where "w1 = w\<lparr>w_entropy := es\<rparr>"
  define w2 where "w2 = w1\<lparr>w_db := (w_db w1)\<lparr>refresh_tokens :=
      revoked_one (rr_ID r) (rt_ID rt) (Unix (pg_ts ?pg (w_clock w1))) (refresh_tokens (w_db w1))\<rparr>\<rparr>"
  have rv: "RefreshTokenStore_Revoke ?pg (rr_ID r) (rt_ID rt) w1 = (Ok (), w2)"
    unfolding w2_def by (rule Revoke_clean) (simp_all add: w1_def h(1) ids rt(4))
  define t where "t = token_record rt (rr_UserID r) (rr_TenantID r) (rr_FamilyID r)"
  obtain w3 where st: "RefreshTokenStore_Store ?pg t w2 = (Ok (), w3)" and w3: "w_clock w3 = w_clock w"
  proof
    show "RefreshTokenStore_Store ?pg t w2 = (Ok (), w2\<lparr>w_db := (w_db w2)\<lparr>refresh_tokens := refresh_tokens (w_db w2) @ [t]\<rparr>\<rparr>)"
      by (rule Store_clean)
        (use h in \<open>simp_all add: w2_def w1_def t_def token_record_def rt ids live_tokens_hash\<close>)
  qed (simp add: w2_def w1_def)
  have iss: "TokenManager_Issue (lib_jwt l) \<lparr>jm_secret = secret, jm_ttl = accessTokenTTL, jm_now = world_now\<rparr>
      \<lparr>tc_UserID = rr_UserID r, tc_TenantID = rr_TenantID r,
        tc_Role = strongest (privileges (held_codes ?pg (w_db w) (rr_TenantID r) (rr_UserID r)))\<rparr> w3 = (Ok access, w3)"
    using h(18) w3 by (simp add: TokenManager_Issue_def world_now_def)
  obtain w4 where em: "EmitSignal (Some (api_signals l)) SignalRefreshSuccess False (rr_TenantID r) (rr_UserID r)
      (FromRequestID ctx) w3 = (Ok (), w4)" using EmitSignal_api by blast
  have "DecideRotation (rr_RevokedAt r \<noteq> None) (rr_ReplacedBy r) (rr_ExpiresAt r) (Unix (w_clock w)) = RotationAllow"
    using h(5,6) by (simp add: DecideRotation_def live_def)
  moreover have "whole_seconds accessTokenTTL = 900"
    by (simp add: whole_seconds_def accessTokenTTL_def Minute_def Second_def quot_def)
  ultimately show ?thesis
    using find role rt(1,2) rv st iss em assms(3)
    by (simp add: AuthService_Refresh_def api_auth_def NewRefreshTokenStore_def world_now_def refresh_rotate_def
        refresh_swap_def refresh_issue_def t_def w1_def api_tokenManager_def jwt_manager_def session_of_def)
qed

section \<open>Login without faults\<close>

lemma FindByEmail_clean:
  assumes "w_faults w = []" "u \<in> set (users (w_db w))" "distinct (map u_Email (users (w_db w)))"
    and "canonical_id pg (u_TenantID u)" "u_TenantID u \<noteq> []" "pg_text pg (u_Email u)"
  shows "UserRepo_FindByEmail pg (u_TenantID u) (u_Email u) w = (Ok u, w)"
proof -
  have "filter (\<lambda>r. u_Email r = u_Email u) (visible u_TenantID (Some (u_TenantID u)) (users (w_db w))) = [u]"
    unfolding visible_def filter_filter by (rule filter_unique [OF assms(2,3)]) (simp_all add: policy_def)
  with assms show ?thesis
    by (simp add: UserRepo_FindByEmail_def WithTenant_clean rls_query_def rls_exec_def pg_exec_clean
        roundtrip_clean current_tenant_id_def canonical_id_def first_row_def check_def rowR_Ok_eq)
qed

text \<open>The same for a login: the user is active, the password verifies, emails are unique.\<close>

definition may_login :: "libs \<Rightarrow> string \<Rightarrow> User \<Rightarrow> string \<Rightarrow> byte list \<Rightarrow> byte list \<Rightarrow> string \<Rightarrow> world \<Rightarrow> bool" where
  "may_login l secret u password raw b1 access w \<longleftrightarrow> w_faults w = [] \<and>
     ids_canonical (lib_pg l) (w_db w) \<and>
     u \<in> set (users (w_db w)) \<and> distinct (map u_Email (users (w_db w))) \<and>
     u_IsActive u \<and> phc_verify (lib_kdf l) (u_PasswordHash u) password = Ok True \<and>
     u_TenantID u \<in> t_ID ` set (tenants (w_db w)) \<and> u_TenantID u \<noteq> [] \<and> u_Email u \<noteq> [] \<and> password \<noteq> [] \<and>
     list_all (pg_text (lib_pg l)) [u_Email u, HashToken (b64_EncodeToString alpha_url raw)] \<and>
     (\<exists>b2 es. w_entropy w = Some raw # Some b1 # Some b2 # es \<and> length raw = 32 \<and> length b1 = 16 \<and> length b2 = 16) \<and>
     uuid_string (uuid_bits b1) \<notin> rr_ID ` set (refresh_tokens (w_db w)) \<and>
     HashToken (b64_EncodeToString alpha_url raw) \<notin> rr_TokenHash ` set (refresh_tokens (w_db w)) \<and>
     jwt_sign (lib_jwt l) HS256 secret (claims_map
       \<lparr>tc_UserID = u_ID u, tc_TenantID = u_TenantID u,
        tc_Role = strongest (privileges (held_codes (lib_pg l) (w_db w) (u_TenantID u) (u_ID u)))\<rparr>
       (w_clock w) accessTokenTTL) = Ok access"

lemma Login_live:
  assumes "may_login l secret u password raw b1 access w"
  shows "\<exists>w'. AuthService_Login (api_auth l secret) (u_TenantID u) (u_Email u) password w =
    (Ok \<lparr>as_AccessToken = access, as_RefreshToken = b64_EncodeToString alpha_url raw, as_ExpiresIn = 900,
        as_UserID = u_ID u, as_TenantID = u_TenantID u, as_Role = []\<rparr>, w')"
proof -
  let ?pg = "lib_pg l"
  from assms(1) obtain b2 es where h: "w_faults w = []" "ids_canonical ?pg (w_db w)"
     "u \<in> set (users (w_db w))" "distinct (map u_Email (users (w_db w)))"
     "u_IsActive u" "phc_verify (lib_kdf l) (u_PasswordHash u) password = Ok True"
     "u_TenantID u \<in> t_ID ` set (tenants (w_db w))" "u_TenantID u \<noteq> []" "u_Email u \<noteq> []" "password \<noteq> []"
     "pg_text ?pg (u_Email u)" "pg_text ?pg (HashToken (b64_EncodeToString alpha_url raw))"
     "w_entropy w = Some raw # Some b1 # Some b2 # es" "length raw = 32" "length b1 = 16" "length b2 = 16"
     "uuid_string (uuid_bits b1) \<notin> rr_ID ` set (refresh_tokens (w_db w))"
     "HashToken (b64_EncodeToString alpha_url raw) \<notin> rr_TokenHash ` set (refresh_tokens (w_db w))"
     "jwt_sign (lib_jwt l) HS256 secret (claims_map
       \<lparr>tc_UserID = u_ID u, tc_TenantID = u_TenantID u,
        tc_Role = strongest (privileges (held_codes ?pg (w_db w) (u_TenantID u) (u_ID u)))\<rparr>
       (w_clock w) accessTokenTTL) = Ok access"
    by (auto simp: may_login_def)
  have ids: "canonical_id ?pg (u_ID u)" "canonical_id ?pg (u_TenantID u)"
    "canonical_id ?pg (uuid_string (uuid_bits b1))" "canonical_id ?pg (uuid_string (uuid_bits b2))"
    using h(2,3) uuid_string_v4 [OF h(15)] uuid_string_v4 [OF h(16)] by (auto simp: ids_canonical_def)
  note find = FindByEmail_clean [OF h(1,3,4) ids(2) h(8,11)]
  note role = resolveRole_clean [OF h(1) ids(2) h(8) ids(1)]
  have iss: "TokenManager_Issue (lib_jwt l) \<lparr>jm_secret = secret, jm_ttl = accessTokenTTL, jm_now = world_now\<rparr>
      \<lparr>tc_UserID = u_ID u, tc_TenantID = u_TenantID u,
        tc_Role = strongest (privileges (held_codes ?pg (w_db w) (u_TenantID u) (u_ID u)))\<rparr> w = (Ok access, w)"
    using h(19) by (simp add: TokenManager_Issue_def world_now_def)
  obtain rt where rt: "NewRefreshToken world_rand world_now refreshTokenTTL w = (Ok rt, w\<lparr>w_entropy := es\<rparr>)"
    "rt_Plain rt = b64_EncodeToString alpha_url raw" "rt_Hash rt = HashToken (b64_EncodeToString alpha_url raw)"
    "rt_ID rt = uuid_string (uuid_bits b1)" "rt_FamilyID rt = uuid_string (uuid_bits b2)"
    using NewRefreshToken_clean [OF h(13-16)] by blast
  define w1 where "w1 = w\<lparr>w_entropy := es\<rparr>"
  define t where "t = token_record rt (u_ID u) (u_TenantID u) (rt_FamilyID rt)"
  have st: "RefreshTokenStore_Store ?pg t w1 = (Ok (), w1\<lparr>w_db := (w_db w1)\<lparr>refresh_tokens := refresh_tokens (w_db w1) @ [t]\<rparr>\<rparr>)"
    by (rule Store_clean) (use h in \<open>simp_all add: w1_def t_def token_record_def rt ids\<close>)
  obtain w2 where em: "EmitSignal (Some (api_signals l)) SignalLoginSuccess False (u_TenantID u) (u_ID u) []
      (w1\<lparr>w_db := (w_db w1)\<lparr>refresh_tokens := refresh_tokens (w_db w1) @ [t]\<rparr>\<rparr>) = (Ok (), w2)" using EmitSignal_api by blast
  have "whole_seconds accessTokenTTL = 900"
    by (simp add: whole_seconds_def accessTokenTTL_def Minute_def Second_def quot_def)
  with find h role iss rt(1,2) st em show ?thesis
    by (simp add: AuthService_Login_def api_auth_def NewUserRepo_def NewPasswordHasher_def PasswordHasher_Verify_def
        login_issue_def login_store_def t_def w1_def NewRefreshTokenStore_def api_tokenManager_def jwt_manager_def session_of_def)
qed

section \<open>Two rotations of one token\<close>

text \<open>The two statements of a rotation. Run for a record that was read before another rotation of it, they
  leave two live tokens in the family.\<close>

definition rotate_statements :: "PG \<Rightarrow> RefreshTokenRecord \<Rightarrow> RefreshTokenRecord \<Rightarrow> world \<Rightarrow> unit res \<times> world" where
  "rotate_statements pg r t w = bindR (RefreshTokenStore_Revoke pg (rr_ID r) (rr_ID t) w) (\<lambda>_. RefreshTokenStore_Store pg t)"

definition successor :: "PG \<Rightarrow> RefreshTokenRecord \<Rightarrow> RefreshTokenRecord \<Rightarrow> bool" where
  "successor pg r t \<longleftrightarrow> pg_text pg (rr_TokenHash t) \<and> canonical_id pg (rr_ID t) \<and> rr_UserID t = rr_UserID r \<and>
     rr_TenantID t = rr_TenantID r \<and> rr_FamilyID t = rr_FamilyID r \<and> live t \<and> rr_ReplacedBy t = []"

lemma rotate_clean:
  assumes "w_faults w = []" "successor pg r t" "canonical_id pg (rr_ID r)" "canonical_id pg (rr_UserID r)"
    and "canonical_id pg (rr_TenantID r)" "canonical_id pg (rr_FamilyID r)"
    and "rr_UserID r \<in> u_ID ` set (users (w_db w))" "rr_TenantID r \<in> t_ID ` set (tenants (w_db w))"
    and "rr_ID t \<notin> rr_ID ` set (refresh_tokens (w_db w))" "rr_TokenHash t \<notin> rr_TokenHash ` set (refresh_tokens (w_db w))"
  shows "rotate_statements pg r t w = (Ok (), w\<lparr>w_db := (w_db w)\<lparr>refresh_tokens :=
    revoked_one (rr_ID r) (rr_ID t) (Unix (pg_ts pg (w_clock w))) (refresh_tokens (w_db w)) @ [t]\<rparr>\<rparr>)"
proof -
  let ?w = "w\<lparr>w_db := (w_db w)\<lparr>refresh_tokens := revoked_one (rr_ID r) (rr_ID t) (Unix (pg_ts pg (w_clock w))) (refresh_tokens (w_db w))\<rparr>\<rparr>"
  have "RefreshTokenStore_Revoke pg (rr_ID r) (rr_ID t) w = (Ok (), ?w)"
    using assms(1-3) by (intro Revoke_clean) (simp_all add: successor_def)
  moreover have "RefreshTokenStore_Store pg t ?w = (Ok (), ?w\<lparr>w_db := (w_db ?w)\<lparr>refresh_tokens := refresh_tokens (w_db ?w) @ [t]\<rparr>\<rparr>)"
    by (rule Store_clean) (use assms in \<open>simp_all add: successor_def live_tokens_hash live_def\<close>)
  ultimately show ?thesis by (simp add: rotate_statements_def)
qed

lemma stale_rotation_forks:
  assumes "w_faults w = []" "ids_canonical pg (w_db w)" "successor pg r t1" "successor pg r t2" "r \<in> set (refresh_tokens (w_db w))"
    and "rr_UserID r \<in> u_ID ` set (users (w_db w))" "rr_TenantID r \<in> t_ID ` set (tenants (w_db w))"
    and "rr_ID t1 \<notin> rr_ID ` set (refresh_tokens (w_db w))" "rr_TokenHash t1 \<notin> rr_TokenHash ` set (refresh_tokens (w_db w))"
    and "rr_ID t2 \<notin> insert (rr_ID t1) (rr_ID ` set (refresh_tokens (w_db w)))"
    and "rr_TokenHash t2 \<notin> insert (rr_TokenHash t1) (rr_TokenHash ` set (refresh_tokens (w_db w)))"
  shows "\<exists>w1 w2. rotate_statements pg r t1 w = (Ok (), w1) \<and> rotate_statements pg r t2 w1 = (Ok (), w2) \<and>
    \<not> single_live (refresh_tokens (w_db w2))"
proof -
  have ids: "canonical_id pg (rr_ID r)" "canonical_id pg (rr_UserID r)" "canonical_id pg (rr_TenantID r)" "canonical_id pg (rr_FamilyID r)"
    using assms(2,5) by (auto simp: ids_canonical_def)
  let ?n = "Unix (pg_ts pg (w_clock w))"
  define w1 where "w1 = w\<lparr>w_db := (w_db w)\<lparr>refresh_tokens := revoked_one (rr_ID r) (rr_ID t1) ?n (refresh_tokens (w_db w)) @ [t1]\<rparr>\<rparr>"
  have 1: "rotate_statements pg r t1 w = (Ok (), w1)"
    unfolding w1_def using assms ids by (intro rotate_clean) simp_all
  define w2 where "w2 = w1\<lparr>w_db := (w_db w1)\<lparr>refresh_tokens := revoked_one (rr_ID r) (rr_ID t2) ?n (refresh_tokens (w_db w1)) @ [t2]\<rparr>\<rparr>"
  have 2: "rotate_statements pg r t2 w1 = (Ok (), w2)"
  proof -
    have "w_clock w1 = w_clock w" by (simp add: w1_def)
    then show ?thesis unfolding w2_def
      using rotate_clean [of w1 pg r t2] assms(1,4,6-) ids by (simp add: w1_def live_tokens_hash)
  qed
  have ne: "rr_ID t1 \<noteq> rr_ID r" "t1 \<noteq> t2" using assms(5,8,10) by auto
  then have "t1 \<in> set (refresh_tokens (w_db w2))" "t2 \<in> set (refresh_tokens (w_db w2))"
    by (simp_all add: w2_def w1_def revoked_one_def)
  then have "\<not> single_live (refresh_tokens (w_db w2))"
    using assms(3,4) ne(2) unfolding single_live_def successor_def by metis
  with 1 2 show ?thesis by blast
qed

end
