(* ===== verification/Seed_Login.thy ===== *)
theory Seed_Login
  imports Seed_Live Session_Runs
begin

text \<open>
  The demo accounts work: in a database that holds the plan, each account of it logs in at the API's own
  authentication service with the password of the plan (\<open>seeded_login\<close>).
\<close>

lemma seeded_login:
  assumes "planted (lib_pg l) (lib_kdf l) (w_db w) t" "u \<in> set (dt_users t)" "du_email u \<noteq> []" "du_pass u \<noteq> []"
    and "seed_inv (lib_pg l) (w_db w)" "w_faults w = []" "refresh_tokens (w_db w) = []"
    and "\<forall>i. uuid_v4_text i \<longrightarrow> canonical_id (lib_pg l) i" "list_all (pg_text (lib_pg l)) [du_email u, HashToken (b64_EncodeToString alpha_url raw)]"
    and "\<forall>cs. \<exists>tok. jwt_sign (lib_jwt l) HS256 secret cs = Ok tok"
    and "w_entropy w = Some raw # Some b1 # Some b2 # es" "length raw = 32" "length b1 = 16" "length b2 = 16"
  shows "\<exists>r access w'. r \<in> set (users (w_db w)) \<and> u_Email r = du_email u \<and>
    AuthService_Login (api_auth l secret) (u_TenantID r) (du_email u) (du_pass u) w =
      (Ok \<lparr>as_AccessToken = access, as_RefreshToken = b64_EncodeToString alpha_url raw, as_ExpiresIn = 900,
          as_UserID = u_ID r, as_TenantID = u_TenantID r, as_Role = []\<rparr>, w')"
proof -
  from assms(1,2) obtain tr r where r: "tr \<in> set (tenants (w_db w))" "r \<in> set (users (w_db w))" "u_Email r = du_email u"
    "u_TenantID r = t_ID tr" "u_IsActive r" "phc_verify (lib_kdf l) (u_PasswordHash r) (du_pass u) = Ok True"
    unfolding planted_def user_planted_def by blast
  have ids: "ids_canonical (lib_pg l) (w_db w)"
    using assms(5,7,8) unfolding ids_canonical_def seed_inv_def canonical_id_def by fastforce
  from assms(10) obtain access where sign: "jwt_sign (lib_jwt l) HS256 secret (claims_map
       \<lparr>tc_UserID = u_ID r, tc_TenantID = u_TenantID r,
        tc_Role = strongest (privileges (held_codes (lib_pg l) (w_db w) (u_TenantID r) (u_ID r)))\<rparr>
       (w_clock w) accessTokenTTL) = Ok access" by blast
  have "may_login l secret r (du_pass u) raw b1 access w"
    unfolding may_login_def using r ids sign assms by (auto simp: seed_inv_def)
  from Login_live [OF this] r show ?thesis by metis
qed

end
