(* ===== verification/Demo.thy ===== *)
theory Demo
  imports Audit_Race Api_Budget Lifetime Farm_Maps Sha_Vectors Seed_Login
begin

text \<open>
  Instances the properties are applied to: a PostgreSQL that accepts every non-empty text as an
  identifier or a document and keeps microseconds, a JSON codec that is the identity, and a database
  with two tenants of one active user each. The
  libraries are concrete functions that satisfy the laws the properties assume of them, so the
  witnesses run the modelled code from end to end.
\<close>

section \<open>Database and world\<close>

definition demo_pg :: PG where
  "demo_pg = \<lparr>pg_uuid = (\<lambda>s. if s = [] then None else Some s), pg_jsonb = (\<lambda>s. if s = [] then None else Some s),
     pg_ts = (\<lambda>t. Truncate t Microsecond), pg_date = (\<lambda>t. t), pg_numeric = Some, pg_le = (\<lambda>a b. True),
     pg_text = (\<lambda>s. True)\<rparr>"

definition demo_json :: json_norm where
  "demo_json = Inr"

definition demo_tenant :: "string \<Rightarrow> Tenant" where
  "demo_tenant i = \<lparr>t_ID = i, t_Name = i, t_CreatedAt = 0, t_UpdatedAt = 0\<rparr>"

definition demo_user :: "string \<Rightarrow> string \<Rightarrow> User" where
  "demo_user i t = \<lparr>u_ID = i, u_TenantID = t, u_Email = i @ ''@a.b'', u_PasswordHash = ''x'', u_FullName = i,
     u_IsActive = True, u_Role = [], u_CreatedAt = 0, u_UpdatedAt = 0\<rparr>"

definition demo_db :: db where
  "demo_db = \<lparr>tenants = [demo_tenant ''t1'', demo_tenant ''t2''], users = [demo_user ''u1'' ''t1'', demo_user ''u2'' ''t2''],
     user_roles = [\<lparr>ur_UserID = ''u1'', ur_RoleCode = RoleHauler, ur_TenantID = ''t1''\<rparr>,
                   \<lparr>ur_UserID = ''u1'', ur_RoleCode = RoleAdmin, ur_TenantID = ''t1''\<rparr>],
     lots = [], campaigns = [], applications = [], audit_log = [], audit_serial = 1, refresh_tokens = []\<rparr>"

definition demo_world :: world where
  "demo_world = \<lparr>w_db = demo_db, w_clock = 0, w_entropy = [], w_log = [], w_faults = [],
     w_limiter = NewRateLimiter False []\<rparr>"

lemma demo_laws: "pg_laws demo_json demo_pg"
  by (auto simp: pg_laws_def demo_pg_def demo_json_def split: if_splits)

lemma demo_tenant_ids [simp]: "canonical_tenant demo_pg ''t1''" "canonical_tenant demo_pg ''t2''"
  by (simp_all add: canonical_tenant_def demo_pg_def)

lemma demo_trail: "trail (w_db demo_world) t = []"
  by (simp add: trail_def demo_world_def demo_db_def)

section \<open>Libraries\<close>

definition demo_kdf :: argon2_IDKey where
  "demo_kdf pw salt t m p n = Ok (take (unat n) (map of_char pw @ replicate (unat n) 0))"

definition demo_claims :: TokenClaims where
  "demo_claims = \<lparr>tc_UserID = ''u1'', tc_TenantID = ''t1'', tc_Role = ''admin''\<rparr>"

text \<open>A token library that signs one set of claims; its tokens name the key they were signed with.\<close>

definition demo_header :: "string \<Rightarrow> signing_method" where
  "demo_header t = (if has_prefix t ''hs.'' then HS256 else OtherMethod ''none'')"

definition demo_jwt :: JWT where
  "demo_jwt = \<lparr>jwt_sign = (\<lambda>alg key cs. if alg = HS256 \<and> cs = claims_map demo_claims 0 accessTokenTTL
       then Ok (''hs.'' @ key) else Err (ErrText ''sign'')),
     jwt_Parse = (\<lambda>t kf now. bind1 (kf (demo_header t)) (\<lambda>key.
       if t = ''hs.'' @ key \<and> now < accessTokenTTL then Ok (Some (claims_map demo_claims 0 accessTokenTTL), True)
       else Err (ErrText ''parse'')))\<rparr>"

definition demo_libs :: libs where
  "demo_libs = \<lparr>lib_pg = demo_pg, lib_json = demo_json, lib_kdf = demo_kdf, lib_jwt = demo_jwt\<rparr>"

lemma demo_kdf_length: "demo_kdf pw salt t m p n = Ok key \<Longrightarrow> length key = unat n"
  by (auto simp: demo_kdf_def)

lemma demo_jwt_laws: "jwt_laws demo_jwt demo_header"
proof -
  have "has_prefix (''hs.'' @ key) ''hs.''" for key by (simp add: has_prefix_def)
  moreover have "x = 900" if "map_of (claims_map demo_claims 0 accessTokenTTL) ''exp'' = Some (CNumber x)" for x
    using that by (simp add: claims_map_def accessTokenTTL_def Add_def Unix_def Minute_def Second_def)
  moreover have "accessTokenTTL = 900 * Second" by (simp add: accessTokenTTL_def Minute_def Second_def)
  ultimately show ?thesis
    by (auto simp: jwt_laws_def demo_jwt_def demo_header_def split: if_splits)
qed

lemma demo_ids: "ids_canonical demo_pg d \<longleftrightarrow>
  (\<forall>t \<in> set (refresh_tokens d). rr_ID t \<noteq> [] \<and> rr_UserID t \<noteq> [] \<and> rr_TenantID t \<noteq> [] \<and> rr_FamilyID t \<noteq> []) \<and>
  (\<forall>u \<in> set (users d). u_ID u \<noteq> [] \<and> u_TenantID u \<noteq> [])"
  by (auto simp: ids_canonical_def canonical_id_def demo_pg_def uuid_v4_text_def)

section \<open>Sessions\<close>

text \<open>A live token of the first user, presented as \<open>abc\<close>, and the entropy of one
  rotation: the successor is the text of thirty-two zero bytes, whose digest differs.\<close>

definition demo_token :: RefreshTokenRecord where
  "demo_token = \<lparr>rr_ID = ''r1'', rr_UserID = ''u1'', rr_TenantID = ''t1'', rr_FamilyID = ''f1'',
     rr_TokenHash = HashToken ''abc'', rr_ExpiresAt = 100, rr_RevokedAt = None, rr_ReplacedBy = []\<rparr>"

definition demo_session :: world where
  "demo_session = demo_world\<lparr>w_db := demo_db\<lparr>refresh_tokens := [demo_token]\<rparr>,
     w_entropy := [Some (replicate 32 0), Some (replicate 16 0), Some (replicate 16 0)]\<rparr>"

lemma demo_session_ok:
  "ids_canonical demo_pg (w_db demo_session)" "single_live (refresh_tokens (w_db demo_session))"
  by (auto simp: demo_session_def demo_ids demo_token_def demo_db_def demo_user_def single_live_def)

lemma demo_session_sel [simp]:
  "w_db demo_session = demo_db\<lparr>refresh_tokens := [demo_token]\<rparr>" "w_faults demo_session = []" "w_clock demo_session = 0"
  "w_entropy demo_session = [Some (replicate 32 0), Some (replicate 16 0), Some (replicate 16 0)]"
  by (simp_all add: demo_session_def demo_world_def)

lemma demo_db_ids: "u_ID ` set (users demo_db) = {''u1'', ''u2''}" "t_ID ` set (tenants demo_db) = {''t1'', ''t2''}"
  by (auto simp: demo_db_def demo_user_def demo_tenant_def)

lemma demo_held: "held_codes demo_pg (demo_db\<lparr>refresh_tokens := ts\<rparr>) ''t1'' ''u1'' = {RoleHauler, RoleAdmin}"
  by (force simp: held_codes_def demo_db_def current_tenant_id_def demo_pg_def)

lemma demo_admin: "strongest (privileges {RoleHauler, RoleAdmin}) = RoleAdmin"
  by (simp add: first_held_strongest [symmetric] rolePrecedence_def)

lemma demo_libs_sel [simp]: "lib_pg demo_libs = demo_pg" "lib_json demo_libs = demo_json" "lib_kdf demo_libs = demo_kdf"
  "lib_jwt demo_libs = demo_jwt" "pg_text demo_pg x"
  by (simp_all add: demo_libs_def demo_pg_def)

lemma demo_sign: "jwt_sign demo_jwt HS256 key (claims_map demo_claims 0 accessTokenTTL) = Ok (''hs.'' @ key)"
  by (simp add: demo_jwt_def)

lemma demo_fresh_hash: "HashToken (b64_EncodeToString alpha_url (replicate 32 0)) \<noteq> HashToken ''abc''"
proof -
  have "b64_EncodeToString alpha_url (replicate 32 0) = ''AAAAAAAAAAAAAAAAAAAAAAAAAAAAAAAAAAAAAAAAAAA''"
    by (simp add: b64_EncodeToString_def replicate_numeral alpha_url_def)
  then show ?thesis by (simp add: HashToken_inject Sum256_abc Sum256_zeros)
qed

lemma demo_refreshable: "refreshable demo_libs ''key'' demo_token (replicate 32 0) (replicate 16 0) ''hs.key'' demo_session"
proof -
  have u: "uuid_string (uuid_bits (replicate 16 0)) \<noteq> ''r1''"
    using uuid_string_v4 [of "replicate 16 0"] by (auto simp: uuid_v4_text_def)
  show ?thesis
    using demo_session_ok u demo_fresh_hash demo_sign [of "''key''"]
    by (simp add: refreshable_def demo_token_def live_def Unix_def demo_db_ids demo_held demo_admin demo_claims_def)
qed

text \<open>A world in which the first user may log in with the password \<open>pw\<close>.\<close>

definition demo_member :: User where
  "demo_member = (demo_user ''u1'' ''t1'')\<lparr>u_PasswordHash :=
     phc_string (replicate 16 0) (take 32 (map of_char ''pw'' @ replicate 32 0))\<rparr>"

definition demo_login :: world where
  "demo_login = demo_session\<lparr>w_db := demo_db\<lparr>users := [demo_member, demo_user ''u2'' ''t2'']\<rparr>\<rparr>"

lemma demo_password: "phc_verify demo_kdf (u_PasswordHash demo_member) pw = Ok (take 32 (map of_char pw @ replicate 32 0) =
    take 32 (map of_char ''pw'' @ replicate 32 (0 :: byte)))"
  by (simp add: demo_member_def phc_verify_string demo_kdf_def)

lemma demo_login_ok: "ids_canonical demo_pg (w_db demo_login)"
  by (simp add: demo_login_def demo_ids demo_db_def demo_member_def demo_user_def)

lemma demo_may_login: "may_login demo_libs ''key'' demo_member ''pw'' (replicate 32 0) (replicate 16 0) ''hs.key'' demo_login"
proof -
  have "held_codes demo_pg (demo_db\<lparr>users := us\<rparr>) t u = held_codes demo_pg (demo_db\<lparr>refresh_tokens := []\<rparr>) t u" for us t u
    by (simp add: held_codes_def)
  moreover have "refresh_tokens demo_db = []" by (simp add: demo_db_def)
  ultimately show ?thesis
    using demo_login_ok demo_sign [of "''key''"] demo_password [of "''pw''"]
    by (simp add: may_login_def demo_login_def demo_db_ids demo_held demo_admin demo_claims_def demo_member_def demo_user_def)
qed

section \<open>An empty database\<close>

text \<open>An identifier longer than every one in use.\<close>

definition demo_gen :: "db \<Rightarrow> string" where
  "demo_gen d = replicate (Suc (sum_list (map length (map t_ID (tenants d) @ map u_ID (users d) @ map l_ID (lots d) @
     map c_ID (campaigns d) @ map a_ID (applications d))))) CHR ''a''"

definition empty_db :: db where
  "empty_db = \<lparr>tenants = [], users = [], user_roles = [], lots = [], campaigns = [], applications = [], audit_log = [],
     audit_serial = 1, refresh_tokens = []\<rparr>"

definition empty_world :: world where
  "empty_world = demo_world\<lparr>w_db := empty_db, w_entropy := replicate 10 (Some [])\<rparr>"

lemma replicate_longer:
  assumes "i \<in> set is"
  shows "replicate (Suc (sum_list (map length is))) c \<noteq> i"
proof
  assume "replicate (Suc (sum_list (map length is))) c = i"
  then have "length i = Suc (sum_list (map length is))" by (metis length_replicate)
  moreover have "length i \<le> sum_list (map length is)" using assms by (intro member_le_sum_list) simp_all
  ultimately show False by simp
qed

lemma demo_seedable: "seedable demo_pg demo_gen demo_kdf txt"
proof -
  have "demo_gen d \<notin> t_ID ` set (tenants d) \<union> u_ID ` set (users d) \<union> l_ID ` set (lots d) \<union> c_ID ` set (campaigns d) \<union>
      a_ID ` set (applications d)" for d
  proof
    assume "demo_gen d \<in> t_ID ` set (tenants d) \<union> u_ID ` set (users d) \<union> l_ID ` set (lots d) \<union> c_ID ` set (campaigns d) \<union>
      a_ID ` set (applications d)"
    then have "demo_gen d \<in> set (map t_ID (tenants d) @ map u_ID (users d) @ map l_ID (lots d) @ map c_ID (campaigns d) @
      map a_ID (applications d))" by simp
    from replicate_longer [OF this, of "CHR ''a''"] show False by (simp add: demo_gen_def)
  qed
  then show ?thesis
    by (auto simp: seedable_def demo_gen_def demo_pg_def demo_kdf_def list_all_iff)
qed

lemma empty_world_sel [simp]: "w_db empty_world = empty_db" "w_faults empty_world = []" "unseeded demo_pg empty_db"
  "w_entropy empty_world = map Some (replicate 10 []) @ []"
  by (simp_all add: empty_world_def demo_world_def empty_db_def unseeded_def)

end
