(* ===== verification/Spec2Isabelle.thy ===== *)
theory Spec2Isabelle
  imports Demo
begin

text \<open>
  Agro-IAM: a multi-tenant identity and farm-record server in Go (PostgreSQL with row-level security,
  optional Redis), and the command that seeds its demo data. This development models the server from
  the statements of its adapters to whole requests, and proves what makes it correct. Every
  statement about the API holds for \<open>Routes (api_server l secret spa)\<close>, the composition that
  \<^verbatim>\<open>cmd/api/main.go\<close> builds, on one \<open>world\<close> that all components share.

  \<^bold>\<open>How the program is put together.\<close> A request passes \<open>logging\<close>, \<open>recover\<close>, the route table, then
  \<open>RequireAuth\<close>, \<open>RequireRole\<close> and \<open>rateLimit\<close> as its endpoint asks; a handler decodes the body and calls a
  service; a service validates, calls repositories through the ports, and emits signals to a fan-out
  of the log and the audit trail; every repository call is one transaction in which the tenant is
  bound and row-level security filters what it sees and writes.

  \<^bold>\<open>State.\<close> The services, handlers and ports are polymorphic in the state \<open>'s\<close>; the adapters fix it to
  \<open>world\<close> (\<open>World\<close>): the tables of \<^verbatim>\<open>migrations\<close> as lists of rows, the clock, the entropy source, the log,
  the limiter, and a script of round trips (\<open>NoFault\<close>, \<open>Fault\<close>: the statement did not run, \<open>LostAck\<close>:
  it ran and its answer was lost). An operation returns \<open>'a res\<close> (\<open>Ok\<close>, \<open>Err\<close> with a \<open>go_error\<close>, \<open>Panic\<close>) and the
  new state, so every early return, error and panic of the source is a branch.

  \<^bold>\<open>Theories and code.\<close>
  \<^item> Standard library: \<open>Prelude\<close> (errors, results, \<open>bindR\<close>), \<open>Encoding\<close> (hex, base64, decimal), \<open>Go_Time\<close> and
    \<open>Rfc3339\<close> (civil dates, parsing, printing), \<open>Sha256\<close> with \<open>Sha_Vectors\<close>, \<open>Json\<close> (decoding into a struct).
  \<^item> \<^verbatim>\<open>internal/domain\<close>: \<open>Domain\<close>. \<^verbatim>\<open>internal/application/ports\<close>: \<open>Ports\<close>; each Go interface is a record
    of its methods. \<^verbatim>\<open>claims.go\<close>, \<^verbatim>\<open>requestid.go\<close>: \<open>Request_Context\<close>.
  \<^item> \<^verbatim>\<open>internal/application/services\<close>: \<open>Audit_Chain\<close>, \<open>Audit_Service\<close>, \<open>Breach\<close>, \<open>Sinks\<close>, \<open>Refresh_Token\<close>,
    \<open>Role_Resolve\<close>, \<open>Auth_Service\<close>, \<open>Farm_Services\<close>, \<open>User_Service\<close>.
  \<^item> \<^verbatim>\<open>internal/infrastructure/postgres\<close> and \<^verbatim>\<open>migrations\<close>: \<open>World\<close>, \<open>Postgres\<close> (\<open>WithTenant\<close>, policies,
    statements), \<open>Audit_Repo\<close>, \<open>Identity_Repos\<close>, \<open>Farm_Repos\<close>. \<^verbatim>\<open>infrastructure/auth\<close>: \<open>Refresh_Store\<close>,
    \<open>Password\<close>, \<open>Jwt\<close>. \<^verbatim>\<open>infrastructure/redis\<close>: \<open>Rate_Limit\<close> and, for \<open>NewClient\<close>, \<open>Startup\<close>.
  \<^item> \<^verbatim>\<open>internal/http\<close>: \<open>Http\<close> (middleware, responses), \<open>Handlers\<close>, \<open>Router\<close> (route table and its composition).
  \<^item> \<^verbatim>\<open>cmd/api\<close>: \<open>Wiring\<close> and \<open>Api_Server\<close> (every port bound to its adapter), \<open>Startup\<close> (\<open>loadConfig\<close> and \<open>run\<close> up
    to the handler), \<open>Lifetime\<close> (the rest of \<open>run\<close>: the goroutine that listens, the requests it serves, the
    signal and the shutdown as the step relation \<open>run_step\<close>; and \<open>main\<close>).
  \<^item> \<^verbatim>\<open>cmd/seed\<close>: \<open>Seed_Plan\<close> (the data) and \<open>Seed\<close> (the command).
  The definitions keep the names of the code (\<open>LotService_Create\<close> is the method \<open>Create\<close> of \<open>lotService\<close>),
  fields carry a prefix of their struct, and a text that is NULL in a column and the empty string
  in Go is \<open>[]\<close>.

  \<^bold>\<open>Interfaces.\<close> A component that relies on another does so through a locale: \<open>audit_repository\<close> and
  \<open>audit_service\<close>, \<open>refresh_token_repository\<close> and \<open>auth_service\<close>, \<open>user_role_repository\<close>, \<open>signal_sink\<close>,
  \<open>ensure_exists\<close> (a lookup and the insert that makes it succeed, of the seed command), \<open>row_repository\<close>
  (a repository whose calls refine a map from tenants and ids to rows; \<open>Row_Maps\<close>) with \<open>row_table\<close>, which
  gives it for a table reached through \<open>WithTenant\<close>, and the frames of \<open>Api_Frames\<close> and \<open>Api_Server\<close>,
  which lift a reflexive and transitive relation on worlds from the repositories to whole requests. Each is interpreted on the adapters, in the theory that provides them.

  \<^bold>\<open>What the lemmas show.\<close>
  \<^item> Audit trail (C1 to C5): every chain stays intact, also under interleaved writers (\<open>Audit_Race\<close>, a step
    relation over processes); tampering is found or exhibits a collision of SHA-256.
  \<^item> Tenants (C6 to C9): repository calls neither read nor write rows of another tenant (\<open>Isolation\<close>).
  \<^item> Sessions (C10 to C17, C19, C20): one live token per family, replays revoke it, logins and rotations
    succeed on a server that answers (\<open>Session_Runs\<close>), tokens and hashes round-trip.
  \<^item> Repositories (C18, C31): for any history of calls and failed round trips a repository answers as a
    map with a row per tenant and id (\<open>Farm_Maps\<close>), on the machine \<open>map_run\<close> of \<open>Row_Maps\<close>.
  \<^item> Signals (C21), rate limits (C22 to C24, whole requests over their budget in \<open>Api_Budget\<close>), wire
    formats (C32 to C34).
  \<^item> Requests (C25 to C27, C29, C30): frames of whole requests (\<open>Access\<close>): what a request without the
    required token or role, or of another tenant, cannot change.
  \<^item> The seed command (C35 to C37): it plants its plan (\<open>Seed_Live\<close>), running it again changes nothing
    (\<open>Seed_Facts\<close>), and the accounts it makes log in (\<open>Seed_Login\<close>).
  \<^item> The API as a machine (C38 to C40): \<open>api_step\<close> (\<open>Api_Steps\<close>) is an abstract specification of what one
    endpoint may do for one tenant, which every request refines; its steps keep the type of the
    database (\<open>Api_Typed\<close>), so every history of requests does; a valid request gets its effect (\<open>Api_Live\<close>).
  \<^item> The process (C28): from the environment it starts in to its exit it keeps the database typed, and it
    shuts down only when it was cancelled (\<open>Lifetime\<close>).
  The instances that the witnesses run are in \<open>Demo\<close>.

  \<^bold>\<open>Bounds and fuel.\<close> \<open>record_loop\<close> has the two attempts of the code. The JSON reader has fuel twice the
  length of the body plus two, and the depth of 10000 of the Go scanner; C33 shows that no more fuel
  changes a value. Other loops are structural, or have a termination proof. Identifiers of the
  services have 16 random bytes, refresh tokens 32; times are whole nanoseconds, stored ones whole
  microseconds; numbers of a sequence are unbounded integers (a trail does not reach \<open>2\<^sup>6\<^sup>3\<close> rows).

  \<^bold>\<open>Parameters.\<close> Code that is not in the repository is an argument: \<open>PG\<close> (which texts PostgreSQL reads as
  identifiers, texts, documents and numbers, and in what form it stores them), \<open>json_norm\<close> (decoding and encoding a payload
  again), Argon2, golang-jwt, the identifiers PostgreSQL draws for the seed command, and what the
  environment and the drivers answer at the start. What a property asks of them is in its
  assumptions (\<open>pg_laws\<close>, \<open>pg_types\<close>, \<open>canonical_tenant\<close>) and met by the instances of \<open>Demo\<close>.

  \<^bold>\<open>Not modelled.\<close> The sockets below the handler with the server's timeouts, the idle connections that
  \<open>Shutdown\<close> waits for, and \<open>RateLimiter.Close\<close>: input and output only. The embedded single-page
  application (\<^verbatim>\<open>internal/web\<close>) is JavaScript behind a file server, the parameter \<open>spa\<close>. A response body
  is a JSON tree, not its bytes. Times carry no location: the code prints them in UTC. Numbers of a
  request are the rationals a \<open>float64\<close> represents, rounded as the reader rounds; there is no negative
  zero. Paths that need percent-encoding and the host part of patterns are left out of the route
  table. Requests run one after another, except for the audit trail, whose writers may interleave;
  concurrent calls of \<open>Refresh\<close> with one token are outside C10 (\<open>stale_rotation_forks\<close> in \<open>Session_Runs\<close>
  shows what they do). What pgx and go-redis do inside is not modelled.
\<close>

section \<open>The audit trail\<close>

text \<open>C1. \<open>Record\<close> on PostgreSQL never breaks a chain: whatever it returns and whatever round trips
  fail, the trail of every tenant that was an intact chain is one afterwards. The assumptions are
  the documented behaviour of the columns and identifiers in the form the database prints.\<close>

theorem record_keeps_chains_intact:
  assumes "AuditService_Record jn (audit_wiring pg) t a ac et ei p sv w = (r, w')"
    and "\<forall>u. intact jn (trail (w_db w) u)"
    and "pg_laws jn pg" "canonical_tenant pg t" "a = [] \<or> pg_uuid pg a = Some a"
  shows "intact jn (trail (w_db w') u)"
  using assms(2-) by (intro audit_pg_service.Record_intact [OF assms(1)]) (auto simp: storable_def draft_entry_def)

theorem record_keeps_chains_intact_witness:
  "intact demo_json (trail (w_db (snd (AuditService_Record demo_json (audit_wiring demo_pg)
     ''t1'' ''u1'' ''lot.create'' ''lot'' [] None [] demo_world))) ''t1'')"
  by (rule record_keeps_chains_intact [OF surjective_pairing])
    (simp_all add: demo_trail demo_laws, simp add: demo_pg_def)

text \<open>C2. Any interleaving of any number of concurrent \<open>Record\<close> calls, at the granularity of their
  transactions and with the clock advancing in between, leaves the trail of every tenant an intact
  chain.\<close>

theorem concurrent_records_keep_chains_intact:
  assumes "(race_step jn pg jobs)\<^sup>*\<^sup>* (w, race_start) (w', ps)"
    and "\<forall>t. intact jn (trail (w_db w) t)" "\<forall>i. job_storable jn pg (jobs i)"
  shows "intact jn (trail (w_db w') t)"
  using race_reachable_inv [OF assms(1) race_inv_start [OF assms(2)] assms(3)] by (simp add: race_inv_def)

definition demo_job :: "nat \<Rightarrow> job" where
  "demo_job i = \<lparr>job_tenant = ''t1'', job_actor = ''u1'', job_action = ''lot.create'', job_type = ''lot'',
     job_entity = [], job_payload = None, job_severity = SeverityInfo\<rparr>"

lemma demo_job_storable: "job_storable demo_json demo_pg (demo_job i)"
  by (auto simp: job_storable_def storable_def demo_job_def draft_entry_def demo_laws)
    (simp add: demo_pg_def)

theorem concurrent_records_keep_chains_intact_witness:
  "\<exists>w' ps. race_step demo_json demo_pg demo_job (demo_world, race_start) (w', ps) \<and>
     intact demo_json (trail (w_db w') ''t1'')"
proof -
  obtain p w' where rd: "read_step demo_json (audit_wiring demo_pg) (demo_job 0) 2 demo_world = (p, w')" by fastforce
  have st: "race_step demo_json demo_pg demo_job (demo_world, race_start) (w', race_start(0 := p))"
    by (rule race_step.Read [where n = 2]) (use rd in \<open>simp_all add: race_start_def\<close>)
  have "intact demo_json (trail (w_db w') ''t1'')"
    by (rule concurrent_records_keep_chains_intact [OF r_into_rtranclp [of "race_step demo_json demo_pg demo_job", OF st]])
      (simp_all add: demo_trail demo_job_storable)
  with st show ?thesis by blast
qed


definition demo_entry :: AuditEntry where
  "demo_entry = (let e = draft_entry ''t1'' ''u1'' ''lot.create'' ''lot'' [] None SeverityInfo None 0 in
     e\<lparr>ae_ChainHash := HashChainEntry genesisPrevHash 1 e ''null''\<rparr>)"




text \<open>C4. A trail the verifier rejects breaks at the entry it names: everything before that entry is
  an intact chain, the entry does not continue it, and the number reported is the entry's.\<close>

theorem verifier_names_first_break:
  assumes "verifyChainEntries jn (map Some es) = (k, Some err)"
  shows "\<exists>xs e ys. es = xs @ e # ys \<and> intact jn xs \<and>
    \<not> link_ok jn (length xs) (last_hash genesisPrevHash xs) e \<and> k = ae_Seq e"
  using assms verify_from_broken [of jn 0 genesisPrevHash es k err]
  by (auto simp: verifyChainEntries_def split: if_splits)

theorem verifier_names_first_break_witness:
  "\<exists>xs e ys. [demo_entry, demo_entry] = xs @ e # ys \<and> intact demo_json xs \<and>
    \<not> link_ok demo_json (length xs) (last_hash genesisPrevHash xs) e \<and> 1 = ae_Seq e"
proof -
  have "verifyChainEntries demo_json (map Some [demo_entry, demo_entry]) \<noteq> (0, None)"
    by (simp only: verifyChainEntries_iff) (simp add: link_ok_def demo_entry_def draft_entry_def Let_def next_seq_def)
  moreover obtain k x where r: "verifyChainEntries demo_json (map Some [demo_entry, demo_entry]) = (k, x)" by fastforce
  ultimately have "x \<noteq> None" using verifyChainEntries_accepts by metis
  with r obtain err where v: "verifyChainEntries demo_json (map Some [demo_entry, demo_entry]) = (k, Some err)" by auto
  have "ae_Seq demo_entry = 1" by (simp add: demo_entry_def draft_entry_def Let_def next_seq_def)
  moreover have "e = demo_entry" if "[demo_entry, demo_entry] = xs @ e # ys" for xs e ys
    using arg_cong [OF that, of set] by auto
  ultimately show ?thesis using verifier_names_first_break [OF v] by metis
qed

text \<open>C5. Recording and verifying: after a \<open>Record\<close> that returned without an error the trail is the old
  one and the new entry, with the actor, action and entity it was given, and \<open>VerifyChain\<close> accepts it
  as soon as its query is answered.\<close>

theorem record_then_verify:
  assumes "AuditService_Record jn (audit_wiring pg) t a ac et ei p sv w = (Ok (), w1)"
    and "intact jn (trail (w_db w) t)" "pg_laws jn pg" "canonical_tenant pg t" "a = [] \<or> pg_uuid pg a = Some a"
    and "AuditRepo_ListByTenant pg t w1 = (Ok es, w2)"
  shows "(\<exists>e. trail (w_db w1) t = trail (w_db w) t @ [e] \<and> ae_ActorUserID e = a \<and> ae_Action e = ac \<and>
      ae_EntityType e = et \<and> ae_EntityID e = ei \<and> ae_Severity e = (if sv = [] then SeverityInfo else sv)) \<and>
    AuditService_VerifyChain jn (audit_wiring pg) t w1 = (Ok (0, None), w2)"
proof -
  let ?sv = "if sv = [] then SeverityInfo else sv"
  have st: "storable jn pg (draft_entry t a ac et ei p ?sv None 0)"
    using assms(3-5) by (auto simp: storable_def draft_entry_def)
  obtain new where new: "audit_pg_service.recorded jn pg t a ac et ei p ?sv (trail (w_db w) t) new"
    "trail (w_db w1) = (trail (w_db w))(t := trail (w_db w) t @ new)"
    using audit_pg_service.Record_appends [OF assms(1,2) st] by (auto simp: audit_pg_service.grew_def)
  have "intact jn (trail (w_db w1) t)"
    using audit_pg_service.recorded_intact [OF new(1) assms(2) st] new(2) by simp
  moreover from new(1) obtain tail now e k where
    "next_entry jn t a ac et ei p ?sv tail now = Inr e" "new = [kept pg k e]"
    by (auto simp: audit_pg_service.recorded_def)
  with new(2) have "\<exists>e. trail (w_db w1) t = trail (w_db w) t @ [e] \<and> ae_ActorUserID e = a \<and> ae_Action e = ac \<and>
      ae_EntityType e = et \<and> ae_EntityID e = ei \<and> ae_Severity e = ?sv"
    using next_entry_fields by (intro exI [of _ "kept pg k e"]) (simp add: kept_def)
  moreover have "t \<noteq> []" using assms(4) by (simp add: canonical_tenant_def)
  ultimately show ?thesis
    using audit_pg_service.VerifyChain_complete [of pg t w1 es w2 jn] assms(4,6)
    by (simp add: NewAuditRepo_def audit_wiring_def)
qed

lemma demo_faults [simp]: "w_faults demo_world = []" "w_db demo_world = demo_db"
  by (simp_all add: demo_world_def)

lemma demo_tail: "AuditRepo_Tail demo_pg ''t1'' demo_world = (Ok None, demo_world)"
  by (simp add: AuditRepo_Tail_def WithTenant_clean rls_query_def rls_exec_def pg_exec_clean maybeR_def demo_db_def
      demo_pg_def first_row_def roundtrip_clean current_tenant_id_def)

lemma demo_append:
  assumes "ae_TenantID e = ''t1''" "ae_ActorUserID e = ''u1''" "ae_Payload e = None" "ae_Seq e = 1"
  shows "\<exists>d. AuditRepo_Append demo_pg e demo_world = (Ok (), demo_world\<lparr>w_db := d\<rparr>)"
proof -
  have "fst (AuditRepo_Append demo_pg e demo_world) = Ok () \<and>
      snd (AuditRepo_Append demo_pg e demo_world) = demo_world\<lparr>w_db := w_db (snd (AuditRepo_Append demo_pg e demo_world))\<rparr>"
    using assms
    by (simp add: AuditRepo_Append_def WithTenant_clean rls_exec_def pg_exec_clean audit_insert_def insert_stmt_def
      audit_insert_row_def uuid_param_def nullable_uuid_param_def demo_pg_def demo_db_def demo_tenant_def demo_user_def
      roundtrip_clean current_tenant_id_def check_def)
  then show ?thesis by (metis prod.collapse)
qed

lemma demo_record:
  "\<exists>d. AuditService_Record demo_json (audit_wiring demo_pg) ''t1'' ''u1'' ''lot.create'' ''lot'' [] None [] demo_world =
     (Ok (), demo_world\<lparr>w_db := d\<rparr>)"
proof -
  obtain e where e: "next_entry demo_json ''t1'' ''u1'' ''lot.create'' ''lot'' [] None SeverityInfo None 0 = Inr e"
    by (simp add: next_entry_def CanonicalizeEntry_def Let_def)
  from next_entry_fields [OF e] obtain d where ap: "AuditRepo_Append demo_pg e demo_world = (Ok (), demo_world\<lparr>w_db := d\<rparr>)"
    using demo_append [of e] by (auto simp: next_seq_def)
  have "world_now demo_world = (0, demo_world)" by (simp add: world_now_def demo_world_def)
  with e ap show ?thesis
    by (intro exI [of _ d]) (simp add: AuditService_Record_def numeral_2_eq_2 demo_tail)
qed

theorem record_then_verify_witness:
  "\<exists>w1 w2. AuditService_Record demo_json (audit_wiring demo_pg) ''t1'' ''u1'' ''lot.create'' ''lot'' [] None [] demo_world = (Ok (), w1) \<and>
     length (trail (w_db w1) ''t1'') = 1 \<and>
     AuditService_VerifyChain demo_json (audit_wiring demo_pg) ''t1'' w1 = (Ok (0, None), w2)"
proof -
  obtain d where r: "AuditService_Record demo_json (audit_wiring demo_pg) ''t1'' ''u1'' ''lot.create'' ''lot'' [] None [] demo_world =
     (Ok (), demo_world\<lparr>w_db := d\<rparr>)" using demo_record by blast
  let ?w1 = "demo_world\<lparr>w_db := d\<rparr>"
  have "w_faults ?w1 = []" by simp
  then obtain es where l: "AuditRepo_ListByTenant demo_pg ''t1'' ?w1 = (Ok es, ?w1)"
    by (simp add: AuditRepo_ListByTenant_def WithTenant_clean rls_query_def rls_exec_def pg_exec_clean demo_pg_def
        roundtrip_clean current_tenant_id_def)
  have "intact demo_json (trail (w_db demo_world) ''t1'')" by (simp add: demo_trail del: demo_faults)
  then have "(\<exists>e. trail (w_db ?w1) ''t1'' = trail (w_db demo_world) ''t1'' @ [e] \<and> ae_ActorUserID e = ''u1'' \<and>
      ae_Action e = ''lot.create'' \<and> ae_EntityType e = ''lot'' \<and> ae_EntityID e = [] \<and>
      ae_Severity e = (if [] = ([] :: string) then SeverityInfo else [])) \<and>
    AuditService_VerifyChain demo_json (audit_wiring demo_pg) ''t1'' ?w1 = (Ok (0, None), ?w1)"
    by (rule record_then_verify [OF r _ demo_laws _ _ l]) (simp_all, simp add: demo_pg_def)
  with r show ?thesis by (metis One_nat_def append_Nil demo_trail length_Cons list.size(3))
qed

section \<open>Tenant isolation\<close>

text \<open>C6. Whatever write a repository call performs for one tenant, and whatever round trips fail,
  every row of every other tenant in the policed tables is as it was.\<close>

theorem tenant_writes_isolated:
  assumes "current_tenant_id pg (write_tenant c) \<noteq> Inr (Some u)"
  shows "tenant_slice u (w_db (snd (run_write pg c w))) = tenant_slice u (w_db w)"
  using assms by (rule run_write_slice)

definition demo_lot :: "string \<Rightarrow> Lot" where
  "demo_lot t = \<lparr>l_ID = ''l1'', l_TenantID = t, l_Name = ''north'', l_AreaHA = 1, l_Crop = [], l_CreatedAt = 0, l_UpdatedAt = 0\<rparr>"

theorem tenant_writes_isolated_witness:
  "tenant_slice ''t2'' (w_db (snd (run_write demo_pg (CreateLot (demo_lot ''t1'')) demo_world))) =
     tenant_slice ''t2'' (w_db demo_world) \<and>
   lots (w_db (snd (run_write demo_pg (CreateLot (demo_lot ''t1'')) demo_world))) \<noteq> []"
proof
  show "tenant_slice ''t2'' (w_db (snd (run_write demo_pg (CreateLot (demo_lot ''t1'')) demo_world))) =
     tenant_slice ''t2'' (w_db demo_world)"
    by (rule tenant_writes_isolated) (simp add: demo_lot_def current_tenant_id_def demo_pg_def)
  show "lots (w_db (snd (run_write demo_pg (CreateLot (demo_lot ''t1'')) demo_world))) \<noteq> []"
    by (simp add: LotRepo_Create_def WithTenant_clean rls_exec_def pg_exec_clean lot_insert_def insert_stmt_def
        uuid_param_def demo_lot_def demo_pg_def demo_db_def demo_tenant_def roundtrip_clean current_tenant_id_def check_def)
qed

text \<open>C7. What a repository read answers depends on no row of another tenant: two databases that
  agree on the tenant's own rows give the same answer. No read changes the database.\<close>

theorem tenant_reads_isolated:
  assumes "\<And>u. current_tenant_id pg (read_tenant c) = Inr (Some u) \<Longrightarrow> tenant_slice u d1 = tenant_slice u d2"
  shows "fst (run_read pg c (w\<lparr>w_db := d1\<rparr>)) = fst (run_read pg c (w\<lparr>w_db := d2\<rparr>)) \<and>
    w_db (snd (run_read pg c (w\<lparr>w_db := d1\<rparr>))) = d1"
proof -
  have "w_db (snd (run_read pg c (w\<lparr>w_db := d1\<rparr>))) = d1"
    using run_read_db [of pg c "w\<lparr>w_db := d1\<rparr>"] by (simp only: world.select_convs world.update_convs)
      (simp add: run_read_db)
  then show ?thesis using run_read_local [of pg c d1 d2 w] assms by blast
qed

theorem tenant_reads_isolated_witness:
  "fst (run_read demo_pg (Users ''t2'') (demo_world\<lparr>w_db := demo_db\<lparr>users := [demo_user ''u2'' ''t2'']\<rparr>\<rparr>)) =
   fst (run_read demo_pg (Users ''t2'') (demo_world\<lparr>w_db := demo_db\<rparr>))"
  by (rule conjunct1 [OF tenant_reads_isolated])
    (auto simp: current_tenant_id_def demo_pg_def tenant_slice_def demo_db_def demo_user_def split: if_splits)

text \<open>C8. Without a tenant nothing is visible and nothing can be written: no write succeeds or leaves
  a trace, and an answer to a read shows no row.\<close>

theorem no_tenant_no_access:
  assumes "write_tenant c = []" "read_tenant q = []"
  shows "fst (run_write pg c w) \<noteq> Ok () \<and> w_db (snd (run_write pg c w)) = w_db w \<and>
    (\<forall>rep w'. run_read pg q w = (Ok rep, w') \<longrightarrow> reply_rows rep = 0)"
  using run_write_tenantless [OF assms(1)] run_read_tenantless [OF assms(2)] by blast

theorem no_tenant_no_access_witness:
  "fst (run_write demo_pg (CreateLot (demo_lot [])) demo_world) \<noteq> Ok () \<and>
   w_db (snd (run_write demo_pg (CreateLot (demo_lot [])) demo_world)) = w_db demo_world \<and>
   (\<exists>rep w'. run_read demo_pg (Users []) demo_world = (Ok rep, w') \<and> reply_rows rep = 0)"
proof -
  have r: "\<exists>rep w'. run_read demo_pg (Users []) demo_world = (Ok rep, w')"
    by (simp add: UserRepo_List_def WithTenant_clean rls_query_def rls_exec_def pg_exec_clean roundtrip_clean
        current_tenant_id_def reply_def)
  have "fst (run_write demo_pg (CreateLot (demo_lot [])) demo_world) \<noteq> Ok () \<and>
     w_db (snd (run_write demo_pg (CreateLot (demo_lot [])) demo_world)) = w_db demo_world \<and>
     (\<forall>rep w'. run_read demo_pg (Users []) demo_world = (Ok rep, w') \<longrightarrow> reply_rows rep = 0)"
    by (rule no_tenant_no_access) (simp_all add: demo_lot_def)
  with r show ?thesis by metis
qed

text \<open>C9. A write that does not succeed leaves the database as it was, unless the acknowledgement of a
  commit was lost.\<close>

theorem failed_write_leaves_no_trace:
  assumes "run_write pg c w = (r, w')" "r \<noteq> Ok ()" "\<forall>e. LostAck e \<notin> set (w_faults w)"
  shows "w_db w' = w_db w"
  using assms by (rule run_write_rollback)

theorem failed_write_leaves_no_trace_witness:
  "let w = demo_world\<lparr>w_faults := [NoFault, NoFault, NoFault, Fault ''reset'']\<rparr> in
     fst (run_write demo_pg (CreateLot (demo_lot ''t1'')) w) = Err (Errorf ''commit tx'' (ErrText ''reset'')) \<and>
     w_db (snd (run_write demo_pg (CreateLot (demo_lot ''t1'')) w)) = w_db w"
proof -
  let ?w = "demo_world\<lparr>w_faults := [NoFault, NoFault, NoFault, Fault ''reset'']\<rparr>"
  have e: "fst (run_write demo_pg (CreateLot (demo_lot ''t1'')) ?w) = Err (Errorf ''commit tx'' (ErrText ''reset''))"
    by (simp add: LotRepo_Create_def WithTenant_def pg_query_def rls_exec_def pg_exec_def lot_insert_def insert_stmt_def
        uuid_param_def demo_lot_def demo_pg_def demo_db_def demo_tenant_def roundtrip_def current_tenant_id_def check_def)
  have "w_db (snd (run_write demo_pg (CreateLot (demo_lot ''t1'')) ?w)) = w_db ?w"
    by (rule failed_write_leaves_no_trace [OF surjective_pairing]) (use e in \<open>simp_all del: run_write.simps\<close>)
  with e show ?thesis by (simp only: Let_def)
qed

section \<open>Sessions\<close>

text \<open>C10. Whatever token is presented, whatever round trips fail and whatever \<open>Refresh\<close> returns: a
  family of refresh tokens has at most one live token afterwards, and identifiers and hashes stay
  unique.\<close>

theorem refresh_keeps_single_live:
  assumes "AuthService_Refresh (api_auth l secret) ctx p w = (x, w')"
    and "ids_canonical (lib_pg l) (w_db w)" "single_live (refresh_tokens (w_db w))"
  shows "ids_canonical (lib_pg l) (w_db w') \<and> single_live (refresh_tokens (w_db w'))"
  using api_auth.refresh_well [OF _ assms(1)] assms(2,3) by (simp add: api_auth.well_def)

theorem refresh_keeps_single_live_witness:
  "single_live (refresh_tokens (w_db (snd (AuthService_Refresh (api_auth demo_libs ''key'') Background ''abc'' demo_session))))"
  by (rule conjunct2 [OF refresh_keeps_single_live [where l = demo_libs, OF surjective_pairing]])
    (use demo_session_ok in simp_all)

text \<open>C11. Theft of a rotated token: a presented token whose record is revoked with a successor noted
  never yields a session; once the answer is \<open>ErrUnauthorized\<close> no token of its family is live; and
  that is the answer whenever the database is reachable.\<close>

theorem stolen_token_kills_family:
  assumes "AuthService_Refresh (api_auth l secret) ctx p w = (x, w')" "p \<noteq> []"
    and "ids_canonical (lib_pg l) (w_db w)" "single_live (refresh_tokens (w_db w))"
    and "r \<in> set (refresh_tokens (w_db w))" "rr_TokenHash r = HashToken p" "\<not> live r" "rr_ReplacedBy r \<noteq> []"
  shows "(\<nexists>sess. x = Ok sess) \<and> (x = Err ErrUnauthorized \<longrightarrow> dead_family (rr_FamilyID r) (refresh_tokens (w_db w'))) \<and>
    (w_faults w = [] \<and> pg_text (lib_pg l) (HashToken p) \<longrightarrow> x = Err ErrUnauthorized)"
proof -
  have "x = Err ErrUnauthorized" if c: "w_faults w = []" "pg_text (lib_pg l) (HashToken p)"
  proof -
    have f: "RefreshTokenStore_FindByHash (lib_pg l) (HashToken p) w = (Ok r, w)"
      using FindByHash_clean [OF c(1) assms(5)] assms(4,6) c(2) by (simp add: single_live_def)
    have "canonical_id (lib_pg l) (rr_FamilyID r)" using assms(3,5) by (simp add: ids_canonical_def)
    from replay_clean [OF c(1) this, of secret ctx] show ?thesis
      using assms(1,2,7,8) f
      by (simp add: AuthService_Refresh_def api_auth_def NewRefreshTokenStore_def world_now_def DecideRotation_def live_def)
  qed
  then show ?thesis
    using api_auth.refresh_stolen [of l w r p secret ctx x w'] assms by (simp add: api_auth.well_def)
qed

theorem stolen_token_kills_family_witness:
  "let r = demo_token\<lparr>rr_RevokedAt := Some 1, rr_ReplacedBy := ''r2''\<rparr>;
       s = demo_token\<lparr>rr_ID := ''r2'', rr_TokenHash := ''h''\<rparr>;
       w = demo_session\<lparr>w_db := demo_db\<lparr>refresh_tokens := [r, s]\<rparr>\<rparr>;
       out = AuthService_Refresh (api_auth demo_libs ''key'') Background ''abc'' w in
     live s \<and> fst out = Err ErrUnauthorized \<and> dead_family ''f1'' (refresh_tokens (w_db (snd out)))"
proof -
  let ?r = "demo_token\<lparr>rr_RevokedAt := Some 1, rr_ReplacedBy := ''r2''\<rparr>"
  let ?s = "demo_token\<lparr>rr_ID := ''r2'', rr_TokenHash := ''h''\<rparr>"
  let ?w = "demo_session\<lparr>w_db := demo_db\<lparr>refresh_tokens := [?r, ?s]\<rparr>\<rparr>"
  have h: "HashToken ''abc'' \<noteq> ''h''"
  proof
    assume "HashToken ''abc'' = ''h''"
    then have "length (HashToken ''abc'') = 1" by simp
    then show False by (simp add: HashToken_def Sum256_abc b64_EncodeToString_def)
  qed
  have ok: "ids_canonical demo_pg (w_db ?w)" "single_live (refresh_tokens (w_db ?w))"
    using h by (simp_all add: demo_ids demo_token_def single_live_def live_def demo_db_def demo_user_def)
  from stolen_token_kills_family [where l = demo_libs and r = ?r and p = "''abc''" and w = ?w,
      OF surjective_pairing, of "''key''" Background] ok
  show ?thesis by (simp add: Let_def live_def demo_token_def)
qed

text \<open>C12. Rotation, then a replay of the old token, with anything in between that leaves the business
  tables as they were: the replay yields no session, and once it is answered \<open>ErrUnauthorized\<close> the
  family of the successor the rotation handed out is dead too.\<close>

theorem replay_after_rotation_kills_successor:
  assumes "AuthService_Refresh (api_auth l secret) ctx p w = (Ok sess, w1)"
    and "ids_canonical (lib_pg l) (w_db w)" "single_live (refresh_tokens (w_db w))"
    and "business w2 = business w1" "AuthService_Refresh (api_auth l secret) ctx' p w2 = (x, w3)"
  shows "(\<nexists>sess'. x = Ok sess') \<and>
    (x = Err ErrUnauthorized \<longrightarrow> (\<exists>t \<in> set (refresh_tokens (w_db w1)). live t \<and>
       rr_TokenHash t = HashToken (as_RefreshToken sess) \<and> dead_family (rr_FamilyID t) (refresh_tokens (w_db w3))))"
  using api_auth.rotate_then_replay [OF _ assms(1,4,5)] assms(2,3) by (simp add: api_auth.well_def)

theorem replay_after_rotation_kills_successor_witness:
  "\<exists>sess w1. AuthService_Refresh (api_auth demo_libs ''key'') Background ''abc'' demo_session = (Ok sess, w1) \<and>
     (\<nexists>sess'. fst (AuthService_Refresh (api_auth demo_libs ''key'') Background ''abc'' w1) = Ok sess')"
proof -
  from Refresh_live [OF demo_refreshable, of "''abc''" Background] obtain sess w1 where
    r: "AuthService_Refresh (api_auth demo_libs ''key'') Background ''abc'' demo_session = (Ok sess, w1)"
    by (auto simp: demo_token_def)
  have "ids_canonical (lib_pg demo_libs) (w_db demo_session)" using demo_session_ok by (simp only: demo_libs_sel)
  from replay_after_rotation_kills_successor [OF r this demo_session_ok(2) refl surjective_pairing] r
  show ?thesis by blast
qed



text \<open>C14. A rotation that cannot resolve the role of the user leaves the presented token as it was: the
  call ends with that error and the database is unchanged.\<close>

theorem unresolved_role_burns_no_token:
  assumes "RefreshTokenStore_FindByHash (lib_pg l) (HashToken p) w = (Ok r, w1)" "p \<noteq> []"
    and "live r" "Unix (w_clock w1) < rr_ExpiresAt r"
    and "resolveRole (NewUserRoleRepo (lib_pg l)) (rr_TenantID r) (rr_UserID r) w1 = (Err e, w2)"
  shows "AuthService_Refresh (api_auth l secret) ctx p w = (Err (Errorf ''resolve role'' e), w2) \<and> w_db w2 = w_db w"
proof -
  have "w_db w1 = w_db w"
    using assms(1) pg_query_db [of "\<lambda>d. check ''22021'' (pg_text (lib_pg l) (HashToken p))
        (first_row (filter (\<lambda>t. rr_TokenHash t = HashToken p) (refresh_tokens d)))" w]
    by (metis RefreshTokenStore_FindByHash_def snd_conv snd_rowR)
  moreover have "w_db w2 = w_db w1" using roles_pg.resolve_reads assms(5) by (metis snd_conv)
  ultimately show ?thesis using assms
    by (simp add: AuthService_Refresh_def api_auth_def NewRefreshTokenStore_def world_now_def DecideRotation_def live_def
        refresh_rotate_def)
qed

theorem unresolved_role_burns_no_token_witness:
  "let w = demo_session\<lparr>w_faults := [NoFault, Fault ''reset'']\<rparr> in
     AuthService_Refresh (api_auth demo_libs ''key'') Background ''abc'' w =
       (Err (Errorf ''resolve role'' (Errorf ''resolve role'' (Errorf ''begin tx'' (ErrText ''reset'')))), w\<lparr>w_faults := []\<rparr>)"
proof -
  let ?w = "demo_session\<lparr>w_faults := [NoFault, Fault ''reset'']\<rparr>"
  have f: "RefreshTokenStore_FindByHash (lib_pg demo_libs) (HashToken ''abc'') ?w = (Ok demo_token, ?w\<lparr>w_faults := [Fault ''reset'']\<rparr>)"
    by (simp add: RefreshTokenStore_FindByHash_def pg_query_def pg_exec_def roundtrip_def demo_token_def first_row_def check_def)
  have "resolveRole (NewUserRoleRepo (lib_pg demo_libs)) (rr_TenantID demo_token) (rr_UserID demo_token) (?w\<lparr>w_faults := [Fault ''reset'']\<rparr>) =
      (Err (Errorf ''resolve role'' (Errorf ''begin tx'' (ErrText ''reset''))), ?w\<lparr>w_faults := []\<rparr>)"
    by (simp add: resolveRole_def NewUserRoleRepo_def UserRoleRepo_ListByUser_def WithTenant_def roundtrip_def)
  from unresolved_role_burns_no_token [OF f _ _ _ this] show ?thesis
    by (simp add: demo_token_def live_def Unix_def Let_def)
qed

text \<open>C15. A login leaves the tokens as they were, or appends one live token; the latter only for an
  active user of the tenant with that email whose stored hash verifies the password.\<close>

theorem login_opens_one_session:
  assumes "AuthService_Login (api_auth l secret) t e p w = (x, w')" "ids_canonical (lib_pg l) (w_db w)"
  shows "refresh_tokens (w_db w') = refresh_tokens (w_db w) \<and> (\<nexists>sess. x = Ok sess) \<or>
    (\<exists>u tok. u \<in> set (users (w_db w)) \<and> u_Email u = e \<and> current_tenant_id (lib_pg l) t = Inr (Some (u_TenantID u)) \<and>
       u_IsActive u \<and> phc_verify (lib_kdf l) (u_PasswordHash u) p = Ok True \<and>
       refresh_tokens (w_db w') = refresh_tokens (w_db w) @ [tok] \<and> live tok \<and>
       rr_UserID tok = u_ID u \<and> rr_TenantID tok = u_TenantID u)"
proof -
  have inv: "ids_canonical (lib_pg l) (business w)" using assms(2) by simp
  from api_auth.login_effect [OF assms(1) inv] show ?thesis
  proof (elim disjE exE conjE)
    assume "api_auth.idle l w w'" "\<nexists>sess. x = Ok sess"
    then show ?thesis by (simp add: api_auth.idle_def)
  next
    fix u sb sc
    assume "api_auth.idle l w w'" "\<nexists>sess. x = Ok sess"
    then show ?thesis by (simp add: api_auth.idle_def)
  next
    fix u sb sc
    assume f: "usr_FindByEmail (ath_users (api_auth l secret)) t e w = (Ok u, sb)"
      and a: "u_IsActive u" and v: "hsh_Verify (ath_hasher (api_auth l secret)) (u_PasswordHash u) p sb = (Ok True, sc)"
      and o: "api_auth.opened l u w w'"
    have "UserRepo_FindByEmail (lib_pg l) t e w = (Ok u, sb)" using f by (simp add: api_auth_def NewUserRepo_def)
    note u = FindByEmail_user [OF this]
    have "phc_verify (lib_kdf l) (u_PasswordHash u) p = Ok True"
      using v by (simp add: api_auth_def NewPasswordHasher_def PasswordHasher_Verify_def)
    with u a o show ?thesis by (auto simp: api_auth.opened_def)
  qed
qed

theorem login_opens_one_session_witness:
  "let out = AuthService_Login (api_auth demo_libs ''key'') ''t1'' ''u1@a.b'' ''no'' demo_login in
     (\<nexists>sess. fst out = Ok sess) \<and> refresh_tokens (w_db (snd out)) = []"
proof -
  let ?out = "AuthService_Login (api_auth demo_libs ''key'') ''t1'' ''u1@a.b'' ''no'' demo_login"
  have "False" if "u \<in> set (users (w_db demo_login))" "u_Email u = ''u1@a.b''" "phc_verify demo_kdf (u_PasswordHash u) ''no'' = Ok True" for u
    using that demo_password [of "''no''"] by (auto simp: demo_login_def demo_user_def demo_db_def take_Cons')
  moreover have "refresh_tokens (w_db demo_login) = []" by (simp add: demo_login_def demo_db_def)
  moreover have "ids_canonical (lib_pg demo_libs) (w_db demo_login)" using demo_login_ok by simp
  ultimately show ?thesis
    using login_opens_one_session [where l = demo_libs and w = demo_login, OF surjective_pairing, of "''key''" "''t1''" "''u1@a.b''" "''no''"]
    unfolding Let_def by (metis demo_libs_sel(1,3))
qed

text \<open>C16. An active user who presents the right password logs in when the database is reachable,
  entropy is available and the library signs; the access token carries the strongest role held.\<close>

theorem valid_credentials_log_in:
  assumes "may_login l secret u password raw b1 access w"
  shows "\<exists>w'. AuthService_Login (api_auth l secret) (u_TenantID u) (u_Email u) password w =
    (Ok \<lparr>as_AccessToken = access, as_RefreshToken = b64_EncodeToString alpha_url raw, as_ExpiresIn = 900,
        as_UserID = u_ID u, as_TenantID = u_TenantID u, as_Role = []\<rparr>, w')"
  by (rule Login_live [OF assms])

theorem valid_credentials_log_in_witness:
  "fst (AuthService_Login (api_auth demo_libs ''key'') ''t1'' ''u1@a.b'' ''pw'' demo_login) =
     Ok \<lparr>as_AccessToken = ''hs.key'', as_RefreshToken = b64_EncodeToString alpha_url (replicate 32 0), as_ExpiresIn = 900,
        as_UserID = ''u1'', as_TenantID = ''t1'', as_Role = []\<rparr>"
  using valid_credentials_log_in [OF demo_may_login] by (auto simp: demo_member_def demo_user_def)

section \<open>Credentials\<close>

text \<open>C17. An access token verifies to the claims it was issued for until it expires.\<close>

theorem issued_token_identifies:
  assumes "jwt_laws jw header" "NewTokenManager secret ttl clk = Ok m"
    and "TokenManager_Issue jw m c s = (Ok t, s')" "clk s = (now, s1)"
    and "tc_UserID c \<noteq> []" "tc_TenantID c \<noteq> []"
    and "libclk w = (later, w1)" "later < Unix (Add now ttl) * Second"
  shows "TokenManager_Verify jw m libclk t w = (Ok c, w1)"
proof -
  have "jm_now m = clk" "jm_ttl m = ttl" using assms(2) by (auto simp: NewTokenManager_def split: if_splits)
  with assms show ?thesis by (intro Verify_Issue [OF assms(1,3)]) auto
qed

theorem issued_token_identifies_witness:
  "\<exists>m t. NewTokenManager ''key'' accessTokenTTL world_now = Ok m \<and>
     TokenManager_Issue demo_jwt m demo_claims demo_world = (Ok t, demo_world) \<and>
     TokenManager_Verify demo_jwt m world_now t (demo_world\<lparr>w_clock := 5 * Minute\<rparr>) = (Ok demo_claims, demo_world\<lparr>w_clock := 5 * Minute\<rparr>)"
proof -
  let ?m = "\<lparr>jm_secret = ''key'', jm_ttl = accessTokenTTL, jm_now = world_now\<rparr>"
  have m: "NewTokenManager ''key'' accessTokenTTL world_now = Ok ?m" by (simp add: NewTokenManager_def)
  have n: "world_now demo_world = (0, demo_world)" by (simp add: world_now_def demo_world_def)
  have i: "TokenManager_Issue demo_jwt ?m demo_claims demo_world = (Ok ''hs.key'', demo_world)"
    using demo_sign [of "''key''"] n by (simp add: TokenManager_Issue_def)
  have "TokenManager_Verify demo_jwt ?m world_now ''hs.key'' (demo_world\<lparr>w_clock := 5 * Minute\<rparr>) =
      (Ok demo_claims, demo_world\<lparr>w_clock := 5 * Minute\<rparr>)"
    by (rule issued_token_identifies [OF demo_jwt_laws m i n, where later = "5 * Minute"])
      (simp_all add: demo_claims_def world_now_def accessTokenTTL_def Add_def Unix_def Minute_def Second_def)
  with m i show ?thesis by blast
qed

text \<open>A token whose header names any other algorithm is refused, whatever its claims and signature.\<close>

theorem foreign_algorithm_rejected:
  assumes "jwt_laws jw header" "header t \<noteq> HS256"
  shows "fst (TokenManager_Verify jw m libclk t w) = Err ErrUnauthorized"
  by (rule Verify_other_method [OF assms])

theorem foreign_algorithm_rejected_witness:
  "fst (TokenManager_Verify demo_jwt \<lparr>jm_secret = ''key'', jm_ttl = accessTokenTTL, jm_now = world_now\<rparr> world_now ''no.key'' demo_world) =
     Err ErrUnauthorized"
  by (rule foreign_algorithm_rejected [OF demo_jwt_laws]) (simp add: demo_header_def has_prefix_def)

text \<open>C19. A stored hash parses back to its parameters, salt and key: it verifies exactly the passwords
  the derivation maps to the same key.\<close>

theorem stored_hash_verifies:
  assumes "PasswordHasher_Hash kdf rnd password s = (Ok h, s1)"
    and "\<forall>pw salt t m p n key. kdf pw salt t m p n = Ok key \<longrightarrow> length key = unat n"
  shows "\<exists>salt key. kdf password salt 1 65536 4 32 = Ok key \<and>
    (\<forall>other. phc_verify kdf h other = bind1 (kdf other salt 1 65536 4 32) (\<lambda>got. Ok (got = key))) \<and>
    ValidatePhcFormat h = (65536, 1, 4, True)"
proof -
  have "ValidatePhcFormat h = (65536, 1, 4, True)" using assms(1) by (rule Hash_Ok) (simp add: ValidatePhcFormat_string)
  moreover have "\<exists>salt key. kdf password salt 1 65536 4 32 = Ok key \<and>
    (\<forall>other. phc_verify kdf h other = bind1 (kdf other salt 1 65536 4 32) (\<lambda>got. Ok (got = key)))"
    by (rule Verify_Hash [OF assms(1)]) (use assms(2) in blast)
  ultimately show ?thesis by blast
qed

theorem stored_hash_verifies_witness:
  "\<exists>h s1. PasswordHasher_Hash demo_kdf world_rand ''pw'' demo_session = (Ok h, s1) \<and>
     phc_verify demo_kdf h ''pw'' = Ok True \<and> phc_verify demo_kdf h ''pq'' = Ok False"
proof -
  obtain h s1 where h: "PasswordHasher_Hash demo_kdf world_rand ''pw'' demo_session = (Ok h, s1)"
    by (simp add: PasswordHasher_Hash_def world_rand_def demo_kdf_def)
  obtain salt key where k: "demo_kdf ''pw'' salt 1 65536 4 32 = Ok key"
    "\<forall>other. phc_verify demo_kdf h other = bind1 (demo_kdf other salt 1 65536 4 32) (\<lambda>got. Ok (got = key))"
    using stored_hash_verifies [OF h] demo_kdf_length by blast
  have "demo_kdf ''pq'' salt 1 65536 4 32 \<noteq> demo_kdf ''pw'' salt 1 65536 4 32"
    by (simp add: demo_kdf_def take_Cons')
  with h k show ?thesis by (auto simp: demo_kdf_def)
qed

text \<open>C20. The role in every access token is the most privileged one the user holds in the tenant, and
  empty only if none of the five is held.\<close>

theorem resolved_role_is_strongest:
  assumes "resolveRole (NewUserRoleRepo pg) t u w = (Ok r, w')"
  shows "r = strongest (privileges (held_codes pg (w_db w) t u)) \<and> w_db w' = w_db w \<and>
    (r = [] \<longleftrightarrow> privileges (held_codes pg (w_db w) t u) = {})"
  using roles_pg.resolve_strongest [OF assms] roles_pg.resolve_roleless [OF assms] roles_pg.resolve_reads [of pg t u w] assms
  by simp

theorem resolved_role_is_strongest_witness:
  "\<exists>w'. resolveRole (NewUserRoleRepo demo_pg) ''t1'' ''u1'' demo_session = (Ok RoleAdmin, w') \<and> w_db w' = w_db demo_session"
proof -
  have "resolveRole (NewUserRoleRepo demo_pg) ''t1'' ''u1'' demo_session = (Ok RoleAdmin, demo_session)"
    by (subst resolveRole_clean) (simp_all add: canonical_id_def demo_pg_def demo_held [unfolded demo_pg_def] demo_admin)
  then show ?thesis using resolved_role_is_strongest by blast
qed

section \<open>Security signals\<close>

text \<open>C21. Emitting a signal never fails and never touches a business table, whatever the sinks do; an
  event without a tenant, or marked anonymous, leaves the whole database as it was and still reaches
  the log.\<close>

theorem emission_is_fail_open:
  "fst (EmitSignal (Some (api_signals l)) sg an t a r w) = Ok () \<and>
   business (snd (EmitSignal (Some (api_signals l)) sg an t a r w)) = business w \<and>
   ((an \<or> t = []) \<and> sg \<in> dom breachTable \<longrightarrow>
      (\<exists>line. snd (EmitSignal (Some (api_signals l)) sg an t a r w) = w\<lparr>w_log := w_log w @ [line]\<rparr>))"
proof -
  have "\<exists>line. snd (EmitSignal (Some (api_signals l)) sg an t a r w) = w\<lparr>w_log := w_log w @ [line]\<rparr>"
    if anon: "an \<or> t = []" and sg: "sg \<in> dom breachTable"
  proof -
    obtain e where e: "Detect sg an = Some e" using sg by (auto simp: Detect_def)
    have "\<exists>line. snd (api_signals l ev w) = w\<lparr>w_log := w_log w @ [line]\<rparr>" if "se_Anonymous ev \<or> se_TenantID ev = []" for ev
      using that by (auto simp: api_signals_eq AuditSink_anonymous SlogSink_Emit_def log_defs world_log_def)
    moreover have "snd (emitEvent (Some k) t a sg an (Some e) r w) = snd (k \<lparr>se_Signal = sg, se_Action = ev_Action e,
        se_Severity = ev_Severity e, se_TenantID = t, se_ActorID = a, se_RequestID = r, se_Anonymous = an\<rparr> w)" for k
      by (simp add: emitEvent_def split: prod.splits res.splits)
    ultimately show ?thesis using anon e by (simp add: EmitSignal_def)
  qed
  then show ?thesis using api_sink.EmitSignal_fail_open api_sink.EmitSignal_core by blast
qed

theorem emission_is_fail_open_witness:
  "\<exists>line. snd (EmitSignal (Some (api_signals demo_libs)) SignalRateLimitExceeded True [] [] ''r'' demo_world) =
     demo_world\<lparr>w_log := [line]\<rparr>"
  using emission_is_fail_open [of demo_libs SignalRateLimitExceeded True "[]" "[]" "''r''" demo_world]
  by (auto simp: breachTable_def demo_world_def)

section \<open>Rate limiting\<close>

text \<open>C22. Within one window the limiter admits exactly the first \<open>limit\<close> calls of a key and no more,
  in memory as on Redis.\<close>

theorem window_admits_exactly_limit:
  assumes "1 \<le> limit" "0 \<le> len" "\<forall>u \<in> set ts. u \<le> t + len"
    and "r = NewRateLimiter client []"
  shows "allow_run key limit (len * Millisecond) (map (\<lambda>u. u * Millisecond) (t # ts)) r =
    replicate (min (Suc (length ts)) (nat limit)) True @ replicate (Suc (length ts) - nat limit) False"
proof -
  let ?us = "map (\<lambda>u. u * Millisecond) ts"
  have "\<forall>u \<in> set ?us. u \<le> t * Millisecond + len * Millisecond"
  proof
    fix u' assume "u' \<in> set ?us"
    then obtain u where u: "u \<in> set ts" "u' = u * Millisecond" by auto
    then have "u * Millisecond \<le> (t + len) * Millisecond"
      using assms(3) by (intro mult_right_mono) (simp_all add: Millisecond_def)
    with u show "u' \<le> t * Millisecond + len * Millisecond" by (simp add: distrib_right)
  qed
  note first = window_run_first [OF this assms(1)]
  have new: "\<not> rl_client (NewRateLimiter False [])" "memory_window key (NewRateLimiter False []) = None"
    by (simp_all add: NewRateLimiter_def memory_window_def)
  have "allow_run key limit (len * Millisecond) (t * Millisecond # ?us) (NewRateLimiter False []) =
      replicate (min (Suc (length ts)) (nat limit)) True @ replicate (Suc (length ts) - nat limit) False"
    unfolding memory_run [OF new(1) assms(1)] new(2) first by simp
  moreover have "allow_run key limit (len * Millisecond) (map (\<lambda>u. u * Millisecond) (t # ts)) (NewRateLimiter client []) =
      allow_run key limit (len * Millisecond) (map (\<lambda>u. u * Millisecond) (t # ts)) (NewRateLimiter False [])"
    using stores_agree [OF assms(1,2), of key "t # ts"] by (cases client) simp_all
  ultimately show ?thesis using assms(4) by simp
qed

theorem window_admits_exactly_limit_witness:
  "allow_run ''rl:auth:10.0.0.1'' 2 Minute (map (\<lambda>u. u * Millisecond) [0, 1, 2]) (NewRateLimiter True []) = [True, True, False]"
  using window_admits_exactly_limit [of 2 60000 "[1, 2]" 0 "NewRateLimiter True []" True "''rl:auth:10.0.0.1''"]
  by (simp add: Minute_def Second_def Millisecond_def numeral_2_eq_2)

text \<open>C23. The in-memory limiter and the Redis script decide alike on a clock that ticks in
  milliseconds: every sequence of calls for a key gets the same answers from both.\<close>

theorem limiter_stores_agree:
  assumes "1 \<le> limit" "0 \<le> len"
  shows "allow_run k limit (len * Millisecond) (map (\<lambda>t. t * Millisecond) ts) (NewRateLimiter True []) =
    allow_run k limit (len * Millisecond) (map (\<lambda>t. t * Millisecond) ts) (NewRateLimiter False [])"
  by (rule stores_agree [OF assms])

theorem limiter_stores_agree_witness:
  "allow_run ''k'' 1 (60000 * Millisecond) (map (\<lambda>t. t * Millisecond) [0, 60000, 60001]) (NewRateLimiter True []) =
   allow_run ''k'' 1 (60000 * Millisecond) (map (\<lambda>t. t * Millisecond) [0, 60000, 60001]) (NewRateLimiter False [])"
  by (rule limiter_stores_agree) simp_all

text \<open>\<open>Retry-After\<close> is a positive whole number of seconds, at least the time left and less than a
  second more.\<close>

theorem retry_after_is_ceiling:
  "\<exists>n. formatRetryAfter d = FormatInt n \<and> 1 \<le> n \<and> d \<le> n * Second \<and> (0 < d \<longrightarrow> (n - 1) * Second < d)"
  by (rule formatRetryAfter_ceil)

theorem retry_after_is_ceiling_witness:
  "\<exists>n. formatRetryAfter (1500 * Millisecond) = FormatInt n \<and> n = 2"
  using retry_after_is_ceiling [of "1500 * Millisecond"] by (auto simp: Millisecond_def Second_def)

section \<open>Requests\<close>

text \<open>C25. End to end: outside the two session endpoints, a request changes nothing that belongs to a
  tenant other than the one its access token verifies to, nor the tenant registry, nor any session,
  whatever its method, path, body and whatever round trips fail.\<close>

theorem request_changes_own_tenant_only:
  assumes "uuid_stable (lib_pg l)" "rq_Ctx r = Background" "rq_Path r \<notin> session_paths"
    and "\<forall>c. identity (api_tokenManager l secret) r w = Some c \<longrightarrow> current_tenant_id (lib_pg l) (tc_TenantID c) \<noteq> Inr (Some u)"
    and "Routes (api_server l secret spa) r w = (resp, w')"
  shows "tenant_slice u (w_db w') = tenant_slice u (w_db w) \<and> tenants (w_db w') = tenants (w_db w) \<and>
    refresh_tokens (w_db w') = refresh_tokens (w_db w)"
  using request_foreign [of l r secret w u spa] assms by simp

definition demo_request :: "string \<Rightarrow> string \<Rightarrow> string \<Rightarrow> string \<Rightarrow> Request" where
  "demo_request meth path token body = \<lparr>rq_Method = meth, rq_Path = path, rq_Authorization = token,
     rq_RemoteAddr = ''10.0.0.1:5000'', rq_Query = [], rq_PathValue = [], rq_Body = body, rq_Ctx = Background\<rparr>"

lemma demo_identity:
  "w_clock w = 0 \<Longrightarrow> identity (api_tokenManager demo_libs ''key'') (demo_request m p ''Bearer hs.key'' b) w = Some demo_claims"
  "identity (api_tokenManager demo_libs ''key'') (demo_request m p [] b) w = None"
  by (simp_all add: identity_def demo_request_def bearerToken_def has_prefix_def api_tokenManager_def jwt_manager_def
      TokenManager_Verify_def world_now_def demo_jwt_def demo_header_def hs256_only_def accessTokenTTL_def Minute_def Second_def
      claim_string_claims_map demo_claims_def)

lemma demo_uuid_stable: "uuid_stable (lib_pg demo_libs)"
  by (simp add: uuid_stable_def demo_pg_def)

theorem request_changes_own_tenant_only_witness:
  "let w' = snd (Routes (api_server demo_libs ''key'' (\<lambda>r. noContent))
       (demo_request ''POST'' ''/api/v1/lots'' ''Bearer hs.key'' ''{\"name\":\"N\",\"area_ha\":1.5,\"crop\":\"soy\"}'') demo_world) in
     tenant_slice ''t2'' (w_db w') = tenant_slice ''t2'' (w_db demo_world) \<and> tenants (w_db w') = tenants (w_db demo_world) \<and>
     refresh_tokens (w_db w') = refresh_tokens (w_db demo_world)"
  unfolding Let_def
  by (rule request_changes_own_tenant_only [OF demo_uuid_stable _ _ _ surjective_pairing])
    (simp_all add: demo_identity demo_world_def, simp_all add: demo_request_def session_paths_def demo_claims_def demo_pg_def)

text \<open>C26. A request to an endpoint that its token, or the lack of one, does not open is answered 401 or
  403, and nothing happens but the draw of a request id and one line in the log: no table is read
  or written, no event is emitted and no rate-limit budget is spent.\<close>

theorem refused_request_changes_nothing:
  assumes "jwt_total (lib_jwt l)" "lookup_route routes (rq_Method r) (rq_Path r) = Some (acc, e, vs)"
    and "cleanPath (rq_Path r) = rq_Path r" "\<not> may_reach acc (identity (api_tokenManager l secret) r w)"
  shows "\<exists>line. Routes (api_server l secret spa) r w =
    (Ok (case identity (api_tokenManager l secret) r w of
           None \<Rightarrow> writeError 401 ''unauthorized'' | Some c \<Rightarrow> writeError 403 ''forbidden''),
     (accepted (api_server l secret spa) w)\<lparr>w_log := w_log w @ [line]\<rparr>)"
  using request_refused [OF assms] by (simp add: refusal_def)

lemma demo_jwt_total: "jwt_total (lib_jwt demo_libs)"
  by (auto simp: jwt_total_def demo_jwt_def bind1_def split: res.splits)

theorem refused_request_changes_nothing_witness:
  "\<exists>line. Routes (api_server demo_libs ''key'' (\<lambda>r. noContent)) (demo_request ''GET'' ''/api/v1/users'' [] []) demo_world =
     (Ok (writeError 401 ''unauthorized''), demo_world\<lparr>w_log := [line]\<rparr>)"
proof -
  have "lookup_route routes ''GET'' ''/api/v1/users'' = Some (AnyOf [RoleAdmin], UsersList, [])"
    by (simp add: routes_def method_matches_def)
  then show ?thesis
    using refused_request_changes_nothing [OF demo_jwt_total, of "demo_request ''GET'' ''/api/v1/users'' [] []"
        "AnyOf [RoleAdmin]" UsersList "[]" "''key''" demo_world "\<lambda>r. noContent"]
    by (simp add: demo_identity may_reach_def)
      (simp add: demo_request_def cleanPath_def accepted_def world_now_def NewID_def world_rand_def demo_world_def)
qed

text \<open>C27. Only an administrator's request changes an account: without a token that verifies to the
  admin role, users and their roles are afterwards what they were, in every tenant.\<close>

theorem only_admins_change_accounts:
  assumes "rq_Ctx r = Background" "\<forall>c. identity (api_tokenManager l secret) r w = Some c \<longrightarrow> tc_Role c \<noteq> RoleAdmin"
    and "Routes (api_server l secret spa) r w = (resp, w')"
  shows "users (w_db w') = users (w_db w) \<and> user_roles (w_db w') = user_roles (w_db w)"
  using request_accounts [of r l secret w spa] assms by (simp add: accounts_def)

theorem only_admins_change_accounts_witness:
  "let w' = snd (Routes (api_server demo_libs ''key'' (\<lambda>r. noContent))
       (demo_request ''POST'' ''/api/v1/auth/refresh'' [] ''{\"refresh_token\":\"abc\"}'') demo_session) in
     users (w_db w') = users (w_db demo_session) \<and> user_roles (w_db w') = user_roles (w_db demo_session)"
  unfolding Let_def
  by (rule only_admins_change_accounts [OF _ _ surjective_pairing, where l = demo_libs]) (simp_all add: demo_identity, simp add: demo_request_def)

text \<open>Logging in and refreshing change sessions and the audit trail only.\<close>

theorem session_endpoints_change_no_record:
  assumes "rq_Ctx r = Background" "rq_Path r \<in> session_paths" "Routes (api_server l secret spa) r w = (resp, w')"
  shows "w_db w' = (w_db w)\<lparr>refresh_tokens := refresh_tokens (w_db w'), audit_log := audit_log (w_db w'),
    audit_serial := audit_serial (w_db w')\<rparr>"
  using request_records [of r l secret spa w] assms by (auto simp: records_def intro: db.equality)

theorem session_endpoints_change_no_record_witness:
  "lots (w_db (snd (Routes (api_server demo_libs ''key'' (\<lambda>r. noContent))
       (demo_request ''POST'' ''/api/v1/auth/login'' [] ''{}'') demo_session))) = lots (w_db demo_session)"
proof -
  have "rq_Ctx (demo_request ''POST'' ''/api/v1/auth/login'' [] ''{}'') = Background"
    "rq_Path (demo_request ''POST'' ''/api/v1/auth/login'' [] ''{}'') \<in> session_paths"
    by (simp_all add: demo_request_def session_paths_def)
  from arg_cong [OF session_endpoints_change_no_record [OF this surjective_pairing], of lots]
  show ?thesis by simp
qed

text \<open>C29. Every request is answered: no handler, whatever its services do, ends a request in an error
  or a panic, and the access log closes with a line that carries the status of the answer.\<close>

theorem every_request_is_answered_and_logged:
  "\<exists>resp w2 attrs. Routes srv r w = (Ok resp, log_Info (srv_log srv) ''http'' attrs w2) \<and>
     map_of attrs ''status'' = Some (LInt (rs_Status resp)) \<and> map_of attrs ''path'' = Some (LStr (rq_Path r))"
  by (rule Routes_answers)



text \<open>The budget of login and refresh attempts belongs to the address alone: every attempt on either
  endpoint from any port of a host counts against one key, and no other endpoint's requests do.\<close>

theorem session_attempts_share_budget:
  assumes "rq_RemoteAddr r = host @ '':'' @ port" "CHR '':'' \<notin> set port" "\<not> has_prefix (rq_RemoteAddr r) ''[''"
  shows "deriveRateLimitKey r = ''rl:auth:'' @ host \<longleftrightarrow> rq_Path r \<in> session_paths"
proof -
  have "stripPort (rq_RemoteAddr r) = host" using stripPort_ipv4 [of port host] assms by simp
  then show ?thesis by (auto simp: deriveRateLimitKey_def Let_def session_paths_def)
qed

theorem session_attempts_share_budget_witness:
  "deriveRateLimitKey (demo_request ''POST'' ''/api/v1/auth/login'' [] []) = ''rl:auth:10.0.0.1''"
  using session_attempts_share_budget [of "demo_request ''POST'' ''/api/v1/auth/login'' [] []" "''10.0.0.1''" "''5000''"]
  by (simp add: demo_request_def session_paths_def has_prefix_def)

section \<open>Text formats\<close>






section \<open>The seed command\<close>

text \<open>C35. On a freshly migrated database that can be reached, with entropy for the ten salts, the seed
  command succeeds and adds everything its plan says: both tenants, every account with its role and a
  hash that verifies its password, every lot and campaign, and every application on the lot, in the
  campaign and by the operator it names.\<close>

theorem seed_plants_the_plan:
  assumes "seedable pg gen kdf plan_texts" "w_faults w = []" "unseeded pg (w_db w)"
    and "w_entropy w = map Some salts @ es" "length salts = 10" "dsn \<noteq> []" "connect dsn = None"
  shows "\<exists>s'. seed_run pg gen kdf connect dsn (w, out) = (Ok (), s') \<and> grows (w_db w) (w_db (fst s')) \<and>
    list_all (planted pg kdf (w_db (fst s'))) demoPlan"
  using seed_once [of pg gen kdf w salts es dsn connect out, OF assms] by (auto simp: list_all_iff)

theorem seed_plants_the_plan_witness:
  "\<exists>s'. seed_run demo_pg demo_gen demo_kdf (\<lambda>_. None) ''postgres'' (empty_world, []) = (Ok (), s') \<and>
    grows empty_db (w_db (fst s')) \<and> list_all (planted demo_pg demo_kdf (w_db (fst s'))) demoPlan"
  using seed_plants_the_plan [where w = empty_world and salts = "replicate 10 []" and es = "[]" and out = "[]"
      and connect = "\<lambda>_. None" and dsn = "''postgres''", OF demo_seedable] by simp

text \<open>C36. Seeding is idempotent and stable: after one success, running the command again on that database, or
  on one to which rows have been added since, changes no row, whatever clock, entropy, identifiers and
  failures the second run meets.\<close>

theorem seeding_again_changes_nothing:
  assumes "seed_run pg gen kdf connect dsn s = (Ok (), s1)" "grows (w_db (fst s1)) (w_db (fst s2))"
  shows "w_db (fst (snd (seed_run pg gen kdf connect' dsn' s2))) = w_db (fst s2)"
  by (rule seed_again [OF assms])

theorem seeding_again_changes_nothing_witness:
  "\<exists>s'. seed_run demo_pg demo_gen demo_kdf (\<lambda>_. None) ''postgres'' (empty_world, []) = (Ok (), s') \<and>
    w_db (fst (snd (seed_run demo_pg demo_gen demo_kdf (\<lambda>_. None) ''other'' ((fst s')\<lparr>w_entropy := [Some [1]], w_faults := [NoFault, Fault ''x'']\<rparr>, [])))) = w_db (fst s')"
proof -
  from seed_once [OF demo_seedable, of empty_world "replicate 10 []" "[]" "''postgres''" "\<lambda>_. None" "[]"] obtain s' where
    s': "seed_run demo_pg demo_gen demo_kdf (\<lambda>_. None) ''postgres'' (empty_world, []) = (Ok (), s')" by auto
  from seeding_again_changes_nothing [OF s', of "((fst s')\<lparr>w_entropy := [Some [1]], w_faults := [NoFault, Fault ''x'']\<rparr>, [])"] s'
  show ?thesis by auto
qed




section \<open>The API as a machine\<close>



definition demo_post :: Request where
  "demo_post = demo_request ''POST'' ''/api/v1/lots'' ''Bearer hs.key'' ''{\"name\":\"Lote 7\",\"area_ha\":2.5}''"

lemma demo_post_sel [simp]: "rq_Method demo_post = ''POST''" "rq_Path demo_post = ''/api/v1/lots''" "rq_Ctx demo_post = Background"
  "rq_Body demo_post = ''{\"name\":\"Lote 7\",\"area_ha\":2.5}''"
  by (simp_all add: demo_post_def demo_request_def)





text \<open>C40. A lot posted by an identified caller with budget left, in a body that decodes to a valid lot, is
  answered 201 with that lot and stored for the caller's tenant, when the server answers every round
  trip.\<close>

theorem posted_lot_is_created:
  assumes "rq_Method r = ''POST''" "rq_Path r = ''/api/v1/lots''" "rq_Ctx r = Background"
    and "identity (api_tokenManager l secret) r w = Some c" "canonical_tenant (lib_pg l) (tc_TenantID c)" "tc_UserID c \<noteq> []"
    and "tc_TenantID c \<in> t_ID ` set (tenants (w_db w))"
    and "rlr_Allowed (fst (world_Allow (''rl:api:'' @ tc_TenantID c @ '':'' @ tc_UserID c) 120 Minute w))"
    and "Decode createLotRequest_fields \<lparr>clr_Name = [], clr_AreaHA = 0, clr_Crop = []\<rparr> (rq_Body r) = Some req"
    and "clr_Name req \<noteq> []" "0 \<le> clr_AreaHA req" "list_all (pg_text (lib_pg l)) [clr_Name req, clr_Crop req]"
    and "pg_numeric (lib_pg l) (clr_AreaHA req) = Some area"
    and "w_faults w = []" "w_entropy w = b0 # Some b1 # es" "length b1 = 16"
    and "canonical_id (lib_pg l) (uuid_string (uuid_bits b1))" "uuid_string (uuid_bits b1) \<notin> l_ID ` set (lots (w_db w))"
  shows "\<exists>w'. Routes (api_server l secret spa) r w = (Ok (writeJSON 201 (toLotResponse ((new_lot (lib_pg l) w (tc_TenantID c) req b1 (clr_AreaHA req))
      \<lparr>l_CreatedAt := w_clock w, l_UpdatedAt := w_clock w\<rparr>))), w') \<and>
    lots (w_db w') = lots (w_db w) @ [new_lot (lib_pg l) w (tc_TenantID c) req b1 area]"
  by (rule lot_created [OF assms])

lemma demo_post_body: "Decode createLotRequest_fields \<lparr>clr_Name = [], clr_AreaHA = 0, clr_Crop = []\<rparr> (rq_Body demo_post) =
    Some \<lparr>clr_Name = ''Lote 7'', clr_AreaHA = 5 / 2, clr_Crop = []\<rparr>"
  unfolding demo_post_sel by code_simp

theorem posted_lot_is_created_witness:
  "\<exists>resp w'. Routes (api_server demo_libs ''key'' (\<lambda>r. noContent)) demo_post
      (demo_world\<lparr>w_entropy := [None, Some (replicate 16 0)]\<rparr>) = (Ok (writeJSON 201 resp), w') \<and>
    map l_Name (lots (w_db w')) = [''Lote 7''] \<and> map l_AreaHA (lots (w_db w')) = [5 / 2] \<and> map l_TenantID (lots (w_db w')) = [''t1'']"
proof -
  let ?w = "demo_world\<lparr>w_entropy := [None, Some (replicate 16 0)]\<rparr>"
  have w: "w_faults ?w = []" "w_clock ?w = 0" "w_db ?w = demo_db" "lots demo_db = []" "w_limiter ?w = NewRateLimiter False []"
    by (simp_all add: demo_world_def demo_db_def)
  have i: "identity (api_tokenManager demo_libs ''key'') demo_post ?w = Some demo_claims"
    unfolding demo_post_def by (rule demo_identity) (rule w(2))
  have n: "pg_numeric demo_pg x = Some x" for x by (simp add: demo_pg_def)
  have u: "canonical_id demo_pg (uuid_string (uuid_bits (replicate 16 0)))"
    using uuid_string_v4 [of "replicate 16 0"] by (auto simp: canonical_id_def demo_pg_def uuid_v4_text_def)
  have a: "rlr_Allowed (fst (world_Allow key 120 Minute ?w))" for key
    by (simp add: world_Allow_def w(5) Let_def case_prod_unfold Allow_def NewRateLimiter_def allowMemory_def)
  have "\<exists>w'. Routes (api_server demo_libs ''key'' (\<lambda>r. noContent)) demo_post ?w =
      (Ok (writeJSON 201 (toLotResponse ((new_lot (lib_pg demo_libs) ?w (tc_TenantID demo_claims)
        \<lparr>clr_Name = ''Lote 7'', clr_AreaHA = 5 / 2, clr_Crop = []\<rparr> (replicate 16 0) (5 / 2))\<lparr>l_CreatedAt := w_clock ?w, l_UpdatedAt := w_clock ?w\<rparr>))), w') \<and>
    lots (w_db w') = lots (w_db ?w) @ [new_lot (lib_pg demo_libs) ?w (tc_TenantID demo_claims)
        \<lparr>clr_Name = ''Lote 7'', clr_AreaHA = 5 / 2, clr_Crop = []\<rparr> (replicate 16 0) (5 / 2)]"
    using posted_lot_is_created [OF demo_post_sel(1-3) i _ _ _ a demo_post_body, of "5 / 2" None "replicate 16 0" "[]" "\<lambda>r. noContent"]
    by (simp add: w u n demo_db_ids demo_claims_def)
  then show ?thesis by (elim exE conjE) (intro exI conjI, assumption, simp_all add: new_lot_def w demo_claims_def)
qed

section \<open>Repositories as maps\<close>

text \<open>C31. Refinement: the repository of campaigns is a map from tenants and ids to campaigns. Whatever
  calls it gets, from whatever tenants and with whatever failures, its answers are those of the map: a
  campaign found is the one last written under that id for that tenant, with the dates its columns keep; a
  listing is every campaign of the tenant, latest first; a call that answers not found has found nothing;
  and a failed call has had no effect or the whole of it.\<close>

theorem campaign_repository_is_a_map:
  assumes "history (campaign_repo (NewCampaignRepo pg)) calls w = (answers, w')"
    and "list_all (call_ok (campaign_kind pg) (canonical_tenant pg) (canonical_id pg)) calls"
    and "keyed c_TenantID c_ID (campaigns (w_db w))"
  shows "map_run (campaign_kind pg) (rows_of c_TenantID c_ID (campaigns (w_db w))) calls answers
    (rows_of c_TenantID c_ID (campaigns (w_db w')))"
  using campaign_map.history_simulates [of pg w calls answers w'] assms
  by (simp add: campaign_map.rows_def campaign_map.sound_def)

lemma demo_canonical: "canonical_id demo_pg (c # cs)"
  by (simp add: canonical_id_def demo_pg_def)

definition demo_campaign :: Campaign where
  "demo_campaign = \<lparr>c_ID = ''c1'', c_TenantID = ''t1'', c_Name = ''Soja'', c_Season = [], c_StartedAt = None, c_EndedAt = Some 0,
     c_CreatedAt = 0, c_UpdatedAt = 0\<rparr>"

definition demo_calls :: "Campaign call list" where
  "demo_calls = [Insert demo_campaign, Find ''t1'' ''c1'', Remove ''t2'' ''c1'', Remove ''t1'' ''c1'', Find ''t1'' ''c1'', Everything ''t1'']"

theorem campaign_repository_is_a_map_witness:
  "\<exists>T. map_run (campaign_kind demo_pg) (\<lambda>t i. None) demo_calls [Done_ok, Row demo_campaign, Absent, Done_ok, Absent, Rows []] T"
proof -
  have h: "fst (history (campaign_repo (NewCampaignRepo demo_pg)) demo_calls demo_world) = [Done_ok, Row demo_campaign, Absent, Done_ok, Absent, Rows []]"
    by code_simp
  have c: "rows_of c_TenantID c_ID (campaigns (w_db demo_world)) = (\<lambda>t i. None)" "keyed c_TenantID c_ID (campaigns (w_db demo_world))"
    by (simp_all add: demo_world_def demo_db_def fun_eq_iff)
  have ok: "list_all (call_ok (campaign_kind demo_pg) (canonical_tenant demo_pg) (canonical_id demo_pg)) demo_calls"
    by (simp add: demo_calls_def demo_campaign_def demo_canonical)
  from campaign_repository_is_a_map [of demo_pg demo_calls demo_world, OF surjective_pairing ok c(2)] show ?thesis
    unfolding h c(1) by blast
qed

text \<open>C18. Refinement: the repository of applications is a map in the same sense, where an application is
  shown with its operator's name, looked up among the accounts of the same tenant.\<close>

theorem application_repository_is_a_map:
  assumes "history (application_repo (NewApplicationRepo pg)) calls w = (answers, w')"
    and "list_all (call_ok (application_kind pg (users (w_db w))) (canonical_tenant pg) (canonical_id pg)) calls"
    and "keyed a_TenantID a_ID (applications (w_db w))"
  shows "map_run (application_kind pg (users (w_db w))) (rows_of a_TenantID a_ID (map (shown (users (w_db w))) (applications (w_db w))))
    calls answers (rows_of a_TenantID a_ID (map (shown (users (w_db w))) (applications (w_db w'))))"
  using application_map.history_simulates [of pg "users (w_db w)" w calls answers w'] assms
  by (simp add: application_map.rows_def application_map.sound_def o_def)

definition demo_application :: Application where
  "demo_application = \<lparr>a_ID = ''a1'', a_TenantID = ''t1'', a_LotID = ''l1'', a_CampaignID = ''c1'', a_ProductName = ''Urea'', a_Dose = ''2 kg'',
     a_AppliedAt = 0, a_OperatorID = ''u1'', a_OperatorName = [], a_Notes = [], a_CreatedAt = 0, a_UpdatedAt = 0\<rparr>"

definition demo_application_calls :: "Application call list" where
  "demo_application_calls = [Insert demo_application, Replace (demo_application\<lparr>a_Dose := ''3 kg''\<rparr>), Find ''t1'' ''a1'', Find ''t2'' ''a1'']"

theorem application_repository_is_a_map_witness:
  "\<exists>T. map_run (application_kind demo_pg (users demo_db)) (\<lambda>t i. None) demo_application_calls
    [Done_ok, Done_ok, Row (demo_application\<lparr>a_Dose := ''3 kg'', a_OperatorName := ''u1''\<rparr>), Absent] T"
proof -
  have h: "fst (history (application_repo (NewApplicationRepo demo_pg)) demo_application_calls demo_world) =
      [Done_ok, Done_ok, Row (demo_application\<lparr>a_Dose := ''3 kg'', a_OperatorName := ''u1''\<rparr>), Absent]"
    by code_simp
  have c: "rows_of a_TenantID a_ID (map (shown (users (w_db demo_world))) (applications (w_db demo_world))) = (\<lambda>t i. None)"
      "keyed a_TenantID a_ID (applications (w_db demo_world))" "users (w_db demo_world) = users demo_db"
    by (simp_all add: demo_world_def demo_db_def fun_eq_iff)
  have ok: "list_all (call_ok (application_kind demo_pg (users (w_db demo_world))) (canonical_tenant demo_pg) (canonical_id demo_pg)) demo_application_calls"
    by (simp add: demo_application_calls_def demo_application_def demo_canonical)
  from application_repository_is_a_map [of demo_pg demo_application_calls demo_world, OF surjective_pairing ok c(2)] show ?thesis
    unfolding h c(1) unfolding c(3) by blast
qed

section \<open>Budgets and the process\<close>

text \<open>C24. A request over budget: once its route, its token and its role let a request through, and the
  limiter refuses the key it counts against, it is answered 429 with a \<open>Retry-After\<close> of whole seconds,
  at least one and at least the time left; and no record, account, role or session changes.\<close>

theorem request_over_budget_is_refused:
  assumes "counted l secret r w = Some (key, n)" "rq_Ctx r = Background" "\<not> rlr_Allowed (fst (world_Allow key n Minute w))"
  shows "\<exists>w' k. Routes (api_server l secret spa) r w = (Ok ((writeError 429 ''rate limited'')\<lparr>rs_Header :=
      [(''Retry-After'', FormatInt k), (''Content-Type'', ''application/json'')]\<rparr>), w') \<and>
    1 \<le> k \<and> rlr_RetryAfter (fst (world_Allow key n Minute w)) \<le> k * Second \<and> business w' = business w"
  using over_budget [OF assms, of spa] formatRetryAfter_ceil [of "rlr_RetryAfter (fst (world_Allow key n Minute w))"]
  by (auto simp: too_many_def)

definition demo_spent :: world where
  "demo_spent = demo_world\<lparr>w_limiter := (NewRateLimiter False [])\<lparr>rl_buckets :=
     [''rl:auth:10.0.0.1'' \<mapsto> \<lparr>tb_count = 5, tb_windowEnd = 1500 * Millisecond\<rparr>]\<rparr>\<rparr>"

theorem request_over_budget_is_refused_witness:
  "\<exists>w' k. Routes (api_server demo_libs ''key'' (\<lambda>r. noContent)) (demo_request ''POST'' ''/api/v1/auth/login'' [] ''{}'') demo_spent =
      (Ok ((writeError 429 ''rate limited'')\<lparr>rs_Header := [(''Retry-After'', FormatInt k), (''Content-Type'', ''application/json'')]\<rparr>), w') \<and>
    1500 * Millisecond \<le> k * Second \<and> users (w_db w') = users demo_db"
proof -
  let ?r = "demo_request ''POST'' ''/api/v1/auth/login'' [] ''{}''"
  have k: "cleanPath ''/api/v1/auth/login'' = ''/api/v1/auth/login''" "lookup_route routes ''POST'' ''/api/v1/auth/login'' = Some (PerIP 5, AuthLogin, [])"
    "stripPort ''10.0.0.1:5000'' = ''10.0.0.1''" by code_simp+
  have c: "counted demo_libs ''key'' ?r demo_spent = Some (''rl:auth:10.0.0.1'', 5)"
    by (simp add: counted_def demo_request_def k may_reach_def)
  have a: "fst (world_Allow ''rl:auth:10.0.0.1'' 5 Minute demo_spent) = \<lparr>rlr_Allowed = False, rlr_RetryAfter = 1500 * Millisecond\<rparr>"
    by (simp add: world_Allow_def Allow_def allowMemory_def demo_spent_def demo_world_def NewRateLimiter_def After_def Millisecond_def Let_def)
  have u: "users (w_db w') = users demo_db" if "business w' = business demo_spent" for w'
    using arg_cong [OF that, of users] by (simp add: business_def demo_spent_def demo_world_def)
  from request_over_budget_is_refused [OF c, of "\<lambda>r. noContent"] show ?thesis
    unfolding a by (auto simp: demo_request_def intro: u)
qed




end
